(* ===== verification/Prelude.thy ===== *)
theory Prelude
  imports Main "HOL-Library.Word" "HOL-Library.Signed_Division" "HOL-Library.Sublist"
begin

text \<open>
  Shared vocabulary of the development: the machine integers of the Go code, the result
  type of its fallible functions, the theorem collections the component theories fill, and
  the generic facts on lists, options and words that more than one component uses.
\<close>

unbundle bit_operations_syntax

section \<open>Types\<close>

text \<open>
  Go's \<open>int64\<close>, \<open>uint64\<close> are both 64-bit words: a conversion between them is the
  identity on bits, a signed reading is \<open>sint\<close>, a signed comparison \<open><s\<close>. A Go string is
  a sequence of bytes, that is an HOL string. Instants are microseconds since the Unix epoch,
  the resolution of PostgreSQL's TIMESTAMPTZ.
\<close>

type_synonym int64 = "64 word"
type_synonym uint64 = "64 word"
type_synonym int32 = "32 word"
type_synonym uint32 = "32 word"
type_synonym instant = int

section \<open>Theorem collections\<close>

named_theorems go_defs \<open>definitions of the Go library functions the code calls\<close>
named_theorems stmt_defs \<open>definitions of the SQL statements\<close>
named_theorems frame \<open>what an operation leaves unchanged\<close>

section \<open>Signed arithmetic of Go\<close>

text \<open>Signed division truncates towards zero; the result is cut to 64 bits.\<close>

definition sdiv64 :: "int64 \<Rightarrow> int64 \<Rightarrow> int64" where
  "sdiv64 a b = word_of_int (sint a sdiv sint b)"

lemma sint64_range: "- (2 ^ 63) \<le> sint (a :: int64)" "sint (a :: int64) < 2 ^ 63"
  using sint_range_size [of a] by (simp_all add: word_size)

lemma sint32_range: "- (2 ^ 31) \<le> sint (a :: int32)" "sint (a :: int32) < 2 ^ 31"
  using sint_range_size [of a] by (simp_all add: word_size)

lemma sint64_of_int: "- (2 ^ 63) \<le> i \<Longrightarrow> i < 2 ^ 63 \<Longrightarrow> sint (word_of_int i :: int64) = i"
  by (simp add: sint_sbintrunc' signed_take_bit_int_eq_self)

lemma sint64_eq_iff: "a = b \<longleftrightarrow> sint (a :: int64) = sint b"
  by (metis signed_word_eqI)

text \<open>A signed 64-bit result is the exact one, or differs from it by a multiple of \<open>2 ^ 64\<close>.\<close>

lemma sint64_cong: "\<exists>k. sint (word_of_int i :: int64) = i + k * 2 ^ 64"
proof -
  have "sint (word_of_int i :: int64) = signed_take_bit 63 i"
    by (simp add: sint_sbintrunc')
  also have "\<dots> = (i + 2 ^ 63) mod 2 ^ 64 - 2 ^ 63"
    by (simp add: signed_take_bit_eq_take_bit_shift take_bit_eq_mod)
  also have "\<dots> = i + (- ((i + 2 ^ 63) div 2 ^ 64)) * 2 ^ 64"
    by (simp add: minus_div_mult_eq_mod [symmetric])
  finally show ?thesis by blast
qed

lemma int32_succ_nonneg:
  assumes "0 \<le>s n" "n \<noteq> (0x7FFFFFFF :: int32)"
  shows "0 \<le>s n + 1"
proof -
  have "sint n \<noteq> sint (0x7FFFFFFF :: int32)"
    using assms(2) by (metis signed_word_eqI)
  with assms(1) sint32_range [of n] have "0 \<le> sint n" "sint n + 1 < 2 ^ 31"
    by (simp_all add: word_sle_eq)
  then have "sint (n + 1) = sint n + 1"
    by (simp add: sint_word_ariths signed_take_bit_int_eq_self)
  with \<open>0 \<le> sint n\<close> show ?thesis by (simp add: word_sle_eq)
qed

section \<open>Lists and options\<close>

lemma find_Some_mem: "find P xs = Some x \<Longrightarrow> x \<in> set xs \<and> P x"
  by (auto simp: find_Some_iff in_set_conv_nth)

lemma find_map_upd_other:
  "(\<And>x. x \<in> set xs \<Longrightarrow> P (f x) = P x) \<Longrightarrow> find P (map f xs) = map_option f (find P xs)"
  by (induction xs) auto

text \<open>A column with distinct values: a row is determined by its value in that column.\<close>

lemma distinct_map_eqD:
  "distinct (map f xs) \<Longrightarrow> x \<in> set xs \<Longrightarrow> y \<in> set xs \<Longrightarrow> f x = f y \<Longrightarrow> x = y"
  by (auto simp: distinct_map inj_on_def)

lemma find_by_key:
  "distinct (map k xs) \<Longrightarrow> x \<in> set xs \<Longrightarrow> find (\<lambda>y. k y = k x) xs = Some x"
  by (induction xs) (auto simp: rev_image_eqI)

lemma split_at_first:
  "c \<in> set s \<Longrightarrow> \<exists>a b. s = a @ c # b \<and> c \<notin> set a"
  by (rule split_list_first)

lemma find_append:
  "find P (xs @ ys) = (case find P xs of None \<Rightarrow> find P ys | Some x \<Rightarrow> Some x)"
  by (induction xs) auto

end
