(* ===== verification/Go_Text.thy ===== *)
theory Go_Text
  imports Prelude
begin

text \<open>
  The functions of Go's packages \<open>strings\<close>, \<open>strconv\<close>, \<open>encoding/hex\<close> and \<open>time\<close> that the
  service calls, on byte strings, with the facts about them the components rely on.
\<close>

section \<open>strings.TrimSpace\<close>

text \<open>
  The UTF-8 encodings of the runes \<open>unicode.IsSpace\<close> accepts. A string starts (ends) with such
  a rune exactly when one of these byte sequences is a prefix (suffix) of it.
\<close>

definition space_seqs :: "string list" where
  "space_seqs =
     [[CHR 0x09], [CHR 0x0A], [CHR 0x0B], [CHR 0x0C], [CHR 0x0D], [CHR 0x20],
      [CHR 0xC2, CHR 0x85], [CHR 0xC2, CHR 0xA0], [CHR 0xE1, CHR 0x9A, CHR 0x80],
      [CHR 0xE2, CHR 0x80, CHR 0x80], [CHR 0xE2, CHR 0x80, CHR 0x81],
      [CHR 0xE2, CHR 0x80, CHR 0x82], [CHR 0xE2, CHR 0x80, CHR 0x83],
      [CHR 0xE2, CHR 0x80, CHR 0x84], [CHR 0xE2, CHR 0x80, CHR 0x85],
      [CHR 0xE2, CHR 0x80, CHR 0x86], [CHR 0xE2, CHR 0x80, CHR 0x87],
      [CHR 0xE2, CHR 0x80, CHR 0x88], [CHR 0xE2, CHR 0x80, CHR 0x89],
      [CHR 0xE2, CHR 0x80, CHR 0x8A], [CHR 0xE2, CHR 0x80, CHR 0xA8],
      [CHR 0xE2, CHR 0x80, CHR 0xA9], [CHR 0xE2, CHR 0x80, CHR 0xAF],
      [CHR 0xE2, CHR 0x81, CHR 0x9F], [CHR 0xE3, CHR 0x80, CHR 0x80]]"

function trim_seqs :: "string list \<Rightarrow> string \<Rightarrow> string" where
  "trim_seqs ps s =
     (case find (\<lambda>p. p \<noteq> [] \<and> prefix p s) ps of
        None \<Rightarrow> s
      | Some p \<Rightarrow> trim_seqs ps (drop (length p) s))"
  by pat_completeness auto
termination
proof (relation "measure (\<lambda>(ps, s). length s)", goal_cases)
  case (2 ps s p)
  then have "p \<noteq> []" and "prefix p s"
    by (auto dest: find_Some_mem)
  then show ?case by (cases p; cases s) auto
qed simp

declare trim_seqs.simps [simp del]

definition trim_space :: "string \<Rightarrow> string" where
  "trim_space s = rev (trim_seqs (map rev space_seqs) (rev (trim_seqs space_seqs s)))"

lemma trim_seqs_suffix: "suffix (trim_seqs ps s) s"
proof (induction ps s rule: trim_seqs.induct)
  case (1 ps s)
  show ?case
  proof (cases "find (\<lambda>p. p \<noteq> [] \<and> prefix p s) ps")
    case None
    then show ?thesis by (simp add: trim_seqs.simps [of ps s])
  next
    case (Some p)
    with "1.IH" have "suffix (trim_seqs ps (drop (length p) s)) (drop (length p) s)" .
    with Some show ?thesis
      by (simp add: trim_seqs.simps [of ps s]) (meson suffix_drop suffix_order.trans)
  qed
qed

lemma length_trim_space: "length (trim_space s) \<le> length s"
  using suffix_length_le [OF trim_seqs_suffix [of space_seqs s]]
    suffix_length_le [OF trim_seqs_suffix [of "map rev space_seqs" "rev (trim_seqs space_seqs s)"]]
  by (simp add: trim_space_def)

lemma trim_seqs_idle:
  "\<forall>p \<in> set ps. p = [] \<or> \<not> prefix p s \<Longrightarrow> trim_seqs ps s = s"
  by (subst trim_seqs.simps) (auto split: option.split dest: find_Some_mem)

section \<open>strings.ToUpper against ASCII literals\<close>

text \<open>
  Every use compares the result with an ASCII literal. Besides the ASCII letters two runes have
  an ASCII upper case, the long s (C5 BF) and the dotless i (C4 B1); any other non-ASCII rune
  stays non-ASCII, here unchanged, so that the comparison has the same outcome.
\<close>

definition ascii_upper :: "char \<Rightarrow> char" where
  "ascii_upper c = (let n = of_char c :: nat in if 97 \<le> n \<and> n \<le> 122 then char_of (n - 32) else c)"

fun to_upper :: "string \<Rightarrow> string" where
  "to_upper (a # b # s) =
     (if a = CHR 0xC5 \<and> b = CHR 0xBF then CHR ''S'' # to_upper s
      else if a = CHR 0xC4 \<and> b = CHR 0xB1 then CHR ''I'' # to_upper s
      else ascii_upper a # to_upper (b # s))"
| "to_upper [a] = [ascii_upper a]"
| "to_upper [] = []"

text \<open>
  \<open>strings.EqualFold\<close> against a literal without the letters k and s: no rune outside ASCII folds
  to one of its letters, so it is equality of the ASCII upper cases.
\<close>

definition equal_fold_ascii :: "string \<Rightarrow> string \<Rightarrow> bool" where
  "equal_fold_ascii s lit \<longleftrightarrow> map ascii_upper s = map ascii_upper lit"

section \<open>Splitting\<close>

text \<open>\<open>strings.SplitN(s, sep, 2)\<close> and \<open>strings.Split(s, sep)\<close> for a one-byte separator.\<close>

fun split_n2 :: "char \<Rightarrow> string \<Rightarrow> string list" where
  "split_n2 c s =
     (if c \<in> set s then [takeWhile (\<lambda>x. x \<noteq> c) s, tl (dropWhile (\<lambda>x. x \<noteq> c) s)] else [s])"

fun split_on :: "char \<Rightarrow> string \<Rightarrow> string list" where
  "split_on c [] = [[]]"
| "split_on c (x # s) =
     (if x = c then [] # split_on c s
      else (case split_on c s of [] \<Rightarrow> [[x]] | p # ps \<Rightarrow> (x # p) # ps))"

text \<open>\<open>strings.LastIndex(s, sep)\<close>, with \<open>None\<close> for -1.\<close>

fun last_index :: "char \<Rightarrow> string \<Rightarrow> nat option" where
  "last_index c [] = None"
| "last_index c (x # s) =
     (case last_index c s of Some i \<Rightarrow> Some (Suc i) | None \<Rightarrow> if x = c then Some 0 else None)"

lemma split_n2_two:
  "c \<notin> set a \<Longrightarrow> split_n2 c (a @ c # b) = [a, b]"
  by (induction a) auto

lemma split_n2_pairD:
  assumes "split_n2 c s = [a, b]"
  shows "s = a @ c # b \<and> c \<notin> set a"
proof -
  have "c \<in> set s" using assms by (auto split: if_splits)
  then obtain a' b' where "s = a' @ c # b'" "c \<notin> set a'"
    using split_list_first by metis
  with assms split_n2_two [of c a' b'] show ?thesis by (simp del: split_n2.simps)
qed

lemma split_on_nonempty [simp]: "split_on c s \<noteq> []"
  by (cases s) (auto split: list.splits)

lemma split_on_free: "c \<notin> set s \<Longrightarrow> split_on c s = [s]"
  by (induction s) auto

lemma split_on_two:
  "c \<notin> set a \<Longrightarrow> c \<notin> set b \<Longrightarrow> split_on c (a @ c # b) = [a, b]"
  by (induction a) (auto simp: split_on_free)

lemma length_split_on: "length (split_on c s) = Suc (length (filter (\<lambda>x. x = c) s))"
  by (induction s) (auto split: list.splits)

lemma last_index_None: "last_index c s = None \<longleftrightarrow> c \<notin> set s"
  by (induction s) (auto split: option.splits)

lemma last_index_split:
  "c \<notin> set b \<Longrightarrow> last_index c (a @ c # b) = Some (length a)"
  by (induction a) (auto simp: last_index_None split: option.splits)

lemma last_index_SomeD:
  "last_index c s = Some i \<Longrightarrow> i < length s \<and> s ! i = c \<and> c \<notin> set (drop (Suc i) s)"
  by (induction s arbitrary: i) (auto simp: last_index_None split: option.splits if_splits)

section \<open>Hexadecimal\<close>

definition hex_digits :: string where
  "hex_digits = ''0123456789abcdef''"

definition hex_val :: "char \<Rightarrow> nat option" where
  "hex_val c =
     (let n = of_char c :: nat in
      if 48 \<le> n \<and> n \<le> 57 then Some (n - 48)
      else if 97 \<le> n \<and> n \<le> 102 then Some (n - 87)
      else if 65 \<le> n \<and> n \<le> 70 then Some (n - 55)
      else None)"

fun hex_encode :: "string \<Rightarrow> string" where
  "hex_encode [] = []"
| "hex_encode (c # s) =
     hex_digits ! (of_char c div 16) # hex_digits ! (of_char c mod 16) # hex_encode s"

fun hex_decode :: "string \<Rightarrow> string option" where
  "hex_decode [] = Some []"
| "hex_decode [a] = None"
| "hex_decode (a # b # s) =
     (case (hex_val a, hex_val b, hex_decode s) of
        (Some x, Some y, Some r) \<Rightarrow> Some (char_of (16 * x + y) # r)
      | _ \<Rightarrow> None)"

lemma hex_val_digit: "n < 16 \<Longrightarrow> hex_val (hex_digits ! n) = Some n"
proof -
  have "\<forall>n \<in> {..<16}. hex_val (hex_digits ! n) = Some n"
    by (simp add: hex_digits_def hex_val_def lessThan_nat_numeral)
  then show "n < 16 \<Longrightarrow> hex_val (hex_digits ! n) = Some n" by simp
qed

lemma of_char_less_256: "(of_char c :: nat) < 256"
  by (metis of_char_mod_256 mod_less_divisor zero_less_numeral)

lemma of_char_nibble: "(of_char c :: nat) div 16 < 16" "(of_char c :: nat) mod 16 < 16"
  using of_char_less_256 [of c] by linarith simp

lemma hex_decode_encode [simp]: "hex_decode (hex_encode s) = Some s"
  by (induction s) (simp_all add: hex_val_digit of_char_nibble)

lemma length_hex_encode [simp]: "length (hex_encode s) = 2 * length s"
  by (induction s) auto

lemma hex_encode_inj: "hex_encode a = hex_encode b \<longleftrightarrow> a = b"
  by (metis hex_decode_encode option.inject)

lemma hex_digit_not_underscore: "n < 16 \<Longrightarrow> hex_digits ! n \<noteq> CHR ''_''"
proof -
  have "\<forall>n \<in> {..<16}. hex_digits ! n \<noteq> CHR ''_''"
    by (simp add: hex_digits_def lessThan_nat_numeral)
  then show "n < 16 \<Longrightarrow> hex_digits ! n \<noteq> CHR ''_''" by simp
qed

lemma hex_encode_no_underscore: "CHR ''_'' \<notin> set (hex_encode s)"
  by (induction s) (simp_all add: hex_digit_not_underscore of_char_nibble not_sym)

section \<open>Decimal numerals\<close>

definition digit_char :: "nat \<Rightarrow> char" where
  "digit_char n = char_of (48 + n)"

definition is_digit :: "char \<Rightarrow> bool" where
  "is_digit c \<longleftrightarrow> 48 \<le> (of_char c :: nat) \<and> (of_char c :: nat) \<le> 57"

definition digit_val :: "char \<Rightarrow> nat" where
  "digit_val c = of_char c - 48"

lemma digit_val_char [simp]: "n < 10 \<Longrightarrow> digit_val (digit_char n) = n"
  by (simp add: digit_val_def digit_char_def)

lemma is_digit_char [simp]: "n < 10 \<Longrightarrow> is_digit (digit_char n)"
  by (simp add: is_digit_def digit_char_def)

lemma digit_char_val [simp]: "is_digit c \<Longrightarrow> digit_char (digit_val c) = c"
  by (simp add: is_digit_def digit_char_def digit_val_def)

lemma digit_val_less [simp]: "is_digit c \<Longrightarrow> digit_val c < 10"
  by (simp add: is_digit_def digit_val_def) arith

text \<open>\<open>strconv.FormatInt(i, 10)\<close>.\<close>

fun fmt_nat :: "nat \<Rightarrow> string" where
  "fmt_nat n = (if n < 10 then [digit_char n] else fmt_nat (n div 10) @ [digit_char (n mod 10)])"

declare fmt_nat.simps [simp del]

definition fmt_int :: "int \<Rightarrow> string" where
  "fmt_int i = (if i < 0 then CHR ''-'' # fmt_nat (nat (- i)) else fmt_nat (nat i))"

definition dec_val :: "string \<Rightarrow> nat" where
  "dec_val s = foldl (\<lambda>a c. 10 * a + digit_val c) 0 s"

lemma dec_val_fmt_nat [simp]: "dec_val (fmt_nat n) = n"
proof (induction n rule: fmt_nat.induct)
  case (1 n)
  then show ?case
    by (cases "n < 10") (simp_all add: fmt_nat.simps [of n] dec_val_def)
qed

lemma fmt_nat_digits: "list_all is_digit (fmt_nat n)"
proof (induction n rule: fmt_nat.induct)
  case (1 n)
  then show ?case by (cases "n < 10") (simp_all add: fmt_nat.simps [of n])
qed

lemma fmt_nat_no_minus: "CHR ''-'' \<notin> set (fmt_nat n)"
  using fmt_nat_digits [of n] by (auto simp: list_all_iff is_digit_def)

lemma fmt_nat_inj: "fmt_nat m = fmt_nat n \<longleftrightarrow> m = n"
  by (metis dec_val_fmt_nat)

lemma fmt_nat_not_minus: "fmt_nat n \<noteq> CHR ''-'' # s" "CHR ''-'' # s \<noteq> fmt_nat n"
  using fmt_nat_no_minus [of n] by (metis list.set_intros(1))+

lemma fmt_int_inj: "fmt_int i = fmt_int j \<longleftrightarrow> i = j"
  by (auto simp: fmt_int_def fmt_nat_inj fmt_nat_not_minus)

lemma fmt_int_no_newline: "CHR 0x0A \<notin> set (fmt_int i)"
  using fmt_nat_digits [of "nat i"] fmt_nat_digits [of "nat (- i)"]
  by (auto simp: fmt_int_def list_all_iff is_digit_def)

lemma fmt_int_no_dot: "CHR ''.'' \<notin> set (fmt_int i)"
  using fmt_nat_digits [of "nat i"] fmt_nat_digits [of "nat (- i)"]
  by (auto simp: fmt_int_def list_all_iff is_digit_def)

section \<open>Calendar dates: time.Parse and Format with layout 2006-01-02\<close>

type_synonym date = "nat \<times> nat \<times> nat"

definition leap_year :: "nat \<Rightarrow> bool" where
  "leap_year y \<longleftrightarrow> y mod 4 = 0 \<and> (y mod 100 \<noteq> 0 \<or> y mod 400 = 0)"

definition days_in :: "nat \<Rightarrow> nat \<Rightarrow> nat" where
  "days_in m y =
     (if m = 2 then (if leap_year y then 29 else 28)
      else if m \<in> {4, 6, 9, 11} then 30 else 31)"

fun parse_date :: "string \<Rightarrow> date option" where
  "parse_date [y1, y2, y3, y4, s1, m1, m2, s2, d1, d2] =
     (let y = dec_val [y1, y2, y3, y4]; m = dec_val [m1, m2]; d = dec_val [d1, d2] in
      if list_all is_digit [y1, y2, y3, y4, m1, m2, d1, d2] \<and> s1 = CHR ''-'' \<and> s2 = CHR ''-''
         \<and> 1 \<le> m \<and> m \<le> 12 \<and> 1 \<le> d \<and> d \<le> days_in m y
      then Some (y, m, d) else None)"
| "parse_date _ = None"

definition pad2 :: "nat \<Rightarrow> string" where
  "pad2 n = [digit_char (n div 10), digit_char (n mod 10)]"

definition pad4 :: "nat \<Rightarrow> string" where
  "pad4 n = pad2 (n div 100) @ pad2 (n mod 100)"

fun format_date :: "date \<Rightarrow> string" where
  "format_date (y, m, d) = pad4 y @ ''-'' @ pad2 m @ ''-'' @ pad2 d"

lemma pad2_dec_val:
  "is_digit a \<Longrightarrow> is_digit b \<Longrightarrow> pad2 (dec_val [a, b]) = [a, b]"
  by (simp add: pad2_def dec_val_def)

lemma pad4_dec_val:
  assumes "is_digit a" "is_digit b" "is_digit c" "is_digit d"
  shows "pad4 (dec_val [a, b, c, d]) = [a, b, c, d]"
proof -
  have v: "dec_val [a, b, c, d] = 100 * dec_val [a, b] + dec_val [c, d]"
    by (simp add: dec_val_def)
  have "dec_val [c, d] < 100"
    using digit_val_less [OF assms(3)] digit_val_less [OF assms(4)] by (simp add: dec_val_def)
  then show ?thesis
    by (simp add: pad4_def v pad2_dec_val assms)
qed

lemma format_parse_date: "parse_date s = Some d \<Longrightarrow> format_date d = s"
  by (cases s rule: parse_date.cases)
    (auto simp: Let_def pad2_dec_val pad4_dec_val simp del: One_nat_def split: if_splits)

end
