(* ===== verification/Schema.thy ===== *)
theory Schema
  imports Go_Text
begin

text \<open>
  The rows of \<open>internal/db/generate/models.go\<close>, one record per table and one datatype per
  enumeration, the database as the nine tables of the migration, and the integrity constraints
  the migration declares. A table is the list of its rows in insertion order.
\<close>

section \<open>Enumerations\<close>

datatype invoice_state = DRAFT | OPEN | PAID | VOID | UNCOLLECTIBLE

datatype payment_status = PROCESSING | SUCCEEDED | FAILED | UNKNOWN

datatype idempotency_status = IdemPROCESSING | IdemCOMPLETED

datatype delivery_status = DlvPENDING | DlvPROCESSING | DlvDELIVERED | DlvEXHAUSTED

datatype event_type = INVOICE_CREATED | INVOICE_PAID | INVOICE_PAYMENT_FAILED

fun invoice_state_str :: "invoice_state \<Rightarrow> string" where
  "invoice_state_str DRAFT = ''DRAFT''"
| "invoice_state_str OPEN = ''OPEN''"
| "invoice_state_str PAID = ''PAID''"
| "invoice_state_str VOID = ''VOID''"
| "invoice_state_str UNCOLLECTIBLE = ''UNCOLLECTIBLE''"

fun payment_status_str :: "payment_status \<Rightarrow> string" where
  "payment_status_str PROCESSING = ''PROCESSING''"
| "payment_status_str SUCCEEDED = ''SUCCEEDED''"
| "payment_status_str FAILED = ''FAILED''"
| "payment_status_str UNKNOWN = ''UNKNOWN''"

fun event_type_str :: "event_type \<Rightarrow> string" where
  "event_type_str INVOICE_CREATED = ''INVOICE.CREATED''"
| "event_type_str INVOICE_PAID = ''INVOICE.PAID''"
| "event_type_str INVOICE_PAYMENT_FAILED = ''INVOICE.PAYMENT_FAILED''"

section \<open>JSON documents\<close>

text \<open>
  What \<open>json.Marshal\<close> writes, as the document it denotes: an object keeps the order of its
  members.
\<close>

datatype json = JString string | JInt int | JObject "(string \<times> json) list"

section \<open>Rows\<close>

record business =
  biz_id :: int64
  biz_name :: string
  biz_created :: instant
  biz_updated :: instant

record api_key =
  key_id :: int64
  key_business :: int64
  key_prefix :: string
  key_hash :: string
  key_created :: instant
  key_revoked :: "instant option"

record customer =
  cus_id :: int64
  cus_business :: int64
  cus_name :: string
  cus_email :: string
  cus_created :: instant
  cus_updated :: instant

record invoice =
  inv_id :: int64
  inv_business :: int64
  inv_customer :: int64
  inv_total :: int64
  inv_currency :: string
  inv_state :: invoice_state
  inv_due :: "date option"
  inv_created :: instant
  inv_updated :: instant

record invoice_item =
  itm_id :: int64
  itm_invoice :: int64
  itm_description :: string
  itm_quantity :: int32
  itm_unit :: int64
  itm_created :: instant

record idempotency_key =
  idm_id :: int64
  idm_business :: int64
  idm_key :: string
  idm_hash :: string
  idm_status :: idempotency_status
  idm_response_status :: "int32 option"
  idm_response_body :: "json option"
  idm_created :: instant
  idm_updated :: instant

record payment_attempt =
  att_id :: int64
  att_invoice :: int64
  att_idem :: int64
  att_status :: payment_status
  att_psp_request :: int64
  att_psp_ref :: "string option"
  att_failure_code :: "string option"
  att_failure_reason :: "string option"
  att_requested :: "instant option"
  att_responded :: "instant option"
  att_created :: instant
  att_updated :: instant

record webhook_endpoint =
  whe_id :: int64
  whe_business :: int64
  whe_url :: string
  whe_secret :: string
  whe_active :: bool
  whe_created :: instant
  whe_updated :: instant

record webhook_delivery =
  whd_id :: int64
  whd_endpoint :: int64
  whd_invoice :: int64
  whd_event :: event_type
  whd_payload :: json
  whd_status :: delivery_status
  whd_attempts :: int32
  whd_next :: instant
  whd_error :: "string option"
  whd_created :: instant
  whd_delivered :: "instant option"

record database =
  businesses :: "business list"
  api_keys :: "api_key list"
  customers :: "customer list"
  invoices :: "invoice list"
  invoice_items :: "invoice_item list"
  idempotency_keys :: "idempotency_key list"
  payment_attempts :: "payment_attempt list"
  webhook_endpoints :: "webhook_endpoint list"
  webhook_deliveries :: "webhook_delivery list"

definition empty_db :: database where
  "empty_db = \<lparr>businesses = [], api_keys = [], customers = [], invoices = [],
     invoice_items = [], idempotency_keys = [], payment_attempts = [],
     webhook_endpoints = [], webhook_deliveries = []\<rparr>"

section \<open>Integrity constraints\<close>

text \<open>A value occurs in a column.\<close>

definition occurs :: "('r \<Rightarrow> 'k) \<Rightarrow> 'k \<Rightarrow> 'r list \<Rightarrow> bool" where
  "occurs col v rows \<longleftrightarrow> list_ex (\<lambda>r. col r = v) rows"

lemma occurs_iff: "occurs col v rows \<longleftrightarrow> v \<in> col ` set rows"
  by (auto simp: occurs_def list_ex_iff)

definition unresolved :: "payment_attempt \<Rightarrow> bool" where
  "unresolved a \<longleftrightarrow> att_status a \<in> {PROCESSING, UNKNOWN}"

definition primary_keys_ok :: "database \<Rightarrow> bool" where
  "primary_keys_ok d \<longleftrightarrow>
     distinct (map biz_id (businesses d)) \<and> distinct (map key_id (api_keys d))
     \<and> distinct (map cus_id (customers d)) \<and> distinct (map inv_id (invoices d))
     \<and> distinct (map itm_id (invoice_items d)) \<and> distinct (map idm_id (idempotency_keys d))
     \<and> distinct (map att_id (payment_attempts d)) \<and> distinct (map whe_id (webhook_endpoints d))
     \<and> distinct (map whd_id (webhook_deliveries d))"

definition unique_ok :: "database \<Rightarrow> bool" where
  "unique_ok d \<longleftrightarrow>
     distinct (map key_prefix (api_keys d))
     \<and> distinct (map (\<lambda>r. (idm_business r, idm_key r)) (idempotency_keys d))
     \<and> distinct (map att_idem (payment_attempts d))
     \<and> distinct (map att_psp_request (payment_attempts d))
     \<and> distinct (map att_invoice (filter unresolved (payment_attempts d)))"

definition foreign_keys_ok :: "database \<Rightarrow> bool" where
  "foreign_keys_ok d \<longleftrightarrow>
     (\<forall>r \<in> set (api_keys d). key_business r \<in> biz_id ` set (businesses d))
     \<and> (\<forall>r \<in> set (customers d). cus_business r \<in> biz_id ` set (businesses d))
     \<and> (\<forall>r \<in> set (invoices d). inv_business r \<in> biz_id ` set (businesses d)
          \<and> (inv_customer r, inv_business r)
              \<in> (\<lambda>c. (cus_id c, cus_business c)) ` set (customers d))
     \<and> (\<forall>r \<in> set (invoice_items d). itm_invoice r \<in> inv_id ` set (invoices d))
     \<and> (\<forall>r \<in> set (idempotency_keys d). idm_business r \<in> biz_id ` set (businesses d))
     \<and> (\<forall>r \<in> set (payment_attempts d). att_invoice r \<in> inv_id ` set (invoices d)
          \<and> att_idem r \<in> idm_id ` set (idempotency_keys d))
     \<and> (\<forall>r \<in> set (webhook_endpoints d). whe_business r \<in> biz_id ` set (businesses d))
     \<and> (\<forall>r \<in> set (webhook_deliveries d). whd_endpoint r \<in> whe_id ` set (webhook_endpoints d)
          \<and> whd_invoice r \<in> inv_id ` set (invoices d))"

definition invoice_check :: "invoice \<Rightarrow> bool" where
  "invoice_check r \<longleftrightarrow> 0 \<le>s inv_total r \<and> inv_currency r = ''USD'' \<and> inv_due r \<noteq> None"

definition item_check :: "invoice_item \<Rightarrow> bool" where
  "item_check r \<longleftrightarrow> 0 <s itm_quantity r \<and> 0 \<le>s itm_unit r"

definition idem_check :: "idempotency_key \<Rightarrow> bool" where
  "idem_check r \<longleftrightarrow>
     (idm_status r = IdemPROCESSING \<and> idm_response_status r = None \<and> idm_response_body r = None)
     \<or> (idm_status r = IdemCOMPLETED \<and> idm_response_status r \<noteq> None
        \<and> idm_response_body r \<noteq> None)"

definition delivery_check :: "webhook_delivery \<Rightarrow> bool" where
  "delivery_check r \<longleftrightarrow> 0 \<le>s whd_attempts r"

definition checks_ok :: "database \<Rightarrow> bool" where
  "checks_ok d \<longleftrightarrow>
     list_all invoice_check (invoices d) \<and> list_all item_check (invoice_items d)
     \<and> list_all idem_check (idempotency_keys d) \<and> list_all delivery_check (webhook_deliveries d)"

text \<open>The invariant of the database: every declared constraint holds.\<close>

definition db_ok :: "database \<Rightarrow> bool" where
  "db_ok d \<longleftrightarrow> primary_keys_ok d \<and> unique_ok d \<and> foreign_keys_ok d \<and> checks_ok d"

lemmas db_ok_defs = db_ok_def primary_keys_ok_def unique_ok_def foreign_keys_ok_def checks_ok_def

lemma db_ok_empty: "db_ok empty_db"
  by (simp add: db_ok_defs empty_db_def)

text \<open>One invoice, one unresolved attempt: the partial unique index read as a statement on rows.\<close>

lemma unresolved_unique:
  assumes "db_ok d" "a \<in> set (payment_attempts d)" "b \<in> set (payment_attempts d)"
    "unresolved a" "unresolved b" "att_invoice a = att_invoice b"
  shows "a = b"
proof -
  have "distinct (map att_invoice (filter unresolved (payment_attempts d)))"
    using assms(1) by (simp add: db_ok_defs)
  then show ?thesis
    using assms by (auto dest: distinct_map_eqD)
qed

end
