(* ===== verification/Sql_Enums.thy ===== *)
theory Sql_Enums
  imports Schema
begin

text \<open>
  The helpers that sqlc generates for the enumerated columns: reading a column (\<open>Scan\<close>), reading a
  nullable one, and writing a nullable one (\<open>Value\<close>). They work on the text of the column; a locale
  relates the text to the datatypes on which the statements are modelled.
\<close>

section \<open>Scanning\<close>

text \<open>A driver value: SQL NULL, bytes, a string, or a value of another type (its \<open>%T\<close>).\<close>

datatype sql_value = SqlNull | SqlBytes string | SqlString string | SqlOther string

definition scan_enum :: "string \<Rightarrow> sql_value \<Rightarrow> string + string" where
  "scan_enum name src =
     (let unsupported = (\<lambda>t. ''unsupported scan type for '' @ name @ '': '' @ t) in
      case src of
        SqlBytes s \<Rightarrow> Inr s
      | SqlString s \<Rightarrow> Inr s
      | SqlNull \<Rightarrow> Inl (unsupported ''<nil>'')
      | SqlOther t \<Rightarrow> Inl (unsupported t))"

record null_enum =
  ne_text :: string
  ne_valid :: bool

text \<open>The error, if any, and the receiver afterwards: a failed scan leaves it valid with its old text.\<close>

definition scan_null :: "string \<Rightarrow> sql_value \<Rightarrow> null_enum \<Rightarrow> string option \<times> null_enum" where
  "scan_null name src ns =
     (if src = SqlNull then (None, \<lparr>ne_text = [], ne_valid = False\<rparr>)
      else let ns = ns\<lparr>ne_valid := True\<rparr> in
        case scan_enum name src of
          Inl e \<Rightarrow> (Some e, ns)
        | Inr s \<Rightarrow> (None, ns\<lparr>ne_text := s\<rparr>))"

definition null_value :: "null_enum \<Rightarrow> sql_value" where
  "null_value ns = (if \<not> ne_valid ns then SqlNull else SqlString (ne_text ns))"

section \<open>The five enumerations\<close>

fun idempotency_status_str :: "idempotency_status \<Rightarrow> string" where
  "idempotency_status_str IdemPROCESSING = ''PROCESSING''"
| "idempotency_status_str IdemCOMPLETED = ''COMPLETED''"

fun delivery_status_str :: "delivery_status \<Rightarrow> string" where
  "delivery_status_str DlvPENDING = ''PENDING''"
| "delivery_status_str DlvPROCESSING = ''PROCESSING''"
| "delivery_status_str DlvDELIVERED = ''DELIVERED''"
| "delivery_status_str DlvEXHAUSTED = ''EXHAUSTED''"

definition scan_idempotency_status :: "sql_value \<Rightarrow> string + string" where
  "scan_idempotency_status = scan_enum ''IdempotencyStatusEnum''"

definition scan_null_idempotency_status :: "sql_value \<Rightarrow> null_enum \<Rightarrow> string option \<times> null_enum" where
  "scan_null_idempotency_status = scan_null ''IdempotencyStatusEnum''"

definition scan_invoice_state :: "sql_value \<Rightarrow> string + string" where
  "scan_invoice_state = scan_enum ''InvoiceStateEnum''"

definition scan_null_invoice_state :: "sql_value \<Rightarrow> null_enum \<Rightarrow> string option \<times> null_enum" where
  "scan_null_invoice_state = scan_null ''InvoiceStateEnum''"

definition scan_payment_status :: "sql_value \<Rightarrow> string + string" where
  "scan_payment_status = scan_enum ''PaymentStatusEnum''"

definition scan_null_payment_status :: "sql_value \<Rightarrow> null_enum \<Rightarrow> string option \<times> null_enum" where
  "scan_null_payment_status = scan_null ''PaymentStatusEnum''"

definition scan_delivery_status :: "sql_value \<Rightarrow> string + string" where
  "scan_delivery_status = scan_enum ''WebhookDeliveryStatusEnum''"

definition scan_null_delivery_status :: "sql_value \<Rightarrow> null_enum \<Rightarrow> string option \<times> null_enum" where
  "scan_null_delivery_status = scan_null ''WebhookDeliveryStatusEnum''"

definition scan_event_type :: "sql_value \<Rightarrow> string + string" where
  "scan_event_type = scan_enum ''WebhookEventTypeEnum''"

definition scan_null_event_type :: "sql_value \<Rightarrow> null_enum \<Rightarrow> string option \<times> null_enum" where
  "scan_null_event_type = scan_null ''WebhookEventTypeEnum''"

section \<open>Columns and datatypes\<close>

text \<open>An enumeration is stored by a text of its own for each of its values.\<close>

locale enum_column =
  fixes text_of :: "'e \<Rightarrow> string"
    and "values" :: "'e list"
    and name :: string
  assumes all: "set values = UNIV"
    and own_text: "distinct (map text_of values)"
begin

definition of_text :: "string \<Rightarrow> 'e option" where
  "of_text s = find (\<lambda>e. text_of e = s) values"

lemma text_of_inj: "text_of e = text_of e' \<longleftrightarrow> e = e'"
  using own_text all by (metis UNIV_I distinct_map inj_onD)

lemma of_text_of [simp]: "of_text (text_of e) = Some e"
proof (cases "of_text (text_of e)")
  case None
  then show ?thesis using all by (auto simp: of_text_def find_None_iff)
next
  case (Some e')
  then have "text_of e' = text_of e" by (auto simp: of_text_def find_Some_iff)
  then show ?thesis using Some by (simp add: text_of_inj)
qed

text \<open>A column written from a value is read back as that value, and NULL as NULL.\<close>

lemma scan_stored:
  "map_sum id of_text (scan_enum name (SqlString (text_of e))) = Inr (Some e)"
  "map_sum id of_text (scan_enum name (SqlBytes (text_of e))) = Inr (Some e)"
  by (simp_all add: scan_enum_def)

lemma scan_null_stored:
  "scan_null name (null_value ns) old
     = (None, if ne_valid ns then ns else \<lparr>ne_text = [], ne_valid = False\<rparr>)"
  by (cases ns) (simp add: scan_null_def null_value_def scan_enum_def)

end

interpretation invoice_state_column: enum_column invoice_state_str
    "[DRAFT, OPEN, PAID, VOID, UNCOLLECTIBLE]" "''InvoiceStateEnum''"
proof
  show "set [DRAFT, OPEN, PAID, VOID, UNCOLLECTIBLE] = UNIV"
    using invoice_state.exhaust by auto
qed simp

interpretation payment_status_column: enum_column payment_status_str
    "[PROCESSING, SUCCEEDED, FAILED, UNKNOWN]" "''PaymentStatusEnum''"
proof
  show "set [PROCESSING, SUCCEEDED, FAILED, UNKNOWN] = UNIV"
    using payment_status.exhaust by auto
qed simp

interpretation event_type_column: enum_column event_type_str
    "[INVOICE_CREATED, INVOICE_PAID, INVOICE_PAYMENT_FAILED]" "''WebhookEventTypeEnum''"
proof
  show "set [INVOICE_CREATED, INVOICE_PAID, INVOICE_PAYMENT_FAILED] = UNIV"
    using event_type.exhaust by auto
qed simp

interpretation idempotency_status_column: enum_column idempotency_status_str
    "[IdemPROCESSING, IdemCOMPLETED]" "''IdempotencyStatusEnum''"
proof
  show "set [IdemPROCESSING, IdemCOMPLETED] = UNIV"
    using idempotency_status.exhaust by auto
qed simp

interpretation delivery_status_column: enum_column delivery_status_str
    "[DlvPENDING, DlvPROCESSING, DlvDELIVERED, DlvEXHAUSTED]" "''WebhookDeliveryStatusEnum''"
proof
  show "set [DlvPENDING, DlvPROCESSING, DlvDELIVERED, DlvEXHAUSTED] = UNIV"
    using delivery_status.exhaust by auto
qed simp

end
