(* ===== verification/Public_Id.thy ===== *)
theory Public_Id
  imports Go_Text
begin

text \<open>
  Package \<open>internal/publicid\<close>: the keyed, reversible public identifiers \<open><prefix>_<base62>\<close>.
  A 64-bit id goes through a four-round Feistel network whose round keys are derived from the
  codec's secret and the resource prefix, and the result is written in base 62. HMAC-SHA256 is
  a parameter (\<open>hmac secret message\<close>, the 32 digest bytes).
\<close>

section \<open>Resource prefixes\<close>

definition prefix_customer :: string where "prefix_customer = ''cus''"
definition prefix_invoice :: string where "prefix_invoice = ''inv''"
definition prefix_invoice_item :: string where "prefix_invoice_item = ''itm''"
definition prefix_payment_attempt :: string where "prefix_payment_attempt = ''att''"
definition prefix_webhook_endpoint :: string where "prefix_webhook_endpoint = ''whe''"

lemmas prefix_defs = prefix_customer_def prefix_invoice_def prefix_invoice_item_def
  prefix_payment_attempt_def prefix_webhook_endpoint_def

section \<open>The codec and its round keys\<close>

datatype publicid_error = ErrInvalidIDFormat | ErrInvalidPrefix | ErrDecodingFailed

record codec =
  secret :: string

definition default_secret :: string where
  "default_secret = ''default_takehome_secret_key_change_in_production''"

definition new_codec :: "string \<Rightarrow> codec" where
  "new_codec s = \<lparr>secret = (if s = '''' then default_secret else s)\<rparr>"

text \<open>\<open>binary.BigEndian.Uint32\<close> of the four bytes at an offset.\<close>

definition be_uint32 :: "string \<Rightarrow> uint32" where
  "be_uint32 bs = foldl (\<lambda>a c. 256 * a + of_nat (of_char c)) 0 (take 4 bs)"

definition derive_round_keys ::
  "(string \<Rightarrow> string \<Rightarrow> string) \<Rightarrow> codec \<Rightarrow> string \<Rightarrow> uint32 list" where
  "derive_round_keys hmac c context =
     (let sum = hmac (secret c) context in
      [be_uint32 sum, be_uint32 (drop 4 sum), be_uint32 (drop 8 sum), be_uint32 (drop 12 sum)])"

section \<open>The Feistel network\<close>

definition feistel_round :: "uint32 \<Rightarrow> uint32 \<Rightarrow> uint32" where
  "feistel_round r k = (r XOR k) * 0x9e3779b9"

definition high32 :: "uint64 \<Rightarrow> uint32" where
  "high32 b = ucast (drop_bit 32 b)"

definition low32 :: "uint64 \<Rightarrow> uint32" where
  "low32 b = ucast b"

definition join32 :: "uint32 \<Rightarrow> uint32 \<Rightarrow> uint64" where
  "join32 l r = push_bit 32 (ucast l) OR ucast r"

text \<open>The loops \<open>i = 0..3\<close> and \<open>i = 3..0\<close>: the keys in order, and in reverse order.\<close>

fun encrypt_rounds :: "uint32 list \<Rightarrow> uint32 \<times> uint32 \<Rightarrow> uint32 \<times> uint32" where
  "encrypt_rounds [] lr = lr"
| "encrypt_rounds (k # ks) (l, r) = encrypt_rounds ks (r, l XOR feistel_round r k)"

fun decrypt_rounds :: "uint32 list \<Rightarrow> uint32 \<times> uint32 \<Rightarrow> uint32 \<times> uint32" where
  "decrypt_rounds [] lr = lr"
| "decrypt_rounds (k # ks) (l, r) = decrypt_rounds ks (r XOR feistel_round l k, l)"

definition feistel_encrypt :: "uint64 \<Rightarrow> uint32 list \<Rightarrow> uint64" where
  "feistel_encrypt block keys =
     (let (l, r) = encrypt_rounds keys (high32 block, low32 block) in join32 l r)"

definition feistel_decrypt :: "uint64 \<Rightarrow> uint32 list \<Rightarrow> uint64" where
  "feistel_decrypt block keys =
     (let (l, r) = decrypt_rounds (rev keys) (high32 block, low32 block) in join32 l r)"

section \<open>Base 62\<close>

definition base62_chars :: string where
  "base62_chars = ''0123456789ABCDEFGHIJKLMNOPQRSTUVWXYZabcdefghijklmnopqrstuvwxyz''"

text \<open>The division loop on a \<open>big.Int\<close> writes the least significant digit first.\<close>

function digits62 :: "int \<Rightarrow> string" where
  "digits62 n =
     (if n > 0 then base62_chars ! nat (n mod 62) # digits62 (n div 62) else [])"
  by pat_completeness auto
termination
  by (relation "measure nat") auto

declare digits62.simps [simp del]

text \<open>The in-place reversal: swap \<open>i\<close> and \<open>j\<close>, then \<open>i + 1\<close> and \<open>j - 1\<close>, while \<open>i < j\<close>.\<close>

function swap_loop :: "nat \<Rightarrow> nat \<Rightarrow> string \<Rightarrow> string" where
  "swap_loop i j bs =
     (if i < j then swap_loop (i + 1) (j - 1) (bs[i := bs ! j, j := bs ! i]) else bs)"
  by pat_completeness auto
termination
  by (relation "measure (\<lambda>(i, j, bs). j - i)") auto

declare swap_loop.simps [simp del]

definition to_base62 :: "uint64 \<Rightarrow> string" where
  "to_base62 num =
     (if num = 0 then ''0''
      else let bs = digits62 (uint num) in swap_loop 0 (length bs - 1) bs)"

definition index_byte :: "string \<Rightarrow> char \<Rightarrow> nat option" where
  "index_byte s c = (if c \<in> set s then Some (length (takeWhile (\<lambda>x. x \<noteq> c) s)) else None)"

datatype base62_error = InvalidCharacter char | Exceeds64Bit

fun base62_loop :: "int \<Rightarrow> string \<Rightarrow> base62_error + int" where
  "base62_loop n [] = Inr n"
| "base62_loop n (c # s) =
     (case index_byte base62_chars c of
        None \<Rightarrow> Inl (InvalidCharacter c)
      | Some idx \<Rightarrow> base62_loop (n * 62 + int idx) s)"

definition from_base62 :: "string \<Rightarrow> base62_error + uint64" where
  "from_base62 s =
     (case base62_loop 0 s of
        Inl e \<Rightarrow> Inl e
      | Inr n \<Rightarrow> if 0 \<le> n \<and> n < 2 ^ 64 then Inr (of_int n) else Inl Exceeds64Bit)"

section \<open>Encode and Decode\<close>

definition encode ::
  "(string \<Rightarrow> string \<Rightarrow> string) \<Rightarrow> codec \<Rightarrow> string \<Rightarrow> int64 \<Rightarrow> publicid_error + string" where
  "encode hmac c pfx i =
     (if pfx = '''' then Inl ErrInvalidPrefix
      else Inr (pfx @ ''_'' @ to_base62 (feistel_encrypt i (derive_round_keys hmac c pfx))))"

definition decode ::
  "(string \<Rightarrow> string \<Rightarrow> string) \<Rightarrow> codec \<Rightarrow> string \<Rightarrow> string \<Rightarrow> publicid_error + int64" where
  "decode hmac c expected pid =
     (case split_n2 CHR ''_'' pid of
        [p, body] \<Rightarrow>
          if p = '''' \<or> body = '''' then Inl ErrInvalidIDFormat
          else if p \<noteq> expected then Inl ErrInvalidPrefix
          else (case from_base62 body of
                  Inl _ \<Rightarrow> Inl ErrDecodingFailed
                | Inr v \<Rightarrow> Inr (feistel_decrypt v (derive_round_keys hmac c expected)))
      | _ \<Rightarrow> Inl ErrInvalidIDFormat)"

section \<open>The Feistel network is a bijection\<close>

lemma high32_join32 [simp]: "high32 (join32 l r) = l"
  by (rule bit_word_eqI)
    (auto simp: high32_def join32_def bit_simps dest: bit_imp_le_length)

lemma low32_join32 [simp]: "low32 (join32 l r) = r"
  by (rule bit_word_eqI) (auto simp: low32_def join32_def bit_simps)

lemma join32_high_low [simp]: "join32 (high32 b) (low32 b) = b"
  by (rule bit_word_eqI) (auto simp: high32_def low32_def join32_def bit_simps)

lemma xor_cancel [simp]: "(a XOR b) XOR b = (a :: 'a :: ring_bit_operations)"
  by (simp add: xor.assoc)

lemma decrypt_rounds_append:
  "decrypt_rounds (ks @ ks') lr = decrypt_rounds ks' (decrypt_rounds ks lr)"
  by (induction ks lr rule: decrypt_rounds.induct) auto

lemma encrypt_rounds_append:
  "encrypt_rounds (ks @ ks') lr = encrypt_rounds ks' (encrypt_rounds ks lr)"
  by (induction ks lr rule: encrypt_rounds.induct) auto

lemma decrypt_encrypt_rounds: "decrypt_rounds (rev ks) (encrypt_rounds ks lr) = lr"
  by (induction ks lr rule: encrypt_rounds.induct) (auto simp: decrypt_rounds_append)

lemma encrypt_decrypt_rounds: "encrypt_rounds (rev ks) (decrypt_rounds ks lr) = lr"
  by (induction ks lr rule: decrypt_rounds.induct) (auto simp: encrypt_rounds_append)

lemma feistel_decrypt_encrypt [simp]: "feistel_decrypt (feistel_encrypt b ks) ks = b"
  using decrypt_encrypt_rounds [of ks "(high32 b, low32 b)"]
  by (auto simp: feistel_decrypt_def feistel_encrypt_def split: prod.split)

lemma feistel_encrypt_decrypt [simp]: "feistel_encrypt (feistel_decrypt b ks) ks = b"
  using encrypt_decrypt_rounds [of "rev ks" "(high32 b, low32 b)"]
  by (auto simp: feistel_decrypt_def feistel_encrypt_def split: prod.split)

section \<open>Base 62 is read back\<close>

lemma swap_loop_segment:
  "swap_loop (length xs) (length xs + length mid - 1) (xs @ mid @ ys) = xs @ rev mid @ ys"
proof (induction mid arbitrary: xs ys rule: length_induct)
  case (1 mid)
  show ?case
  proof (cases "length mid < 2")
    case True
    then have "rev mid = mid" by (cases mid) auto
    moreover from True have "\<not> length xs < length xs + length mid - 1" by linarith
    ultimately show ?thesis by (subst swap_loop.simps) simp
  next
    case False
    then obtain a m b where mid: "mid = a # m @ [b]"
      by (cases mid; cases "tl mid" rule: rev_cases) auto
    have upd: "(xs @ mid @ ys)[length xs := b, Suc (length xs + length m) := a]
               = (xs @ [b]) @ m @ (a # ys)"
      by (simp add: mid list_update_append)
    have IH: "swap_loop (length (xs @ [b])) (length (xs @ [b]) + length m - 1)
                ((xs @ [b]) @ m @ (a # ys)) = (xs @ [b]) @ rev m @ (a # ys)"
      by (rule 1 [rule_format]) (simp add: mid)
    show ?thesis
      by (subst swap_loop.simps) (use upd IH in \<open>simp add: mid nth_append\<close>)
  qed
qed

lemma swap_loop_eq_rev: "swap_loop 0 (length bs - 1) bs = rev bs"
  using swap_loop_segment [of "[]" bs "[]"] by simp

lemma to_base62_eq: "to_base62 v = (if v = 0 then ''0'' else rev (digits62 (uint v)))"
  by (simp add: to_base62_def swap_loop_eq_rev [simplified])

lemma base62_index: "n < 62 \<Longrightarrow> index_byte base62_chars (base62_chars ! n) = Some n"
proof -
  have "list_all (\<lambda>n. index_byte base62_chars (base62_chars ! n) = Some n) [0..<62]"
    by code_simp
  then show "n < 62 \<Longrightarrow> index_byte base62_chars (base62_chars ! n) = Some n"
    by (simp add: list_all_iff)
qed

lemma base62_loop_append:
  "base62_loop n (s @ t) = (case base62_loop n s of Inl e \<Rightarrow> Inl e | Inr m \<Rightarrow> base62_loop m t)"
  by (induction n s rule: base62_loop.induct) (auto split: option.split)

lemma base62_loop_digits: "0 \<le> n \<Longrightarrow> base62_loop 0 (rev (digits62 n)) = Inr n"
proof (induction n rule: digits62.induct)
  case (1 n)
  then show ?case
    by (cases "n = 0")
      (simp_all add: digits62.simps [of n] digits62.simps [of 0] base62_loop_append base62_index
        nat_less_iff)
qed

lemma from_to_base62 [simp]: "from_base62 (to_base62 v) = Inr v"
proof (cases "v = 0")
  case True
  have "base62_loop 0 ''0'' = Inr 0" by code_simp
  with True show ?thesis by (simp add: to_base62_eq from_base62_def)
next
  case False
  have "0 \<le> uint v" "uint v < 2 ^ 64" using unsigned_less [of v] by simp_all
  with False show ?thesis
    by (simp add: to_base62_eq from_base62_def base62_loop_digits)
qed

lemma to_base62_nonempty [simp]: "to_base62 v \<noteq> []"
  by (auto simp: to_base62_eq digits62.simps [of "uint v"] uint_0_iff not_less
      dest: antisym [OF _ unsigned_greater_eq])

section \<open>The interface the handlers use\<close>

text \<open>
  The handlers of the other packages see the codec through their interface \<open>PublicIDCodec\<close>:
  an encoder and a decoder per prefix, whose contract is that a decoder reads back what the
  encoder of the same prefix wrote, and refuses what another prefix's encoder wrote.
\<close>

locale public_id_codec =
  fixes enc :: "string \<Rightarrow> int64 \<Rightarrow> publicid_error + string"
    and dec :: "string \<Rightarrow> string \<Rightarrow> publicid_error + int64"
    and good_prefix :: "string \<Rightarrow> bool"
  assumes enc_total: "good_prefix p \<Longrightarrow> \<exists>s. enc p i = Inr s"
    and dec_enc: "good_prefix p \<Longrightarrow> enc p i = Inr s \<Longrightarrow> dec p s = Inr i"
    and dec_other: "good_prefix p \<Longrightarrow> good_prefix q \<Longrightarrow> p \<noteq> q \<Longrightarrow> enc p i = Inr s
                    \<Longrightarrow> dec q s = Inl ErrInvalidPrefix"
begin

lemma enc_inj: "good_prefix p \<Longrightarrow> enc p i = Inr s \<Longrightarrow> enc p j = Inr s \<Longrightarrow> i = j"
  by (metis dec_enc sum.inject(2))

lemma enc_disjoint:
  assumes "good_prefix p" "good_prefix q" "enc p i = Inr s" "enc q j = Inr s"
  shows "p = q \<and> i = j"
  using assms dec_enc [OF assms(2,4)] dec_other [OF assms(1,2) _ assms(3)] enc_inj
  by (metis sum.distinct(1))

end

definition plain_prefix :: "string \<Rightarrow> bool" where
  "plain_prefix p \<longleftrightarrow> p \<noteq> [] \<and> CHR ''_'' \<notin> set p"

lemma plain_prefixes [simp]:
  "plain_prefix prefix_customer" "plain_prefix prefix_invoice" "plain_prefix prefix_invoice_item"
  "plain_prefix prefix_payment_attempt" "plain_prefix prefix_webhook_endpoint"
  by (simp_all add: plain_prefix_def prefix_defs)

lemma split_encoded: "CHR ''_'' \<notin> set p \<Longrightarrow> split_n2 CHR ''_'' (p @ CHR ''_'' # b) = [p, b]"
  by (rule split_n2_two)

lemmas codec_simps = encode_def decode_def plain_prefix_def split_encoded

interpretation pid: public_id_codec "encode hmac c" "decode hmac c" plain_prefix for hmac c
  by unfold_locales (auto simp: codec_simps simp del: split_n2.simps split: if_splits)

end
