(* ===== verification/Public_Id_Laws.thy ===== *)
theory Public_Id_Laws
  imports Public_Id
begin

text \<open>
  What public ids promise: an id is read back, prefixes keep resources apart, and exactly which
  strings are read as which id.
\<close>

section \<open>Reading base 62\<close>

lemma index_byteD:
  assumes "index_byte base62_chars c = Some k"
  shows "k < 62 \<and> base62_chars ! k = c"
proof -
  have c: "c \<in> set base62_chars" and k: "k = length (takeWhile (\<lambda>x. x \<noteq> c) base62_chars)"
    using assms by (auto simp: index_byte_def split: if_splits)
  from split_list_first [OF c] obtain ys zs where chars: "base62_chars = ys @ c # zs" "c \<notin> set ys"
    by blast
  have "takeWhile (\<lambda>x. x \<noteq> c) base62_chars = ys"
    using chars(2)
    unfolding chars(1) by (subst takeWhile_append2) auto
  with k have "k = length ys" by simp
  moreover have "length base62_chars = 62" by code_simp
  ultimately show ?thesis using arg_cong [OF chars(1), of length] by (simp add: chars(1))
qed

lemma digits62_zero [simp]: "digits62 0 = []"
  by (simp add: digits62.simps [of 0])

lemma digits62_step:
  assumes "0 \<le> n" "k < 62" "0 < n \<or> 0 < k"
  shows "digits62 (n * 62 + int k) = base62_chars ! k # digits62 n"
proof -
  have "(n * 62 + int k) div 62 = n" "(n * 62 + int k) mod 62 = int k" using assms by simp_all
  moreover have "0 < n * 62 + int k" using assms by linarith
  ultimately show ?thesis by (subst digits62.simps) simp
qed

text \<open>A string with a value is a block of zeros before the digits of the value.\<close>

lemma base62_loop_value:
  "base62_loop 0 s = Inr n \<Longrightarrow> 0 \<le> n \<and> (\<exists>z. s = replicate z CHR ''0'' @ rev (digits62 n))"
proof (induction s arbitrary: n rule: rev_induct)
  case (snoc c s)
  then obtain m k where m: "base62_loop 0 s = Inr m" and k: "index_byte base62_chars c = Some k"
    and n: "n = m * 62 + int k"
    by (auto simp: base62_loop_append split: sum.splits option.splits)
  from snoc.IH [OF m] obtain z where z: "0 \<le> m" "s = replicate z CHR ''0'' @ rev (digits62 m)" by blast
  note c = index_byteD [OF k]
  show ?case
  proof (cases "m = 0 \<and> k = 0")
    case True
    then have "s @ [c] = replicate (Suc z) CHR ''0'' @ rev (digits62 n)"
      using c z(2) by (simp add: n base62_chars_def replicate_append_same)
    with True n show ?thesis by (intro conjI exI [of _ "Suc z"]) simp_all
  next
    case False
    then have "digits62 n = c # digits62 m"
      using digits62_step [of m k] z(1) c by (auto simp: n)
    with z n show ?thesis by auto
  qed
qed simp

lemma index_zero: "index_byte base62_chars CHR ''0'' = Some 0"
  by code_simp

lemma base62_loop_zeros: "base62_loop 0 (replicate z CHR ''0'' @ s) = base62_loop 0 s"
  by (induction z) (simp_all add: index_zero)

lemma from_base62_iff:
  assumes "s \<noteq> []"
  shows "from_base62 s = Inr v \<longleftrightarrow> (\<exists>z. s = replicate z CHR ''0'' @ to_base62 v)"
proof
  assume "from_base62 s = Inr v"
  then obtain n where n: "base62_loop 0 s = Inr n" "0 \<le> n" "n < 2 ^ 64" "v = of_int n"
    by (auto simp: from_base62_def split: sum.splits if_splits)
  then have v: "uint v = n" by (simp add: uint_word_of_int_eq take_bit_int_eq_self)
  from base62_loop_value [OF n(1)] obtain z where z: "s = replicate z CHR ''0'' @ rev (digits62 n)"
    by blast
  show "\<exists>z. s = replicate z CHR ''0'' @ to_base62 v"
  proof (cases "n = 0")
    case True
    with z assms obtain y where "z = Suc y" by (cases z) auto
    with z True have "s = replicate y CHR ''0'' @ ''0''" by (simp add: replicate_append_same)
    moreover have "v = 0" using v True by (simp add: uint_0_iff)
    ultimately show ?thesis by (auto simp: to_base62_eq)
  next
    case False
    then have "v \<noteq> 0" using v by auto
    then have "to_base62 v = rev (digits62 n)" by (simp add: to_base62_eq v)
    with z show ?thesis by auto
  qed
next
  assume "\<exists>z. s = replicate z CHR ''0'' @ to_base62 v"
  then obtain z where "s = replicate z CHR ''0'' @ to_base62 v" by blast
  then have "from_base62 s = from_base62 (to_base62 v)"
    by (simp add: from_base62_def base62_loop_zeros)
  then show "from_base62 s = Inr v" by simp
qed

section \<open>The properties\<close>

text \<open>
  C24. Public ids round-trip: under every prefix of the service each 64-bit id has a public id,
  which starts with the prefix and is read back as the same id, and different ids have different
  public ids. Under another prefix it is refused, so an id of one kind of resource never names
  another kind.
\<close>

theorem public_id_roundtrip:
  assumes "plain_prefix p" "plain_prefix q"
  shows "(\<exists>s. encode hmac c p i = Inr s \<and> take (length p + 1) s = p @ ''_''
       \<and> decode hmac c p s = Inr i \<and> (q \<noteq> p \<longrightarrow> decode hmac c q s = Inl ErrInvalidPrefix))
    \<and> (encode hmac c p i = encode hmac c q j \<longleftrightarrow> p = q \<and> i = j)"
proof (intro conjI)
  obtain s where s: "encode hmac c p i = Inr s" using pid.enc_total [OF assms(1)] by blast
  moreover from this have "take (length p + 1) s = p @ ''_''"
    by (auto simp: encode_def split: if_splits)
  ultimately show "\<exists>s. encode hmac c p i = Inr s \<and> take (length p + 1) s = p @ ''_''
       \<and> decode hmac c p s = Inr i \<and> (q \<noteq> p \<longrightarrow> decode hmac c q s = Inl ErrInvalidPrefix)"
    using pid.dec_enc [OF assms(1) s] pid.dec_other [OF assms(1,2) _ s] by blast
  show "encode hmac c p i = encode hmac c q j \<longleftrightarrow> p = q \<and> i = j"
    using pid.enc_disjoint [OF assms s, of j] s by metis
qed

theorem public_id_roundtrip_witness:
  "decode (\<lambda>k m. m) (new_codec []) prefix_invoice ''cus_0'' = Inl ErrInvalidPrefix
   \<and> encode (\<lambda>k m. m) (new_codec []) prefix_customer 7 \<noteq> encode (\<lambda>k m. m) (new_codec []) prefix_invoice 7"
proof
  show "decode (\<lambda>k m. m) (new_codec []) prefix_invoice ''cus_0'' = Inl ErrInvalidPrefix" by code_simp
  from public_id_roundtrip [OF plain_prefixes(1,2), of "\<lambda>k m. m" "new_codec []" 7 7]
  show "encode (\<lambda>k m. m) (new_codec []) prefix_customer 7 \<noteq> encode (\<lambda>k m. m) (new_codec []) prefix_invoice 7"
    by (simp add: prefix_defs)
qed

text \<open>
  C23. Exactly these strings are read as the id \<open>i\<close>: its public id, with any number of zeros in
  front of the base-62 digits. So decoding accepts nothing that encoding does not account for,
  never wraps around, and every 64-bit number is the code of some id; but a public id is not the
  only name of its resource.
\<close>

theorem public_id_decode:
  assumes "plain_prefix p"
  shows "decode hmac c p s = Inr i \<longleftrightarrow>
    (\<exists>z. s = p @ ''_'' @ replicate z CHR ''0''
            @ to_base62 (feistel_encrypt i (derive_round_keys hmac c p)))"
proof
  let ?keys = "derive_round_keys hmac c p"
  assume dec: "decode hmac c p s = Inr i"
  then obtain p' body where split: "split_n2 CHR ''_'' s = [p', body]"
    by (auto simp: decode_def simp del: split_n2.simps split: list.splits)
  with dec obtain v where v: "body \<noteq> []" "p' = p" "from_base62 body = Inr v" "i = feistel_decrypt v ?keys"
    by (auto simp: decode_def simp del: split_n2.simps split: if_splits sum.splits)
  have "feistel_encrypt i ?keys = v" unfolding v(4) by (rule feistel_encrypt_decrypt)
  moreover obtain z where "body = replicate z CHR ''0'' @ to_base62 v"
    using v(3) from_base62_iff [OF v(1)] by blast
  moreover have "s = p @ CHR ''_'' # body" using split_n2_pairD [OF split] v(2) by simp
  ultimately show "\<exists>z. s = p @ ''_'' @ replicate z CHR ''0'' @ to_base62 (feistel_encrypt i ?keys)"
    by simp
next
  let ?keys = "derive_round_keys hmac c p"
  assume "\<exists>z. s = p @ ''_'' @ replicate z CHR ''0'' @ to_base62 (feistel_encrypt i ?keys)"
  then obtain body where body: "s = p @ CHR ''_'' # body" "body \<noteq> []"
    "\<exists>z. body = replicate z CHR ''0'' @ to_base62 (feistel_encrypt i ?keys)" by auto
  from body(3) have "from_base62 body = Inr (feistel_encrypt i ?keys)"
    by (simp add: from_base62_iff [OF body(2)])
  with body(1,2) assms show "decode hmac c p s = Inr i"
    by (simp add: decode_def split_encoded plain_prefix_def del: split_n2.simps)
qed

theorem public_id_decode_witness:
  "\<exists>i. decode (\<lambda>k m. m) (new_codec []) prefix_customer ''cus_1'' = Inr i
     \<and> decode (\<lambda>k m. m) (new_codec []) prefix_customer ''cus_001'' = Inr i"
proof -
  let ?i = "feistel_decrypt 1 (derive_round_keys (\<lambda>k m. m) (new_codec []) prefix_customer)"
  have one: "to_base62 1 = ''1''" by code_simp
  have "\<exists>z. ''cus_1'' = prefix_customer @ ''_'' @ replicate z CHR ''0'' @ to_base62 1"
    "\<exists>z. ''cus_001'' = prefix_customer @ ''_'' @ replicate z CHR ''0'' @ to_base62 1"
    by (rule exI [of _ 0], simp add: one prefix_customer_def,
        rule exI [of _ 2], simp add: one prefix_customer_def numeral_2_eq_2)
  with public_id_decode [OF plain_prefixes(1), of "\<lambda>k m. m" "new_codec []" _ ?i] show ?thesis by auto
qed

end
