(* ===== verification/Aes_Codec.thy ===== *)
theory Aes_Codec
  imports Go_Text
begin

text \<open>
  The second codec, \<open>Codec\<close> of \<open>internal/idgen\<close>: one block of a block cipher over the padded
  prefix and the id, written in hexadecimal. The cipher (\<open>crypto/aes\<close>) is a parameter: a function
  from the key to the two directions on 16-byte blocks.
\<close>

section \<open>Blocks\<close>

record block_cipher =
  blk_encrypt :: "string \<Rightarrow> string"
  blk_decrypt :: "string \<Rightarrow> string"

text \<open>\<open>binary.BigEndian.PutUint64\<close> and \<open>Uint64\<close>.\<close>

fun be_bytes :: "nat \<Rightarrow> nat \<Rightarrow> string" where
  "be_bytes 0 n = []"
| "be_bytes (Suc k) n = be_bytes k (n div 256) @ [char_of (n mod 256)]"

definition put_uint64 :: "uint64 \<Rightarrow> string" where
  "put_uint64 v = be_bytes 8 (unat v)"

definition get_uint64 :: "string \<Rightarrow> uint64" where
  "get_uint64 bs = of_nat (foldl (\<lambda>a c. 256 * a + of_char c) 0 (take 8 bs))"

lemma length_be_bytes [simp]: "length (be_bytes k n) = k"
  by (induction k arbitrary: n) simp_all

lemma foldl_be_bytes: "foldl (\<lambda>a c. 256 * a + of_char c) 0 (be_bytes k n) = n mod (256 :: nat) ^ k"
proof (induction k arbitrary: n)
  case (Suc k)
  have "n mod (256 * 256 ^ k) = 256 * (n div 256 mod 256 ^ k) + n mod 256"
    by (rule mod_mult2_eq)
  with Suc show ?case by simp
qed simp

lemma length_put_uint64 [simp]: "length (put_uint64 v) = 8"
  by (simp add: put_uint64_def)

lemma get_put_uint64 [simp]: "get_uint64 (put_uint64 v) = v"
proof -
  have "unat v < 2 ^ 64" by (rule order_less_le_trans [OF unsigned_less]) simp
  then have "unat v mod 256 ^ 8 = unat v" by simp
  then show ?thesis by (simp add: get_uint64_def put_uint64_def foldl_be_bytes)
qed

section \<open>The codec\<close>

record aes_codec =
  block :: block_cipher

datatype codec_error = KeyLength nat | CipherError | TypeMismatch | InvalidID

definition new_aes_codec ::
  "(string \<Rightarrow> block_cipher option) \<Rightarrow> string \<Rightarrow> codec_error + aes_codec" where
  "new_aes_codec aes key =
     (if length key \<noteq> 16 \<and> length key \<noteq> 24 \<and> length key \<noteq> 32 then Inl (KeyLength (length key))
      else case aes key of
        None \<Rightarrow> Inl CipherError
      | Some blk \<Rightarrow> Inr \<lparr>block = blk\<rparr>)"

definition type_bytes :: "string \<Rightarrow> string" where
  "type_bytes pfx = take 8 (pfx @ ''________'')"

definition aes_encode :: "aes_codec \<Rightarrow> string \<Rightarrow> int64 \<Rightarrow> string" where
  "aes_encode c pfx i =
     (let src = type_bytes pfx @ put_uint64 i;
          dst = blk_encrypt (block c) src
      in pfx @ ''_'' @ hex_encode dst)"

definition aes_decode :: "aes_codec \<Rightarrow> string \<Rightarrow> string \<Rightarrow> codec_error + int64" where
  "aes_decode c expected pid =
     (let parts = split_on CHR ''_'' pid in
      if length parts \<noteq> 2 \<or> parts ! 0 \<noteq> expected then Inl TypeMismatch
      else (case hex_decode (parts ! 1) of
              None \<Rightarrow> Inl InvalidID
            | Some dst \<Rightarrow>
                if length dst \<noteq> 16 then Inl InvalidID
                else let src = blk_decrypt (block c) dst in
                     if take 8 src \<noteq> type_bytes expected then Inl TypeMismatch
                     else Inr (get_uint64 (take 8 (drop 8 src)))))"

lemma length_type_bytes [simp]: "length (type_bytes pfx) = 8"
  by (simp add: type_bytes_def)

section \<open>The properties\<close>

text \<open>What the codec relies on: the cipher is invertible on blocks and keeps their length.\<close>

definition block_law :: "block_cipher \<Rightarrow> bool" where
  "block_law blk \<longleftrightarrow> (\<forall>b. length b = 16 \<longrightarrow>
     length (blk_encrypt blk b) = 16 \<and> blk_decrypt blk (blk_encrypt blk b) = b)"

text \<open>
  C39. The AES codec round-trips: the id comes back, a public id with another prefix is refused,
  and so is one whose visible prefix has been exchanged, as the prefix is also inside the
  encrypted block.
\<close>

theorem aes_codec_roundtrip:
  assumes "new_aes_codec aes key = Inr c" "\<forall>blk. aes key = Some blk \<longrightarrow> block_law blk"
    and "CHR ''_'' \<notin> set p" "CHR ''_'' \<notin> set q" "type_bytes p \<noteq> type_bytes q"
  shows "aes_decode c p (aes_encode c p i) = Inr i
    \<and> aes_decode c q (aes_encode c p i) = Inl TypeMismatch
    \<and> aes_decode c q (q @ ''_'' @ drop (length p + 1) (aes_encode c p i)) = Inl TypeMismatch"
proof -
  have c: "block_law (block c)"
    using assms(1,2) by (auto simp: new_aes_codec_def split: if_splits option.splits)
  let ?src = "type_bytes p @ put_uint64 i"
  let ?dst = "blk_encrypt (block c) ?src"
  have blk: "length ?dst = 16" "blk_decrypt (block c) ?dst = ?src"
    using c by (simp_all add: block_law_def)
  have enc: "aes_encode c p i = p @ CHR ''_'' # hex_encode ?dst"
    by (simp add: aes_encode_def Let_def)
  have "q \<noteq> p" using assms(5) by blast
  with assms(3-5) blk show ?thesis
    by (simp add: enc aes_decode_def Let_def split_on_two hex_encode_no_underscore)
qed

definition flip_cipher :: "string \<Rightarrow> block_cipher option" where
  "flip_cipher key = Some \<lparr>blk_encrypt = rev, blk_decrypt = rev\<rparr>"

definition flip_codec :: aes_codec where
  "flip_codec = \<lparr>block = \<lparr>blk_encrypt = rev, blk_decrypt = rev\<rparr>\<rparr>"

theorem aes_codec_roundtrip_witness:
  "aes_decode flip_codec ''cus'' (aes_encode flip_codec ''cus'' 77) = Inr 77
   \<and> aes_decode flip_codec ''inv'' (aes_encode flip_codec ''cus'' 77) = Inl TypeMismatch"
proof -
  have "new_aes_codec flip_cipher (replicate 16 CHR ''k'') = Inr flip_codec"
    by (simp add: new_aes_codec_def flip_cipher_def flip_codec_def)
  moreover have "block_law blk" if "flip_cipher (replicate 16 CHR ''k'') = Some blk" for blk
    using that by (auto simp: flip_cipher_def block_law_def)
  ultimately show ?thesis
    using aes_codec_roundtrip [of flip_cipher "replicate 16 CHR ''k''" flip_codec "''cus''" "''inv''" 77]
    by (simp add: type_bytes_def)
qed

end
