(* ===== verification/Snowflake.thy ===== *)
theory Snowflake
  imports Prelude
begin

text \<open>
  Package \<open>internal/idgen\<close>, the Snowflake generator: 41 bits of milliseconds since a custom
  epoch, 10 bits of node and 12 bits of sequence. The mutex makes a call atomic, so a call is a
  function of the generator's state. The clock is an input: the list of values the successive
  calls of \<open>time.Now().UnixMilli()\<close> return. \<open>None\<close> means that the call has not returned after
  the last of these readings (the wait for the next millisecond is still running).
\<close>

section \<open>State and operations\<close>

record snowflake =
  epoch :: int64
  nodeID :: int64
  sequence :: int64
  lastTime :: int64

definition default_epoch :: int64 where
  "default_epoch = 1767225600000"

definition new_snowflake :: "int64 \<Rightarrow> snowflake" where
  "new_snowflake node =
     \<lparr>epoch = default_epoch, nodeID = node AND 0x3FF, sequence = 0, lastTime = 0\<rparr>"

text \<open>\<open>for now <= s.lastTime { sleep; now = time.Now().UnixMilli() }\<close>\<close>

fun wait_past :: "int64 \<Rightarrow> int64 \<Rightarrow> int64 list \<Rightarrow> (int64 \<times> int64 list) option" where
  "wait_past prev now [] = (if now \<le>s prev then None else Some (now, []))"
| "wait_past prev now (t # rs) =
     (if now \<le>s prev then wait_past prev t rs else Some (now, t # rs))"

definition compose_id :: "snowflake \<Rightarrow> int64" where
  "compose_id g =
     push_bit 22 (lastTime g - epoch g) OR push_bit 12 (nodeID g) OR sequence g"

definition next_id ::
  "snowflake \<Rightarrow> int64 list \<Rightarrow> (int64 \<times> snowflake \<times> int64 list) option" where
  "next_id g readings =
     (case readings of
        [] \<Rightarrow> None
      | t # rs \<Rightarrow>
          (let now = (if t <s lastTime g then lastTime g else t) in
           if now = lastTime g then
             (let sq = (sequence g + 1) AND 0xFFF in
              if sq = 0 then
                (case wait_past (lastTime g) now rs of
                   None \<Rightarrow> None
                 | Some (now', rs') \<Rightarrow>
                     (let g' = g\<lparr>sequence := sq, lastTime := now'\<rparr>
                      in Some (compose_id g', g', rs')))
              else
                (let g' = g\<lparr>sequence := sq, lastTime := now\<rparr> in Some (compose_id g', g', rs)))
           else
             (let g' = g\<lparr>sequence := 0, lastTime := now\<rparr> in Some (compose_id g', g', rs))))"

text \<open>A sequence of calls; each returns before the next one starts.\<close>

fun run_ids :: "nat \<Rightarrow> snowflake \<Rightarrow> int64 list \<Rightarrow> (int64 list \<times> snowflake \<times> int64 list) option" where
  "run_ids 0 g rs = Some ([], g, rs)"
| "run_ids (Suc n) g rs =
     (case next_id g rs of
        None \<Rightarrow> None
      | Some (i, g', rs') \<Rightarrow>
          (case run_ids n g' rs' of
             None \<Rightarrow> None
           | Some (ids, g'', rs'') \<Rightarrow> Some (i # ids, g'', rs'')))"

section \<open>Well-formed generators\<close>

text \<open>
  The fields stay within their bits: sequence below 4096, node below 1024, and the time within
  \<open>2 ^ 41\<close> milliseconds of the epoch on either side (a fresh generator has \<open>lastTime = 0\<close>, and
  the default epoch is less than \<open>2 ^ 41\<close>).
\<close>

definition in_window :: "snowflake \<Rightarrow> int64 \<Rightarrow> bool" where
  "in_window g t \<longleftrightarrow> \<bar>sint t - sint (epoch g)\<bar> < 2 ^ 41"

definition gen_ok :: "snowflake \<Rightarrow> bool" where
  "gen_ok g \<longleftrightarrow> uint (sequence g) < 4096 \<and> uint (nodeID g) < 1024 \<and> in_window g (lastTime g)"

definition stamp :: "snowflake \<Rightarrow> int" where
  "stamp g = (sint (lastTime g) - sint (epoch g)) * 2 ^ 22 + uint (nodeID g) * 2 ^ 12
             + uint (sequence g)"

lemma and_mask_bound: "uint (x AND 0xFFF :: int64) < 4096" "uint (x AND 0x3FF :: int64) < 1024"
proof -
  have "x AND 0xFFF \<le> 0xFFF" "x AND 0x3FF \<le> 0x3FF" by (simp_all add: word_and_le1)
  then show "uint (x AND 0xFFF) < 4096" "uint (x AND 0x3FF) < 1024"
    by (simp_all add: word_le_def)
qed

lemma uint_bit_bound:
  assumes "uint (x :: int64) < 2 ^ k" "bit x n"
  shows "n < k"
proof -
  have "take_bit k (uint x) = uint x"
    using assms(1) by (simp add: take_bit_int_eq_self)
  moreover have "bit (uint x) n"
    using assms(2) bit_imp_le_length [OF assms(2)] by (simp add: bit_uint_iff)
  ultimately show ?thesis by (metis bit_take_bit_iff)
qed

lemma compose_id_sum:
  assumes "uint (sequence g) < 2 ^ 12" "uint (nodeID g) < 2 ^ 10"
  shows "compose_id g = push_bit 22 (lastTime g - epoch g) + (push_bit 12 (nodeID g) + sequence g)"
proof -
  have 1: "push_bit 12 (nodeID g) OR sequence g = push_bit 12 (nodeID g) + sequence g"
    by (rule disjunctive_add_eq_or [symmetric], rule bit_word_eqI)
      (auto simp: bit_simps dest!: uint_bit_bound [OF assms(1)])
  have 2: "push_bit 22 (lastTime g - epoch g) OR (push_bit 12 (nodeID g) OR sequence g)
         = push_bit 22 (lastTime g - epoch g) + (push_bit 12 (nodeID g) OR sequence g)"
    by (rule disjunctive_add_eq_or [symmetric], rule bit_word_eqI)
      (auto simp: bit_simps dest!: uint_bit_bound [OF assms(1)] uint_bit_bound [OF assms(2)])
  show ?thesis using 1 2 by (simp add: compose_id_def or.assoc)
qed

lemma stamp_range:
  "- (2 ^ 41) < (d :: int) \<Longrightarrow> d < 2 ^ 41 \<Longrightarrow> 0 \<le> n \<Longrightarrow> n < 2 ^ 10 \<Longrightarrow> 0 \<le> s \<Longrightarrow> s < 2 ^ 12
   \<Longrightarrow> - (2 ^ 63) \<le> d * 2 ^ 22 + n * 2 ^ 12 + s \<and> d * 2 ^ 22 + n * 2 ^ 12 + s < 2 ^ 63"
  by simp

lemma sint_compose_id:
  assumes "gen_ok g"
  shows "sint (compose_id g) = stamp g"
proof -
  have w: "uint (sequence g) < 2 ^ 12" "uint (nodeID g) < 2 ^ 10"
    using assms by (simp_all add: gen_ok_def)
  have "compose_id g = word_of_int (stamp g)"
    by (simp add: compose_id_sum [OF w] stamp_def push_bit_eq_mult algebra_simps)
  moreover have "- (2 ^ 41) < sint (lastTime g) - sint (epoch g)"
    "sint (lastTime g) - sint (epoch g) < 2 ^ 41"
    using assms unfolding gen_ok_def in_window_def by linarith+
  then have "- (2 ^ 63) \<le> stamp g" "stamp g < 2 ^ 63"
    using w stamp_range [of "sint (lastTime g) - sint (epoch g)" "uint (nodeID g)"
        "uint (sequence g)"]
    by (simp_all add: stamp_def)
  ultimately show ?thesis by (simp add: sint64_of_int)
qed

lemma gen_ok_new: "gen_ok (new_snowflake node)"
  by (simp add: gen_ok_def new_snowflake_def in_window_def default_epoch_def and_mask_bound)

section \<open>One call\<close>

lemma wait_past_Some:
  "wait_past prev now rs = Some (t, rs') \<Longrightarrow>
   prev <s t \<and> (t = now \<or> t \<in> set rs) \<and> set rs' \<subseteq> set rs"
  by (induction prev now rs rule: wait_past.induct)
    (auto simp: word_sle_eq word_sless_alt split: if_splits)

lemma wait_past_None:
  "wait_past prev now rs = None \<longleftrightarrow> now \<le>s prev \<and> (\<forall>t \<in> set rs. t \<le>s prev)"
  by (induction prev now rs rule: wait_past.induct) auto

lemma sequence_step:
  assumes "uint (s :: int64) < 4096" "(s + 1) AND 0xFFF \<noteq> 0"
  shows "uint ((s + 1) AND 0xFFF) = uint s + 1"
proof -
  have m: "uint ((s + 1) AND 0xFFF) = (uint s + 1) mod 4096"
  proof -
    have "(s + 1) AND 0xFFF = take_bit 12 (s + 1)"
      by (simp add: take_bit_eq_mask mask_numeral)
    then have "uint ((s + 1) AND 0xFFF) = take_bit 12 (uint (s + 1))"
      by (simp add: unsigned_take_bit_eq)
    moreover have "uint (s + 1) = uint s + 1"
      using assms(1) by (simp add: uint_word_ariths)
    ultimately show ?thesis by (simp add: take_bit_eq_mod)
  qed
  have "uint ((s + 1) AND 0xFFF) \<noteq> 0"
    using assms(2) by (simp add: uint_0_iff)
  with m assms(1) uint_nonnegative [of s] show ?thesis
    by (cases "uint s = 4095") auto
qed

lemma sless_total: "\<not> t <s u \<Longrightarrow> t \<noteq> u \<Longrightarrow> u <s (t :: int64)"
  by (simp add: word_sless_alt sint64_eq_iff)

lemma next_id_SomeD:
  assumes "next_id g rs = Some (i, g', rs')"
  shows "i = compose_id g' \<and> epoch g' = epoch g \<and> nodeID g' = nodeID g \<and> set rs' \<subseteq> set rs
     \<and> ((lastTime g <s lastTime g' \<and> sequence g' = 0 \<and> lastTime g' \<in> set rs)
        \<or> (lastTime g' = lastTime g \<and> sequence g' = (sequence g + 1) AND 0xFFF
           \<and> sequence g' \<noteq> 0))"
  using assms unfolding next_id_def Let_def
  by (auto split: list.splits if_splits option.splits dest!: wait_past_Some
      intro: sless_total simp: word_sless_alt [of "lastTime g" "lastTime g"])

lemma next_id_step:
  assumes "gen_ok g" "\<forall>t \<in> set rs. in_window g t" "next_id g rs = Some (i, g', rs')"
  shows "gen_ok g'" "stamp g < stamp g'" "sint i = stamp g'" "epoch g' = epoch g"
    "set rs' \<subseteq> set rs"
proof -
  note D = next_id_SomeD [OF assms(3)]
  then have "gen_ok g' \<and> stamp g < stamp g'"
  proof (elim conjE disjE)
    assume "lastTime g <s lastTime g'" "sequence g' = 0" "lastTime g' \<in> set rs"
    then show ?thesis
      using assms(1,2) D by (auto simp: gen_ok_def in_window_def stamp_def word_sless_alt)
  next
    assume "lastTime g' = lastTime g" "sequence g' = (sequence g + 1) AND 0xFFF"
      "sequence g' \<noteq> 0"
    then show ?thesis
      using assms(1) D sequence_step [of "sequence g"] and_mask_bound(1) [of "sequence g + 1"]
      by (auto simp: gen_ok_def in_window_def stamp_def)
  qed
  then show "gen_ok g'" "stamp g < stamp g'" "sint i = stamp g'"
    using D sint_compose_id by auto
  show "epoch g' = epoch g" "set rs' \<subseteq> set rs" using D by auto
qed

lemma sless_sle: "\<not> a <s b \<longleftrightarrow> b \<le>s (a :: int64)"
  by (auto simp: word_sless_alt word_sle_eq)

lemma next_id_None:
  "next_id g (t # rs) = None \<longleftrightarrow>
     t \<le>s lastTime g \<and> (sequence g + 1) AND 0xFFF = 0 \<and> (\<forall>u \<in> set rs. u \<le>s lastTime g)"
proof -
  let ?now = "if t <s lastTime g then lastTime g else t"
  have now: "?now = lastTime g \<longleftrightarrow> t \<le>s lastTime g"
    by (auto simp: signed.le_less)
  have "next_id g (t # rs) = None \<longleftrightarrow> ?now = lastTime g \<and> (sequence g + 1) AND 0xFFF = 0
     \<and> wait_past (lastTime g) (lastTime g) rs = None"
    by (auto simp: next_id_def Let_def split: option.splits)
  then show ?thesis by (simp only: now wait_past_None) (simp add: signed.le_less)
qed

section \<open>The interface the other packages use\<close>

text \<open>
  The handlers depend on an \<open>IDGenerator\<close>. Its contract: each call raises a mark, and the id it
  returns is the new mark read as a signed number. Distinct, increasing ids follow for any
  number of calls.
\<close>

locale id_generator =
  fixes step :: "'g \<Rightarrow> 'c \<Rightarrow> (int64 \<times> 'g \<times> 'c) option"
    and ok :: "'g \<Rightarrow> 'c \<Rightarrow> bool"
    and mark :: "'g \<Rightarrow> int"
  assumes step_ok: "ok g c \<Longrightarrow> step g c = Some (i, g', c') \<Longrightarrow> ok g' c'"
    and step_mark: "ok g c \<Longrightarrow> step g c = Some (i, g', c') \<Longrightarrow> mark g < sint i \<and> mark g' = sint i"
begin

primrec ids :: "nat \<Rightarrow> 'g \<Rightarrow> 'c \<Rightarrow> int64 list option" where
  "ids 0 g c = Some []"
| "ids (Suc n) g c =
     (case step g c of None \<Rightarrow> None | Some (i, g', c') \<Rightarrow> map_option ((#) i) (ids n g' c'))"

lemma ids_increasing:
  "ok g c \<Longrightarrow> ids n g c = Some xs
   \<Longrightarrow> sorted_wrt (<) (mark g # map sint xs)"
proof (induction n arbitrary: g c xs)
  case (Suc n)
  then obtain i g' c' ys where s: "step g c = Some (i, g', c')" "ids n g' c' = Some ys"
    "xs = i # ys"
    by (auto split: option.splits)
  with Suc.prems have "ok g' c'" "mark g < sint i" "mark g' = sint i"
    using step_ok step_mark by blast+
  with Suc.IH [OF _ s(2)] s(3) show ?case by auto
qed simp

lemma ids_distinct: "ok g c \<Longrightarrow> ids n g c = Some xs \<Longrightarrow> distinct xs"
  using ids_increasing [of g c n xs]
  by (auto simp: strict_sorted_iff distinct_map)

end

definition run_ok :: "snowflake \<Rightarrow> int64 list \<Rightarrow> bool" where
  "run_ok g rs \<longleftrightarrow> gen_ok g \<and> (\<forall>t \<in> set rs. in_window g t)"

interpretation snow: id_generator next_id run_ok stamp
proof
  fix g c i g' c'
  assume "run_ok g c" and eq: "next_id g c = Some (i, g', c')"
  then have ok: "gen_ok g" "\<forall>t \<in> set c. in_window g t" by (simp_all add: run_ok_def)
  note step = next_id_step [OF ok eq]
  from step ok(2) show "run_ok g' c'" by (auto simp: run_ok_def in_window_def)
  from step show "stamp g < sint i \<and> stamp g' = sint i" by simp
qed

lemma run_ids_eq: "map_option fst (run_ids n g rs) = snow.ids n g rs"
proof (induction n arbitrary: g rs)
  case (Suc n)
  show ?case
    by (auto simp: Suc [symmetric] split: option.split)
qed simp

text \<open>
  C25. The ids of any number of consecutive calls of a fresh generator are strictly increasing as
  signed 64-bit numbers, hence distinct and never reused, whatever the clock shows: a clock that
  stands still or jumps back, or more than 4096 calls in a millisecond, included. The readings
  need only be within the 41-bit window of the custom epoch.
\<close>

theorem snowflake_ids_increasing:
  assumes "\<forall>t \<in> set readings. in_window (new_snowflake node) t"
    and "run_ids n (new_snowflake node) readings = Some (is, g, rest)"
  shows "sorted_wrt (<) (map sint is) \<and> distinct is"
proof -
  have "run_ok (new_snowflake node) readings"
    using assms(1) gen_ok_new by (simp add: run_ok_def)
  moreover have "snow.ids n (new_snowflake node) readings = Some is"
    using assms(2) by (simp add: run_ids_eq [symmetric])
  ultimately show ?thesis
    using snow.ids_increasing snow.ids_distinct by (metis sorted_wrt.simps(2))
qed

theorem snowflake_ids_increasing_witness:
  "sorted_wrt (<) (map sint
     [0x1000 :: int64, 0x1001, 0x401000]) \<and> distinct [0x1000 :: int64, 0x1001, 0x401000]"
proof -
  have "run_ids 3 (new_snowflake 1) [1767225600000, 1767225599000, 1767225600001]
        = Some ([0x1000, 0x1001, 0x401000],
            (new_snowflake 1)\<lparr>sequence := 0, lastTime := 1767225600001\<rparr>, [])"
    by (simp add: numeral_3_eq_3 next_id_def new_snowflake_def default_epoch_def compose_id_def
        word_sless_alt)
  from snowflake_ids_increasing [OF _ this] show ?thesis
    by (simp add: in_window_def new_snowflake_def default_epoch_def)
qed

text \<open>
  C26. \<open>NextID\<close> returns unless the generator has used up the 4096 numbers of its last millisecond
  and no reading of the clock is past that millisecond: then the loop, and with it every other
  caller of the generator, waits. Otherwise it takes a single reading.
\<close>

theorem next_id_terminates:
  "(\<exists>i g' rs'. next_id g (t # rs) = Some (i, g', rs') \<and> set rs' \<subseteq> set rs
      \<and> ((sequence g + 1) AND 0xFFF \<noteq> 0 \<longrightarrow> rs' = rs))
   \<longleftrightarrow> (sequence g + 1) AND 0xFFF \<noteq> 0 \<or> (\<exists>u \<in> set (t # rs). lastTime g <s u)"
proof -
  have single: "rs' = rs" if "next_id g (t # rs) = Some (i, g', rs')" "(sequence g + 1) AND 0xFFF \<noteq> 0"
    for i g' rs'
    using that by (auto simp: next_id_def Let_def split: if_splits)
  have sub: "set rs' \<subseteq> set rs" if "next_id g (t # rs) = Some (i, g', rs')" for i g' rs'
    using that by (auto simp: next_id_def Let_def split: if_splits option.splits dest: wait_past_Some)
  have "(\<exists>i g' rs'. next_id g (t # rs) = Some (i, g', rs')) \<longleftrightarrow> next_id g (t # rs) \<noteq> None"
    by auto
  also have "\<dots> \<longleftrightarrow> (sequence g + 1) AND 0xFFF \<noteq> 0 \<or> (\<exists>u \<in> set (t # rs). lastTime g <s u)"
    unfolding next_id_None by (auto simp: sless_sle [symmetric])
  finally show ?thesis using single sub by blast
qed

definition worn_out :: snowflake where
  "worn_out = (new_snowflake 1)\<lparr>sequence := 4095, lastTime := 1767225600000\<rparr>"

theorem next_id_terminates_witness:
  "next_id worn_out [1767225600000, 1767225600000] = None
   \<and> (\<exists>i g' rs'. next_id worn_out [1767225600000, 1767225600000, 1767225600001] = Some (i, g', rs'))"
proof -
  have "\<not> (\<exists>i g' rs'. next_id worn_out [1767225600000, 1767225600000] = Some (i, g', rs')
      \<and> set rs' \<subseteq> set [1767225600000]
      \<and> ((sequence worn_out + 1) AND 0xFFF \<noteq> 0 \<longrightarrow> rs' = [1767225600000]))"
    unfolding next_id_terminates by (simp add: worn_out_def word_sless_alt)
  moreover have "next_id worn_out [1767225600000, 1767225600000] = Some (i, g', rs') \<Longrightarrow> rs' = []" for i g' rs'
    by (auto simp: worn_out_def next_id_def Let_def split: if_splits option.splits)
  ultimately have "next_id worn_out [1767225600000, 1767225600000] = None"
    by (cases "next_id worn_out [1767225600000, 1767225600000]")
      (auto simp: worn_out_def)
  moreover have "\<exists>i g' rs'. next_id worn_out [1767225600000, 1767225600000, 1767225600001] = Some (i, g', rs')
      \<and> set rs' \<subseteq> set [1767225600000, 1767225600001]
      \<and> ((sequence worn_out + 1) AND 0xFFF \<noteq> 0 \<longrightarrow> rs' = [1767225600000, 1767225600001])"
    unfolding next_id_terminates by (simp add: worn_out_def word_sless_alt)
  ultimately show ?thesis by blast
qed

end
