(* ===== verification/Psp.thy ===== *)
theory Psp
  imports Go_Text
begin

text \<open>
  The client of the payment provider (\<open>internal/psp\<close>) and the mock provider (\<open>cmd/mockpsp\<close>). The
  HTTP transport between them is a function from the URL and the request to what arrives back:
  nothing usable, or a status with the body as far as it decodes.
\<close>

section \<open>The client\<close>

record charge_request =
  crq_token :: string
  crq_amount :: int64
  crq_currency :: string
  crq_psp_request :: int64

record charge_result =
  cr_status :: string
  cr_psp_ref :: string
  cr_failure_code :: string

datatype psp_reply = TransportFailure | HttpReply nat "charge_result option"

datatype psp_error = PspTransport | PspHttpStatus nat | PspDecode | PspInvalidStatus string

text \<open>The timeout is a \<open>time.Duration\<close>: nanoseconds, where 0 means no timeout.\<close>

record psp_client =
  cli_base_url :: string
  cli_timeout :: int

definition trim_right_slash :: "string \<Rightarrow> string" where
  "trim_right_slash s = rev (dropWhile (\<lambda>c. c = CHR ''/'') (rev s))"

definition new_client :: "string \<Rightarrow> int \<Rightarrow> psp_client" where
  "new_client base_url timeout =
     \<lparr>cli_base_url = trim_right_slash base_url, cli_timeout = timeout\<rparr>"

text \<open>The \<open>http.Client\<close> gives up when its timeout is over.\<close>

type_synonym transport = "string \<Rightarrow> charge_request \<Rightarrow> psp_reply"

definition charge ::
  "psp_client \<Rightarrow> transport \<Rightarrow> charge_request \<Rightarrow> psp_error + charge_result" where
  "charge c http req =
     (case http (cli_base_url c @ ''/payments'') req of
        TransportFailure \<Rightarrow> Inl PspTransport
      | HttpReply status body \<Rightarrow>
          if status \<noteq> 200 then Inl (PspHttpStatus status)
          else (case body of
                  None \<Rightarrow> Inl PspDecode
                | Some result \<Rightarrow>
                    if cr_status result \<noteq> ''succeeded'' \<and> cr_status result \<noteq> ''failed''
                    then Inl (PspInvalidStatus (cr_status result))
                    else Inr result))"

lemma charge_Inr_iff:
  "charge c http req = Inr result \<longleftrightarrow>
     http (cli_base_url c @ ''/payments'') req = HttpReply 200 (Some result)
     \<and> cr_status result \<in> {''succeeded'', ''failed''}"
  by (auto simp: charge_def split: psp_reply.split option.split)

lemma charge_result_status:
  "charge c http req = Inr result \<Longrightarrow> cr_status result = ''succeeded'' \<or> cr_status result = ''failed''"
  by (simp add: charge_Inr_iff)

lemma trim_right_slash_idle: "trim_right_slash (u @ ''/'') = trim_right_slash u"
  by (simp add: trim_right_slash_def)

section \<open>The mock provider\<close>

text \<open>
  \<open>paymentHandler\<close>: the handler's counter, and the latency (milliseconds), status and body of its
  answer. The body is \<open>None\<close> where the handler writes plain text instead of a JSON result.
\<close>

record mock_answer =
  mock_latency :: nat
  mock_status :: nat
  mock_body :: "charge_result option"

definition psp_ref_of :: "charge_request \<Rightarrow> string" where
  "psp_ref_of req = ''psp_'' @ fmt_int (sint (crq_psp_request req))"

definition mock_switch :: "charge_request \<Rightarrow> mock_answer" where
  "mock_switch req =
     (let succeeded = \<lparr>cr_status = ''succeeded'', cr_psp_ref = psp_ref_of req, cr_failure_code = ''''\<rparr>;
          declined = (\<lambda>code. \<lparr>cr_status = ''failed'', cr_psp_ref = '''', cr_failure_code = code\<rparr>)
      in if crq_token req = ''tok_success'' then
           \<lparr>mock_latency = 100, mock_status = 200, mock_body = Some succeeded\<rparr>
         else if crq_token req = ''tok_insufficient_funds'' then
           \<lparr>mock_latency = 100, mock_status = 200, mock_body = Some (declined ''insufficient_funds'')\<rparr>
         else if crq_token req = ''tok_card_declined'' then
           \<lparr>mock_latency = 100, mock_status = 200, mock_body = Some (declined ''card_declined'')\<rparr>
         else if crq_token req = ''tok_timeout'' then
           \<lparr>mock_latency = 30000, mock_status = 200, mock_body = Some succeeded\<rparr>
         else if crq_token req = ''tok_network_error'' then
           \<lparr>mock_latency = 0, mock_status = 500, mock_body = None\<rparr>
         else \<lparr>mock_latency = 0, mock_status = 400, mock_body = None\<rparr>)"

definition payment_handler ::
  "string \<Rightarrow> charge_request option \<Rightarrow> int64 \<Rightarrow> mock_answer \<times> int64" where
  "payment_handler verb body calls =
     (if verb \<noteq> ''POST'' then (\<lparr>mock_latency = 0, mock_status = 405, mock_body = None\<rparr>, calls)
      else (case body of
              None \<Rightarrow> (\<lparr>mock_latency = 0, mock_status = 400, mock_body = None\<rparr>, calls + 1)
            | Some req \<Rightarrow> (mock_switch req, calls + 1)))"

text \<open>The routes of the mock: \<open>main\<close> registers three paths and no verb.\<close>

datatype mock_output =
    PaymentOutput mock_answer
  | CountOutput int64
  | HealthOutput string
  | NoRoute

definition mock_mux ::
  "string \<Rightarrow> string \<Rightarrow> charge_request option \<Rightarrow> int64 \<Rightarrow> mock_output \<times> int64" where
  "mock_mux path verb body calls =
     (if path = ''/payments'' then
        (case payment_handler verb body calls of (a, n) \<Rightarrow> (PaymentOutput a, n))
      else if path = ''/calls'' then (CountOutput calls, calls)
      else if path = ''/health'' then (HealthOutput ''ok'', calls)
      else (NoRoute, calls))"

text \<open>
  The transport between the client and a mock that listens at \<open>addr\<close>: a URL at another address
  reaches nothing; at this one the rest of the URL is the path that the mock routes. An answer that
  is not there when the client's timeout is over does not arrive. The objects that \<open>/calls\<close> and
  \<open>/health\<close> write decode to a result with the status as far as they have one.
\<close>

definition mock_arrives :: "psp_client \<Rightarrow> mock_answer \<Rightarrow> psp_reply" where
  "mock_arrives c a =
     (if 0 < cli_timeout c \<and> cli_timeout c \<le> int (mock_latency a) * 1000000 then TransportFailure
      else HttpReply (mock_status a) (mock_body a))"

definition mock_transport :: "string \<Rightarrow> psp_client \<Rightarrow> int64 \<Rightarrow> transport" where
  "mock_transport addr c calls url req =
     (if take (length addr) url \<noteq> addr then TransportFailure
      else (case fst (mock_mux (drop (length addr) url) ''POST'' (Some req) calls) of
              PaymentOutput a \<Rightarrow> mock_arrives c a
            | CountOutput n \<Rightarrow>
                HttpReply 200 (Some \<lparr>cr_status = [], cr_psp_ref = [], cr_failure_code = []\<rparr>)
            | HealthOutput s \<Rightarrow>
                HttpReply 200 (Some \<lparr>cr_status = s, cr_psp_ref = [], cr_failure_code = []\<rparr>)
            | NoRoute \<Rightarrow> HttpReply 404 None))"

lemma charge_mock:
  assumes "cli_base_url c = addr"
  shows "charge c (mock_transport addr c calls) req
    = charge c (\<lambda>url r. mock_arrives c (mock_switch r)) req"
  using assms by (simp add: charge_def mock_transport_def mock_mux_def payment_handler_def)

end
