(* ===== verification/Mock_Provider.thy ===== *)
theory Mock_Provider
  imports Psp
begin

text \<open>
  The server's client of the payment provider as \<open>setupRouter\<close> configures it, against the mock
  provider of \<open>cmd/mockpsp\<close> with its routes.
\<close>

section \<open>Configuration\<close>

text \<open>\<open>getenv\<close> is \<open>os.Getenv\<close>; \<open>parse\<close> is \<open>time.ParseDuration\<close>, in nanoseconds.\<close>

definition psp_settings :: "(string \<Rightarrow> string) \<Rightarrow> (string \<Rightarrow> int option) \<Rightarrow> psp_client" where
  "psp_settings getenv parse =
     (let base = getenv ''PSP_BASE_URL'';
          base = (if base = [] then ''http://localhost:8081'' else base);
          configured = getenv ''PSP_TIMEOUT'';
          timeout = (if configured \<noteq> [] then
                       (case parse configured of
                          Some d \<Rightarrow> if 0 < d then d else 3 * 1000000000
                        | None \<Rightarrow> 3 * 1000000000)
                     else 3 * 1000000000)
      in new_client base timeout)"

lemma psp_settings_timeout: "0 < cli_timeout (psp_settings getenv parse)"
  by (simp add: psp_settings_def new_client_def Let_def split: option.split)

text \<open>Where the mock listens: its \<open>PORT\<close>, 8081 by default, on a host that reaches it.\<close>

definition mock_address :: "string \<Rightarrow> (string \<Rightarrow> string) \<Rightarrow> string" where
  "mock_address host getenv =
     (let port = getenv ''PORT'';
          port = (if port = [] then ''8081'' else port)
      in ''http://'' @ host @ '':'' @ port)"

text \<open>
  The two environments fit together: the server's \<open>PSP_BASE_URL\<close> is the mock's address, with or
  without slashes behind it, or it is unset and the mock is on the same host with its default port;
  and the server's timeout lies between the mock's two latencies, or is the default.
\<close>

definition mock_configured ::
  "string \<Rightarrow> (string \<Rightarrow> string) \<Rightarrow> (string \<Rightarrow> string) \<Rightarrow> (string \<Rightarrow> int option) \<Rightarrow> bool" where
  "mock_configured host mockenv getenv parse \<longleftrightarrow>
     CHR ''/'' \<notin> set (mockenv ''PORT'')
     \<and> (if getenv ''PSP_BASE_URL'' = [] then host = ''localhost'' \<and> mockenv ''PORT'' \<in> {[], ''8081''}
        else \<exists>slashes. set slashes \<subseteq> {CHR ''/''}
               \<and> getenv ''PSP_BASE_URL'' = mock_address host mockenv @ slashes)
     \<and> (case parse (getenv ''PSP_TIMEOUT'') of
          Some d \<Rightarrow> getenv ''PSP_TIMEOUT'' \<noteq> [] \<and> 0 < d \<longrightarrow> 100 * 1000000 < d \<and> d < 30 * 1000000000
        | None \<Rightarrow> True)"

lemma trim_right_slashes:
  assumes "set slashes \<subseteq> {CHR ''/''}" "s \<noteq> []" "last s \<noteq> CHR ''/''"
  shows "trim_right_slash (s @ slashes) = s"
proof -
  have "dropWhile (\<lambda>c. c = CHR ''/'') (rev slashes @ rev s) = dropWhile (\<lambda>c. c = CHR ''/'') (rev s)"
    using assms(1) by (intro dropWhile_append2) auto
  moreover have "dropWhile (\<lambda>c. c = CHR ''/'') (rev s) = rev s"
    using assms(2,3) by (cases s rule: rev_cases) auto
  ultimately show ?thesis by (simp add: trim_right_slash_def)
qed

lemma mock_address_end:
  "CHR ''/'' \<notin> set (mockenv ''PORT'') \<Longrightarrow>
   mock_address host mockenv \<noteq> [] \<and> last (mock_address host mockenv) \<noteq> CHR ''/''"
  by (cases "mockenv ''PORT''" rule: rev_cases) (auto simp: mock_address_def Let_def)

lemma mock_configured_client:
  assumes "mock_configured host mockenv getenv parse"
  shows "cli_base_url (psp_settings getenv parse) = mock_address host mockenv"
    and "100 * 1000000 < cli_timeout (psp_settings getenv parse)"
    and "cli_timeout (psp_settings getenv parse) < 30 * 1000000000"
proof -
  show "cli_base_url (psp_settings getenv parse) = mock_address host mockenv"
  proof (cases "getenv ''PSP_BASE_URL'' = []")
    case True
    with assms show ?thesis
      by (auto simp: mock_configured_def psp_settings_def new_client_def mock_address_def Let_def
          trim_right_slash_def)
  next
    case False
    with assms show ?thesis
      using trim_right_slashes mock_address_end [of mockenv host]
      by (auto simp: mock_configured_def psp_settings_def new_client_def Let_def)
  qed
  show "100 * 1000000 < cli_timeout (psp_settings getenv parse)"
    "cli_timeout (psp_settings getenv parse) < 30 * 1000000000"
    using assms
    by (auto simp: mock_configured_def psp_settings_def new_client_def Let_def split: option.splits)
qed

section \<open>The call counter\<close>

type_synonym mock_call = "string \<times> string \<times> charge_request option"

text \<open>The counter after the mock has served some requests since it was started.\<close>

definition mock_counter :: "mock_call list \<Rightarrow> int64" where
  "mock_counter reqs = fold (\<lambda>(path, verb, body) n. snd (mock_mux path verb body n)) reqs 0"

definition is_payment :: "mock_call \<Rightarrow> bool" where
  "is_payment r = (case r of (path, verb, body) \<Rightarrow> path = ''/payments'' \<and> verb = ''POST'')"

lemma mock_mux_counter:
  "snd (mock_mux path verb body n) = (if is_payment (path, verb, body) then n + 1 else n)"
  by (auto simp: mock_mux_def payment_handler_def is_payment_def split: option.split)

lemma mock_counter_from:
  "fold (\<lambda>(path, verb, body) n. snd (mock_mux path verb body n)) reqs n
     = n + of_nat (length (filter is_payment reqs))"
proof (induction reqs arbitrary: n)
  case (Cons r reqs)
  obtain path verb body where "r = (path, verb, body)" by (cases r)
  with Cons show ?case by (simp add: mock_mux_counter)
qed simp

section \<open>The test tokens\<close>

text \<open>The reference of a successful charge names the request.\<close>

lemma psp_ref_of_inj: "psp_ref_of r = psp_ref_of r' \<longleftrightarrow> crq_psp_request r = crq_psp_request r'"
  by (simp add: psp_ref_of_def fmt_int_inj sint64_eq_iff [symmetric])

text \<open>The two tokens that are declined, each with its own name as the failure code.\<close>

definition declined_tokens :: "string set" where
  "declined_tokens = {''tok_insufficient_funds'', ''tok_card_declined''}"

text \<open>
  C38. The client configured by the server's environment against the routes of the mock provider: if
  \<open>PSP_BASE_URL\<close> is the mock's address (trailing slashes or not) or both are at their defaults, and
  \<open>PSP_TIMEOUT\<close>, if it is a positive duration, lies between the mock's latencies of 0.1 s and
  30 s, then a charge is reported as successful exactly for \<open>tok_success\<close>, with a reference that
  names the PSP request and no other; as failed exactly for the two declined tokens, with the token's
  name as the code; \<open>tok_timeout\<close> is a transport failure, \<open>tok_network_error\<close> HTTP 500 and any other
  token HTTP 400, none of them a result. \<open>/calls\<close> reports the number of POSTs to \<open>/payments\<close>.
\<close>

theorem mock_provider_outcomes:
  fixes getenv parse host mockenv calls
  defines "c \<equiv> psp_settings getenv parse"
  defines "pay \<equiv> charge c (mock_transport (mock_address host mockenv) c calls)"
  assumes "mock_configured host mockenv getenv parse"
  shows "((\<exists>r. pay req = Inr r \<and> cr_status r = ''succeeded'') \<longleftrightarrow> crq_token req = ''tok_success'')
     \<and> (\<forall>r req' r'. pay req = Inr r \<and> cr_status r = ''succeeded'' \<and> pay req' = Inr r'
          \<and> cr_status r' = ''succeeded'' \<longrightarrow>
            (cr_psp_ref r = cr_psp_ref r' \<longleftrightarrow> crq_psp_request req = crq_psp_request req'))
     \<and> (\<forall>code. pay req = Inr \<lparr>cr_status = ''failed'', cr_psp_ref = [], cr_failure_code = code\<rparr>
          \<longleftrightarrow> ''tok_'' @ code = crq_token req \<and> crq_token req \<in> declined_tokens)
     \<and> (case pay req of
          Inr r \<Rightarrow> crq_token req = ''tok_success'' \<or> crq_token req \<in> declined_tokens
        | Inl e \<Rightarrow> e = (if crq_token req = ''tok_timeout'' then PspTransport
                       else if crq_token req = ''tok_network_error'' then PspHttpStatus 500
                       else PspHttpStatus 400))
     \<and> fst (mock_mux ''/calls'' verb body (mock_counter reqs))
       = CountOutput (of_nat (length (filter is_payment reqs)))"
proof -
  note conf = mock_configured_client [OF assms(3), folded c_def]
  have pay: "pay r = charge c (\<lambda>url r. mock_arrives c (mock_switch r)) r" for r
    unfolding pay_def using conf(1) by (rule charge_mock)
  have out: "pay r = (let t = crq_token r in
      if t = ''tok_success'' then
        Inr \<lparr>cr_status = ''succeeded'', cr_psp_ref = psp_ref_of r, cr_failure_code = []\<rparr>
      else if t \<in> declined_tokens then
        Inr \<lparr>cr_status = ''failed'', cr_psp_ref = [], cr_failure_code = drop 4 t\<rparr>
      else Inl (if t = ''tok_timeout'' then PspTransport
        else if t = ''tok_network_error'' then PspHttpStatus 500 else PspHttpStatus 400))" for r
    using conf(2,3)
    by (simp add: pay charge_def mock_arrives_def mock_switch_def declined_tokens_def Let_def)
  have drop4: "''tok_'' @ code = t \<longleftrightarrow> code = drop 4 t" if "t \<in> declined_tokens" for code t
    using that by (auto simp: declined_tokens_def)
  have "fst (mock_mux ''/calls'' verb body (mock_counter reqs))
      = CountOutput (of_nat (length (filter is_payment reqs)))"
    using mock_counter_from [of reqs 0] by (simp add: mock_counter_def mock_mux_def)
  then show ?thesis
    by (intro conjI) (auto simp: out Let_def psp_ref_of_inj drop4 declined_tokens_def split: if_splits)
qed

definition timeout_request :: charge_request where
  "timeout_request =
     \<lparr>crq_token = ''tok_timeout'', crq_amount = 5, crq_currency = ''USD'', crq_psp_request = 1\<rparr>"

text \<open>The environments of \<open>docker-compose.yml\<close>, with the default timeout.\<close>

definition compose_env :: "string \<Rightarrow> string" where
  "compose_env v = (if v = ''PSP_BASE_URL'' then ''http://mockpsp:8081'' else [])"

definition compose_mock_env :: "string \<Rightarrow> string" where
  "compose_mock_env v = (if v = ''PORT'' then ''8081'' else [])"

theorem mock_provider_outcomes_witness:
  "charge (psp_settings compose_env (\<lambda>s. None))
     (mock_transport (mock_address ''mockpsp'' compose_mock_env) (psp_settings compose_env (\<lambda>s. None)) 0)
     timeout_request = Inl PspTransport"
proof -
  have "mock_configured ''mockpsp'' compose_mock_env compose_env (\<lambda>s. None)"
    by (simp add: mock_configured_def compose_env_def compose_mock_env_def mock_address_def
        exI [of _ "[]"])
  note ok = mock_provider_outcomes [OF this, where req = timeout_request and calls = 0
      and verb = "''GET''" and body = None and reqs = "[]"]
  have "crq_token timeout_request = ''tok_timeout''" by (simp add: timeout_request_def)
  with ok show ?thesis by (simp add: declined_tokens_def split: sum.splits)
qed

end
