(* ===== verification/Queries.thy ===== *)
theory Queries
  imports Schema
begin

text \<open>
  Package \<open>internal/db/generate\<close>: one definition per sqlc query. A statement maps the database
  it runs against to an error or to the scanned row(s) and the new database; a statement that
  fails changes nothing. \<open>now\<close> is the server's \<open>NOW()\<close>. Where \<open>ORDER BY\<close> leaves ties
  open, rows with equal keys keep their insertion order.
\<close>

section \<open>Statements\<close>

datatype db_error =
    NoRows
  | UniqueViolation string
  | ForeignKeyViolation string
  | CheckViolation string
  | NotNullViolation string
  | IntegerOutOfRange
  | TxAborted
  | Unavailable

type_synonym 'a stmt = "database \<Rightarrow> db_error + ('a \<times> database)"

text \<open>A \<open>:one\<close> select; a \<open>:many\<close> select; a \<open>:one\<close> update with \<open>RETURNING\<close>.\<close>

definition select_one :: "('r \<Rightarrow> bool) \<Rightarrow> (database \<Rightarrow> 'r list) \<Rightarrow> 'r stmt" where
  "select_one P table d =
     (case find P (table d) of None \<Rightarrow> Inl NoRows | Some r \<Rightarrow> Inr (r, d))"

definition select_many ::
  "('r \<Rightarrow> bool) \<Rightarrow> ('r \<Rightarrow> int) \<Rightarrow> (database \<Rightarrow> 'r list) \<Rightarrow> 'r list stmt" where
  "select_many P key table d = Inr (sort_key key (filter P (table d)), d)"

definition update_where :: "('r \<Rightarrow> bool) \<Rightarrow> ('r \<Rightarrow> 'r) \<Rightarrow> 'r list \<Rightarrow> 'r list" where
  "update_where P f rows = map (\<lambda>r. if P r then f r else r) rows"

definition update_one ::
  "('r \<Rightarrow> bool) \<Rightarrow> ('r \<Rightarrow> 'r) \<Rightarrow> (database \<Rightarrow> 'r list)
   \<Rightarrow> ('r list \<Rightarrow> database \<Rightarrow> database) \<Rightarrow> 'r stmt" where
  "update_one P f table store d =
     (case find P (table d) of
        None \<Rightarrow> Inl NoRows
      | Some r \<Rightarrow> Inr (f r, store (update_where P f (table d)) d))"

text \<open>Constraint checks of an insert, first failure reported.\<close>

fun first_failure :: "(bool \<times> db_error) list \<Rightarrow> db_error option" where
  "first_failure [] = None"
| "first_failure ((ok, e) # cs) = (if ok then first_failure cs else Some e)"

definition insert_one ::
  "(bool \<times> db_error) list \<Rightarrow> 'r \<Rightarrow> (database \<Rightarrow> 'r list)
   \<Rightarrow> ('r list \<Rightarrow> database \<Rightarrow> database) \<Rightarrow> 'r stmt" where
  "insert_one cs r table store d =
     (case first_failure cs of
        Some e \<Rightarrow> Inl e
      | None \<Rightarrow> Inr (r, store (table d @ [r]) d))"

lemma first_failure_None: "first_failure cs = None \<longleftrightarrow> list_all fst cs"
  by (induction cs rule: first_failure.induct) auto

lemma first_failure_mem: "first_failure cs = Some e \<Longrightarrow> e \<in> snd ` set cs"
  by (induction cs rule: first_failure.induct) (auto split: if_splits)

lemma insert_one_InrE:
  assumes "insert_one cs r table store d = Inr (x, d')"
  obtains "list_all fst cs" "x = r" "d' = store (table d @ [r]) d"
  using assms by (auto simp: insert_one_def first_failure_None split: option.splits)

lemma insert_one_not_NoRows:
  "insert_one cs r table store d = Inl e \<Longrightarrow> NoRows \<notin> snd ` set cs \<Longrightarrow> e \<noteq> NoRows"
  by (auto simp: insert_one_def split: option.splits dest: first_failure_mem)

lemma update_one_InrE:
  assumes "update_one P f table store d = Inr (x, d')"
  obtains r where "find P (table d) = Some r" "P r" "r \<in> set (table d)" "x = f r"
    "d' = store (update_where P f (table d)) d"
  using assms by (auto simp: update_one_def split: option.splits dest: find_Some_mem)

lemma select_one_InrE:
  assumes "select_one P table d = Inr (x, d')"
  obtains "d' = d" "x \<in> set (table d)" "P x" "find P (table d) = Some x"
  using assms by (auto simp: select_one_def split: option.splits dest: find_Some_mem)

lemma select_many_InrE:
  assumes "select_many P k table d = Inr (xs, d')"
  obtains "d' = d" "xs = sort_key k (filter P (table d))"
  using assms by (auto simp: select_many_def)

section \<open>queries.sql.go\<close>

definition create_api_key ::
  "instant \<Rightarrow> int64 \<Rightarrow> int64 \<Rightarrow> string \<Rightarrow> string \<Rightarrow> api_key stmt" where [stmt_defs]:
  "create_api_key now i b pfx hash d =
     insert_one
       [(\<not> occurs key_id i (api_keys d), UniqueViolation ''api_keys_pkey''),
        (\<not> occurs key_prefix pfx (api_keys d), UniqueViolation ''uq_api_keys_key_prefix''),
        (occurs biz_id b (businesses d), ForeignKeyViolation ''api_keys_business_id_fkey'')]
       \<lparr>key_id = i, key_business = b, key_prefix = pfx, key_hash = hash, key_created = now,
        key_revoked = None\<rparr>
       api_keys (\<lambda>t d. d\<lparr>api_keys := t\<rparr>) d"

definition create_business :: "instant \<Rightarrow> int64 \<Rightarrow> string \<Rightarrow> business stmt" where [stmt_defs]:
  "create_business now i nm d =
     insert_one [(\<not> occurs biz_id i (businesses d), UniqueViolation ''businesses_pkey'')]
       \<lparr>biz_id = i, biz_name = nm, biz_created = now, biz_updated = now\<rparr>
       businesses (\<lambda>t d. d\<lparr>businesses := t\<rparr>) d"

definition create_customer ::
  "instant \<Rightarrow> int64 \<Rightarrow> int64 \<Rightarrow> string \<Rightarrow> string \<Rightarrow> customer stmt" where [stmt_defs]:
  "create_customer now i b nm em d =
     insert_one
       [(\<not> occurs cus_id i (customers d), UniqueViolation ''customers_pkey''),
        (occurs biz_id b (businesses d), ForeignKeyViolation ''customers_business_id_fkey'')]
       \<lparr>cus_id = i, cus_business = b, cus_name = nm, cus_email = em, cus_created = now,
        cus_updated = now\<rparr>
       customers (\<lambda>t d. d\<lparr>customers := t\<rparr>) d"

definition create_invoice ::
  "instant \<Rightarrow> int64 \<Rightarrow> int64 \<Rightarrow> int64 \<Rightarrow> int64 \<Rightarrow> string \<Rightarrow> invoice_state \<Rightarrow> date option
   \<Rightarrow> invoice stmt" where [stmt_defs]:
  "create_invoice now i b c amount cur st due d =
     insert_one
       [(due \<noteq> None, NotNullViolation ''due_date''),
        (0 \<le>s amount, CheckViolation ''chk_invoices_total_amount_cents''),
        (cur = ''USD'', CheckViolation ''chk_invoices_currency''),
        (\<not> occurs inv_id i (invoices d), UniqueViolation ''invoices_pkey''),
        (occurs biz_id b (businesses d), ForeignKeyViolation ''invoices_business_id_fkey''),
        (occurs (\<lambda>r. (cus_id r, cus_business r)) (c, b) (customers d),
           ForeignKeyViolation ''fk_invoices_customer_business'')]
       \<lparr>inv_id = i, inv_business = b, inv_customer = c, inv_total = amount, inv_currency = cur,
        inv_state = st, inv_due = due, inv_created = now, inv_updated = now\<rparr>
       invoices (\<lambda>t d. d\<lparr>invoices := t\<rparr>) d"

definition create_invoice_item ::
  "instant \<Rightarrow> int64 \<Rightarrow> int64 \<Rightarrow> string \<Rightarrow> int32 \<Rightarrow> int64 \<Rightarrow> invoice_item stmt" where [stmt_defs]:
  "create_invoice_item now i ivc desc qty unit d =
     insert_one
       [(0 <s qty, CheckViolation ''chk_invoice_items_quantity''),
        (0 \<le>s unit, CheckViolation ''chk_invoice_items_unit_amount_cents''),
        (\<not> occurs itm_id i (invoice_items d), UniqueViolation ''invoice_items_pkey''),
        (occurs inv_id ivc (invoices d), ForeignKeyViolation ''invoice_items_invoice_id_fkey'')]
       \<lparr>itm_id = i, itm_invoice = ivc, itm_description = desc, itm_quantity = qty,
        itm_unit = unit, itm_created = now\<rparr>
       invoice_items (\<lambda>t d. d\<lparr>invoice_items := t\<rparr>) d"

definition get_api_key_by_prefix :: "string \<Rightarrow> api_key stmt" where [stmt_defs]:
  "get_api_key_by_prefix pfx = select_one (\<lambda>r. key_prefix r = pfx) api_keys"

definition get_business_by_id :: "int64 \<Rightarrow> business stmt" where [stmt_defs]:
  "get_business_by_id i = select_one (\<lambda>r. biz_id r = i) businesses"

definition get_business_by_name :: "string \<Rightarrow> business stmt" where [stmt_defs]:
  "get_business_by_name nm = select_one (\<lambda>r. biz_name r = nm) businesses"

definition get_customer_by_id :: "int64 \<Rightarrow> int64 \<Rightarrow> customer stmt" where [stmt_defs]:
  "get_customer_by_id i b = select_one (\<lambda>r. cus_id r = i \<and> cus_business r = b) customers"

definition get_invoice_by_id :: "int64 \<Rightarrow> int64 \<Rightarrow> invoice stmt" where [stmt_defs]:
  "get_invoice_by_id i b = select_one (\<lambda>r. inv_id r = i \<and> inv_business r = b) invoices"

definition list_api_keys_by_business_id :: "int64 \<Rightarrow> api_key list stmt" where [stmt_defs]:
  "list_api_keys_by_business_id b =
     select_many (\<lambda>r. key_business r = b) (\<lambda>r. - key_created r) api_keys"

definition list_customers_by_business_id :: "int64 \<Rightarrow> customer list stmt" where [stmt_defs]:
  "list_customers_by_business_id b =
     select_many (\<lambda>r. cus_business r = b) (\<lambda>r. - cus_created r) customers"

definition list_invoice_items_by_invoice_id :: "int64 \<Rightarrow> invoice_item list stmt" where [stmt_defs]:
  "list_invoice_items_by_invoice_id i =
     select_many (\<lambda>r. itm_invoice r = i) (\<lambda>r. sint (itm_id r)) invoice_items"

definition list_invoice_items_by_invoice_ids ::
  "int64 list \<Rightarrow> invoice_item list stmt" where [stmt_defs]:
  "list_invoice_items_by_invoice_ids is =
     select_many (\<lambda>r. itm_invoice r \<in> set is) (\<lambda>r. sint (itm_id r)) invoice_items"

definition list_invoices_by_business_id :: "int64 \<Rightarrow> invoice list stmt" where [stmt_defs]:
  "list_invoices_by_business_id b =
     select_many (\<lambda>r. inv_business r = b) (\<lambda>r. - inv_created r) invoices"

definition update_invoice_state ::
  "instant \<Rightarrow> int64 \<Rightarrow> int64 \<Rightarrow> invoice_state \<Rightarrow> invoice stmt" where [stmt_defs]:
  "update_invoice_state now i b st =
     update_one (\<lambda>r. inv_id r = i \<and> inv_business r = b)
       (\<lambda>r. r\<lparr>inv_state := st, inv_updated := now\<rparr>)
       invoices (\<lambda>t d. d\<lparr>invoices := t\<rparr>)"

text \<open>The invoice of a business with an id, if it has one.\<close>

definition lookup_invoice :: "int64 \<Rightarrow> int64 \<Rightarrow> database \<Rightarrow> invoice option" where
  "lookup_invoice b ivc d = find (\<lambda>r. inv_id r = ivc \<and> inv_business r = b) (invoices d)"

section \<open>payment.sql.go\<close>

text \<open>\<open>jsonb\<close> is what PostgreSQL makes of a JSON document when it stores it in a JSONB column.\<close>

definition complete_idempotency_key ::
  "(json \<Rightarrow> json) \<Rightarrow> instant \<Rightarrow> int64 \<Rightarrow> int32 \<Rightarrow> json \<Rightarrow> idempotency_key stmt" where [stmt_defs]:
  "complete_idempotency_key jsonb now i rs body =
     update_one (\<lambda>r. idm_id r = i \<and> idm_status r = IdemPROCESSING)
       (\<lambda>r. r\<lparr>idm_status := IdemCOMPLETED, idm_response_status := Some rs,
             idm_response_body := Some (jsonb body), idm_updated := now\<rparr>)
       idempotency_keys (\<lambda>t d. d\<lparr>idempotency_keys := t\<rparr>)"

definition create_idempotency_key ::
  "instant \<Rightarrow> int64 \<Rightarrow> int64 \<Rightarrow> string \<Rightarrow> string \<Rightarrow> idempotency_key stmt" where [stmt_defs]:
  "create_idempotency_key now i b key hash d =
     insert_one
       [(\<not> occurs idm_id i (idempotency_keys d), UniqueViolation ''idempotency_keys_pkey''),
        (\<not> occurs (\<lambda>r. (idm_business r, idm_key r)) (b, key) (idempotency_keys d),
           UniqueViolation ''uq_idempotency_keys_business_key''),
        (occurs biz_id b (businesses d), ForeignKeyViolation ''idempotency_keys_business_id_fkey'')]
       \<lparr>idm_id = i, idm_business = b, idm_key = key, idm_hash = hash,
        idm_status = IdemPROCESSING, idm_response_status = None, idm_response_body = None,
        idm_created = now, idm_updated = now\<rparr>
       idempotency_keys (\<lambda>t d. d\<lparr>idempotency_keys := t\<rparr>) d"

definition create_payment_attempt ::
  "instant \<Rightarrow> int64 \<Rightarrow> int64 \<Rightarrow> int64 \<Rightarrow> int64 \<Rightarrow> payment_attempt stmt" where [stmt_defs]:
  "create_payment_attempt now i ivc idem req d =
     insert_one
       [(\<not> occurs att_id i (payment_attempts d), UniqueViolation ''payment_attempts_pkey''),
        (\<not> occurs att_idem idem (payment_attempts d),
           UniqueViolation ''uq_payment_attempts_idempotency_key_id''),
        (\<not> occurs att_psp_request req (payment_attempts d),
           UniqueViolation ''uq_payment_attempts_psp_request_id''),
        (\<not> occurs att_invoice ivc (filter unresolved (payment_attempts d)),
           UniqueViolation ''uq_payment_attempts_unresolved_invoice''),
        (occurs inv_id ivc (invoices d), ForeignKeyViolation ''payment_attempts_invoice_id_fkey''),
        (occurs idm_id idem (idempotency_keys d),
           ForeignKeyViolation ''payment_attempts_idempotency_key_id_fkey'')]
       \<lparr>att_id = i, att_invoice = ivc, att_idem = idem, att_status = PROCESSING,
        att_psp_request = req, att_psp_ref = None, att_failure_code = None,
        att_failure_reason = None, att_requested = Some now, att_responded = None,
        att_created = now, att_updated = now\<rparr>
       payment_attempts (\<lambda>t d. d\<lparr>payment_attempts := t\<rparr>) d"

definition get_idempotency_key :: "int64 \<Rightarrow> string \<Rightarrow> idempotency_key stmt" where [stmt_defs]:
  "get_idempotency_key b key =
     select_one (\<lambda>r. idm_business r = b \<and> idm_key r = key) idempotency_keys"

definition get_invoice_for_payment :: "int64 \<Rightarrow> int64 \<Rightarrow> invoice stmt" where [stmt_defs]:
  "get_invoice_for_payment i b = select_one (\<lambda>r. inv_id r = i \<and> inv_business r = b) invoices"

definition get_payment_attempt_by_idempotency_key_id ::
  "int64 \<Rightarrow> payment_attempt stmt" where [stmt_defs]:
  "get_payment_attempt_by_idempotency_key_id i =
     select_one (\<lambda>r. att_idem r = i) payment_attempts"

definition mark_invoice_paid :: "instant \<Rightarrow> int64 \<Rightarrow> int64 \<Rightarrow> invoice stmt" where [stmt_defs]:
  "mark_invoice_paid now i b =
     update_one (\<lambda>r. inv_id r = i \<and> inv_business r = b \<and> inv_state r = OPEN)
       (\<lambda>r. r\<lparr>inv_state := PAID, inv_updated := now\<rparr>)
       invoices (\<lambda>t d. d\<lparr>invoices := t\<rparr>)"

definition mark_payment_attempt_failed ::
  "instant \<Rightarrow> int64 \<Rightarrow> string \<Rightarrow> string \<Rightarrow> payment_attempt stmt" where [stmt_defs]:
  "mark_payment_attempt_failed now i code reason =
     update_one (\<lambda>r. att_id r = i \<and> att_status r = PROCESSING)
       (\<lambda>r. r\<lparr>att_status := FAILED, att_failure_code := Some code,
             att_failure_reason := Some reason, att_responded := Some now, att_updated := now\<rparr>)
       payment_attempts (\<lambda>t d. d\<lparr>payment_attempts := t\<rparr>)"

definition mark_payment_attempt_succeeded ::
  "instant \<Rightarrow> int64 \<Rightarrow> string \<Rightarrow> payment_attempt stmt" where [stmt_defs]:
  "mark_payment_attempt_succeeded now i ref =
     update_one (\<lambda>r. att_id r = i \<and> att_status r = PROCESSING)
       (\<lambda>r. r\<lparr>att_status := SUCCEEDED, att_psp_ref := Some ref, att_responded := Some now,
             att_updated := now\<rparr>)
       payment_attempts (\<lambda>t d. d\<lparr>payment_attempts := t\<rparr>)"

definition mark_payment_attempt_unknown ::
  "instant \<Rightarrow> int64 \<Rightarrow> string \<Rightarrow> payment_attempt stmt" where [stmt_defs]:
  "mark_payment_attempt_unknown now i reason =
     update_one (\<lambda>r. att_id r = i \<and> att_status r = PROCESSING)
       (\<lambda>r. r\<lparr>att_status := UNKNOWN, att_failure_reason := Some reason, att_updated := now\<rparr>)
       payment_attempts (\<lambda>t d. d\<lparr>payment_attempts := t\<rparr>)"

section \<open>webhook.sql.go\<close>

text \<open>
  The claiming statement: the due rows that no other transaction has locked (\<open>SKIP LOCKED\<close>,
  \<open>locked\<close> says which ids are), earliest first, at most \<open>limit\<close>; each becomes PROCESSING with a
  new lease and one more attempt. The rows come back joined with their endpoint's URL and secret.
\<close>

type_synonym claimed_delivery = "webhook_delivery \<times> string \<times> string"

definition delivery_due :: "instant \<Rightarrow> webhook_delivery \<Rightarrow> bool" where
  "delivery_due now r \<longleftrightarrow>
     (whd_status r = DlvPENDING \<and> whd_next r \<le> now)
     \<or> (whd_status r = DlvPROCESSING \<and> whd_next r \<le> now)"

definition due_deliveries ::
  "(int64 \<Rightarrow> bool) \<Rightarrow> instant \<Rightarrow> int32 \<Rightarrow> database \<Rightarrow> webhook_delivery list" where
  "due_deliveries locked now limit d =
     take (nat (sint limit))
       (sort_key whd_next
         (filter (\<lambda>r. delivery_due now r \<and> \<not> locked (whd_id r)) (webhook_deliveries d)))"

definition claim_delivery :: "instant \<Rightarrow> webhook_delivery \<Rightarrow> webhook_delivery" where
  "claim_delivery lease r =
     r\<lparr>whd_status := DlvPROCESSING, whd_next := lease, whd_attempts := whd_attempts r + 1\<rparr>"

definition join_endpoint :: "database \<Rightarrow> webhook_delivery \<Rightarrow> claimed_delivery list" where
  "join_endpoint d r =
     (case find (\<lambda>e. whe_id e = whd_endpoint r) (webhook_endpoints d) of
        Some e \<Rightarrow> [(r, whe_url e, whe_secret e)]
      | None \<Rightarrow> [])"

definition claim_due_webhook_deliveries ::
  "(int64 \<Rightarrow> bool) \<Rightarrow> instant \<Rightarrow> int32 \<Rightarrow> instant \<Rightarrow> claimed_delivery list stmt" where [stmt_defs]:
  "claim_due_webhook_deliveries locked now limit lease d =
     (let due = due_deliveries locked now limit d;
          matched = (\<lambda>r. whd_id r \<in> whd_id ` set due
                         \<and> occurs whe_id (whd_endpoint r) (webhook_endpoints d))
      in if list_ex (\<lambda>r. whd_attempts r = 0x7FFFFFFF) due then Inl IntegerOutOfRange
         else Inr (concat (map (\<lambda>r. join_endpoint d (claim_delivery lease r)) due),
                d\<lparr>webhook_deliveries :=
                    update_where matched (claim_delivery lease) (webhook_deliveries d)\<rparr>))"

definition create_webhook_delivery ::
  "(json \<Rightarrow> json) \<Rightarrow> instant \<Rightarrow> int64 \<Rightarrow> int64 \<Rightarrow> int64 \<Rightarrow> event_type \<Rightarrow> json
   \<Rightarrow> webhook_delivery stmt" where [stmt_defs]:
  "create_webhook_delivery jsonb now i ep ivc ev payload d =
     insert_one
       [(\<not> occurs whd_id i (webhook_deliveries d), UniqueViolation ''webhook_deliveries_pkey''),
        (occurs whe_id ep (webhook_endpoints d),
           ForeignKeyViolation ''webhook_deliveries_webhook_endpoint_id_fkey''),
        (occurs inv_id ivc (invoices d),
           ForeignKeyViolation ''webhook_deliveries_invoice_id_fkey'')]
       \<lparr>whd_id = i, whd_endpoint = ep, whd_invoice = ivc, whd_event = ev,
        whd_payload = jsonb payload, whd_status = DlvPENDING, whd_attempts = 0, whd_next = now,
        whd_error = None, whd_created = now, whd_delivered = None\<rparr>
       webhook_deliveries (\<lambda>t d. d\<lparr>webhook_deliveries := t\<rparr>) d"

definition create_webhook_endpoint ::
  "instant \<Rightarrow> int64 \<Rightarrow> int64 \<Rightarrow> string \<Rightarrow> string \<Rightarrow> webhook_endpoint stmt" where [stmt_defs]:
  "create_webhook_endpoint now i b u sec d =
     insert_one
       [(\<not> occurs whe_id i (webhook_endpoints d), UniqueViolation ''webhook_endpoints_pkey''),
        (occurs biz_id b (businesses d), ForeignKeyViolation ''webhook_endpoints_business_id_fkey'')]
       \<lparr>whe_id = i, whe_business = b, whe_url = u, whe_secret = sec, whe_active = True,
        whe_created = now, whe_updated = now\<rparr>
       webhook_endpoints (\<lambda>t d. d\<lparr>webhook_endpoints := t\<rparr>) d"

definition get_webhook_endpoint_by_id :: "int64 \<Rightarrow> int64 \<Rightarrow> webhook_endpoint stmt" where [stmt_defs]:
  "get_webhook_endpoint_by_id i b =
     select_one (\<lambda>r. whe_id r = i \<and> whe_business r = b) webhook_endpoints"

definition list_active_webhook_endpoints_by_business_id ::
  "int64 \<Rightarrow> webhook_endpoint list stmt" where [stmt_defs]:
  "list_active_webhook_endpoints_by_business_id b =
     select_many (\<lambda>r. whe_business r = b \<and> whe_active r) (\<lambda>r. sint (whe_id r)) webhook_endpoints"

definition list_webhook_endpoints_by_business_id ::
  "int64 \<Rightarrow> webhook_endpoint list stmt" where [stmt_defs]:
  "list_webhook_endpoints_by_business_id b =
     select_many (\<lambda>r. whe_business r = b) (\<lambda>r. - whe_created r) webhook_endpoints"

definition mark_webhook_delivery_delivered ::
  "instant \<Rightarrow> int64 \<Rightarrow> webhook_delivery stmt" where [stmt_defs]:
  "mark_webhook_delivery_delivered now i =
     update_one (\<lambda>r. whd_id r = i)
       (\<lambda>r. r\<lparr>whd_status := DlvDELIVERED, whd_delivered := Some now, whd_error := None\<rparr>)
       webhook_deliveries (\<lambda>t d. d\<lparr>webhook_deliveries := t\<rparr>)"

definition mark_webhook_delivery_exhausted ::
  "int64 \<Rightarrow> string \<Rightarrow> webhook_delivery stmt" where [stmt_defs]:
  "mark_webhook_delivery_exhausted i err =
     update_one (\<lambda>r. whd_id r = i)
       (\<lambda>r. r\<lparr>whd_status := DlvEXHAUSTED, whd_error := Some err\<rparr>)
       webhook_deliveries (\<lambda>t d. d\<lparr>webhook_deliveries := t\<rparr>)"

definition mark_webhook_delivery_retry ::
  "int64 \<Rightarrow> instant \<Rightarrow> string \<Rightarrow> webhook_delivery stmt" where [stmt_defs]:
  "mark_webhook_delivery_retry i nxt err =
     update_one (\<lambda>r. whd_id r = i)
       (\<lambda>r. r\<lparr>whd_status := DlvPENDING, whd_next := nxt, whd_error := Some err\<rparr>)
       webhook_deliveries (\<lambda>t d. d\<lparr>webhook_deliveries := t\<rparr>)"

end
