(* ===== verification/Integrity.thy ===== *)
theory Integrity
  imports Queries
begin

text \<open>
  Every statement of the query layer keeps the declared constraints: the database invariant
  \<open>db_ok\<close> is preserved, whatever the arguments. Updates that do not touch a constrained column
  are covered by one lemma per table.
\<close>

section \<open>A statement that preserves the constraints\<close>

definition keeps_ok :: "'a stmt \<Rightarrow> bool" where
  "keeps_ok st \<longleftrightarrow> (\<forall>d x d'. db_ok d \<longrightarrow> st d = Inr (x, d') \<longrightarrow> db_ok d')"

lemma keeps_okI:
  "(\<And>d x d'. db_ok d \<Longrightarrow> st d = Inr (x, d') \<Longrightarrow> db_ok d') \<Longrightarrow> keeps_ok st"
  by (auto simp: keeps_ok_def)

lemma keeps_okD: "keeps_ok st \<Longrightarrow> db_ok d \<Longrightarrow> st d = Inr (x, d') \<Longrightarrow> db_ok d'"
  by (auto simp: keeps_ok_def)

named_theorems keeps_ok_intros \<open>the statements known to preserve the constraints\<close>

lemma keeps_ok_select_one: "keeps_ok (select_one P table)"
  by (rule keeps_okI) (auto elim: select_one_InrE)

lemma keeps_ok_select_many: "keeps_ok (select_many P k table)"
  by (rule keeps_okI) (auto elim: select_many_InrE)

lemmas keeps_ok_select = keeps_ok_select_one keeps_ok_select_many

lemma keeps_ok_reads [keeps_ok_intros]:
  "keeps_ok (get_api_key_by_prefix p)" "keeps_ok (get_business_by_id i)"
  "keeps_ok (get_business_by_name nm)" "keeps_ok (get_customer_by_id i b)"
  "keeps_ok (get_invoice_by_id i b)" "keeps_ok (list_api_keys_by_business_id b)"
  "keeps_ok (list_customers_by_business_id b)" "keeps_ok (list_invoice_items_by_invoice_id i)"
  "keeps_ok (list_invoice_items_by_invoice_ids is)" "keeps_ok (list_invoices_by_business_id b)"
  "keeps_ok (get_idempotency_key b k)" "keeps_ok (get_invoice_for_payment i b)"
  "keeps_ok (get_payment_attempt_by_idempotency_key_id i)"
  "keeps_ok (get_webhook_endpoint_by_id i b)"
  "keeps_ok (list_active_webhook_endpoints_by_business_id b)"
  "keeps_ok (list_webhook_endpoints_by_business_id b)"
  by (simp_all add: stmt_defs keeps_ok_select)

section \<open>Inserts\<close>

lemmas insert_facts = db_ok_defs occurs_iff stmt_defs

lemma keeps_ok_create_api_key [keeps_ok_intros]: "keeps_ok (create_api_key now i b p h)"
  by (rule keeps_okI) (auto simp: insert_facts elim!: insert_one_InrE)

lemma keeps_ok_create_business [keeps_ok_intros]: "keeps_ok (create_business now i nm)"
  by (rule keeps_okI) (auto simp: insert_facts elim!: insert_one_InrE)

lemma keeps_ok_create_customer [keeps_ok_intros]: "keeps_ok (create_customer now i b nm em)"
  by (rule keeps_okI) (auto simp: insert_facts elim!: insert_one_InrE)

lemma keeps_ok_create_invoice [keeps_ok_intros]:
  "keeps_ok (create_invoice now i b c amount cur st due)"
  by (rule keeps_okI) (auto simp: insert_facts invoice_check_def elim!: insert_one_InrE)

lemma keeps_ok_create_invoice_item [keeps_ok_intros]:
  "keeps_ok (create_invoice_item now i v desc qty unit)"
  by (rule keeps_okI) (auto simp: insert_facts item_check_def elim!: insert_one_InrE)

lemma keeps_ok_create_idempotency_key [keeps_ok_intros]:
  "keeps_ok (create_idempotency_key now i b k h)"
  by (rule keeps_okI) (auto simp: insert_facts idem_check_def elim!: insert_one_InrE)

lemma keeps_ok_create_payment_attempt [keeps_ok_intros]:
  "keeps_ok (create_payment_attempt now i v idem req)"
  by (rule keeps_okI) (auto simp: insert_facts unresolved_def elim!: insert_one_InrE)

lemma keeps_ok_create_webhook_delivery [keeps_ok_intros]:
  "keeps_ok (create_webhook_delivery jb now i ep v ev pl)"
  by (rule keeps_okI) (auto simp: insert_facts delivery_check_def elim!: insert_one_InrE)

lemma keeps_ok_create_webhook_endpoint [keeps_ok_intros]:
  "keeps_ok (create_webhook_endpoint now i b u s)"
  by (rule keeps_okI) (auto simp: insert_facts elim!: insert_one_InrE)

section \<open>Updates\<close>

lemma map_update_where:
  "(\<And>r. c (f r) = c r) \<Longrightarrow> map c (update_where P f rows) = map c rows"
  by (simp add: update_where_def)

lemma image_update_where:
  "(\<And>r. c (f r) = c r) \<Longrightarrow> c ` set (update_where P f rows) = c ` set rows"
  using map_update_where [of c f P rows] by (metis list.set_map)

lemma set_update_where:
  "r \<in> set (update_where P f rows) \<longleftrightarrow> (\<exists>x \<in> set rows. r = (if P x then f x else x))"
  by (auto simp: update_where_def)

lemma list_all_update_where:
  "list_all C rows \<Longrightarrow> (\<And>r. P r \<Longrightarrow> C r \<Longrightarrow> C (f r)) \<Longrightarrow> list_all C (update_where P f rows)"
  by (auto simp: update_where_def list_all_iff)

text \<open>Restricting the rows to a class that the update can only leave keeps a column distinct.\<close>

lemma distinct_filter_update_where:
  assumes "distinct (map c (filter Q rows))" "\<And>r. c (f r) = c r"
    "\<And>r. P r \<Longrightarrow> Q (f r) \<Longrightarrow> Q r"
  shows "distinct (map c (filter Q (update_where P f rows)))"
  using assms(1)
proof (induction rows)
  case (Cons x rows)
  let ?x = "if P x then f x else x" and ?rows = "update_where P f rows"
  have sub: "c ` set (filter Q ?rows) \<subseteq> c ` set (filter Q rows)"
    using assms(2,3) by (fastforce simp: set_update_where)
  have x: "c ?x = c x" "Q ?x \<Longrightarrow> Q x"
    using assms(2,3) by (auto split: if_splits)
  have "distinct (map c (filter Q ?rows))"
    using Cons by (auto split: if_splits)
  moreover have "c ?x \<notin> c ` set (filter Q ?rows)" if "Q ?x"
    using Cons.prems x that sub by auto
  ultimately show ?case by (simp add: update_where_def)
qed (simp add: update_where_def)

text \<open>One lemma per updated table: the columns an update must not touch, and the check it keeps.\<close>

lemma db_ok_update_invoices:
  assumes "db_ok d"
    and "\<And>r. inv_id (f r) = inv_id r \<and> inv_business (f r) = inv_business r
              \<and> inv_customer (f r) = inv_customer r"
    and "\<And>r. invoice_check r \<Longrightarrow> invoice_check (f r)"
  shows "db_ok (d\<lparr>invoices := update_where P f (invoices d)\<rparr>)"
  using assms
  by (auto simp: db_ok_defs map_update_where image_update_where list_all_update_where
      set_update_where)

lemma db_ok_update_idempotency_keys:
  assumes "db_ok d"
    and "\<And>r. idm_id (f r) = idm_id r \<and> idm_business (f r) = idm_business r
              \<and> idm_key (f r) = idm_key r"
    and "\<And>r. P r \<Longrightarrow> idem_check r \<Longrightarrow> idem_check (f r)"
  shows "db_ok (d\<lparr>idempotency_keys := update_where P f (idempotency_keys d)\<rparr>)"
  using assms
  by (auto simp: db_ok_defs map_update_where image_update_where list_all_update_where
      set_update_where)

lemma db_ok_update_payment_attempts:
  assumes "db_ok d"
    and "\<And>r. att_id (f r) = att_id r \<and> att_invoice (f r) = att_invoice r
              \<and> att_idem (f r) = att_idem r \<and> att_psp_request (f r) = att_psp_request r"
    and "\<And>r. P r \<Longrightarrow> unresolved r"
  shows "db_ok (d\<lparr>payment_attempts := update_where P f (payment_attempts d)\<rparr>)"
  using assms
  by (auto simp: db_ok_defs map_update_where image_update_where set_update_where
      intro: distinct_filter_update_where)

lemma db_ok_update_webhook_deliveries:
  assumes "db_ok d"
    and "\<And>r. whd_id (f r) = whd_id r \<and> whd_endpoint (f r) = whd_endpoint r
              \<and> whd_invoice (f r) = whd_invoice r"
    and "\<And>r. r \<in> set (webhook_deliveries d) \<Longrightarrow> P r \<Longrightarrow> delivery_check r \<Longrightarrow> delivery_check (f r)"
  shows "db_ok (d\<lparr>webhook_deliveries := update_where P f (webhook_deliveries d)\<rparr>)"
proof -
  have "list_all delivery_check (update_where P f (webhook_deliveries d))"
    using assms(1,3) by (auto simp: db_ok_defs update_where_def list_all_iff)
  then show ?thesis
    using assms(1,2)
    by (auto simp: db_ok_defs map_update_where image_update_where set_update_where)
qed

lemmas db_ok_update =
  db_ok_update_invoices db_ok_update_idempotency_keys db_ok_update_payment_attempts
  db_ok_update_webhook_deliveries

lemma keeps_ok_updates [keeps_ok_intros]:
  "keeps_ok (update_invoice_state now i b st)"
  "keeps_ok (mark_invoice_paid now i b)"
  "keeps_ok (complete_idempotency_key jb now i rs body)"
  "keeps_ok (mark_payment_attempt_failed now i code reason)"
  "keeps_ok (mark_payment_attempt_succeeded now i ref)"
  "keeps_ok (mark_payment_attempt_unknown now i reason)"
  "keeps_ok (mark_webhook_delivery_delivered now i)"
  "keeps_ok (mark_webhook_delivery_exhausted i err)"
  "keeps_ok (mark_webhook_delivery_retry i nxt err)"
  by (rule keeps_okI, auto simp: stmt_defs invoice_check_def idem_check_def unresolved_def
      delivery_check_def elim!: update_one_InrE intro!: db_ok_update)+

lemma due_deliveries_mem:
  "r \<in> set (due_deliveries locked now limit d) \<Longrightarrow>
   r \<in> set (webhook_deliveries d) \<and> delivery_due now r \<and> \<not> locked (whd_id r)"
  by (auto simp: due_deliveries_def dest: in_set_takeD)

lemma due_deliveries_by_id:
  assumes "db_ok d" "r \<in> set (webhook_deliveries d)"
    "whd_id r \<in> whd_id ` set (due_deliveries locked now limit d)"
  shows "r \<in> set (due_deliveries locked now limit d)"
proof -
  obtain r' where r': "r' \<in> set (due_deliveries locked now limit d)" "whd_id r' = whd_id r"
    using assms(3) by auto
  have "distinct (map whd_id (webhook_deliveries d))"
    using assms(1) by (simp add: db_ok_defs)
  then have "r' = r"
    using due_deliveries_mem [OF r'(1)] assms(2) r'(2) distinct_map_eqD by metis
  with r' show ?thesis by simp
qed

lemma keeps_ok_claim_due [keeps_ok_intros]:
  "keeps_ok (claim_due_webhook_deliveries locked now limit lease)"
proof (rule keeps_okI)
  fix d :: database and x d'
  let ?due = "due_deliveries locked now limit d"
  let ?P = "\<lambda>r. whd_id r \<in> whd_id ` set ?due
                         \<and> occurs whe_id (whd_endpoint r) (webhook_endpoints d)"
  assume ok: "db_ok d" and eq: "claim_due_webhook_deliveries locked now limit lease d = Inr (x, d')"
  have small: "\<forall>r \<in> set ?due. whd_attempts r \<noteq> 0x7FFFFFFF"
    and d': "d' = d\<lparr>webhook_deliveries :=
                    update_where ?P (claim_delivery lease) (webhook_deliveries d)\<rparr>"
    using eq
    by (simp_all add: claim_due_webhook_deliveries_def Let_def list_ex_iff split: if_splits)
  show "db_ok d'"
    unfolding d'
  proof (rule db_ok_update_webhook_deliveries [OF ok])
    fix r assume r: "r \<in> set (webhook_deliveries d)" "?P r" "delivery_check r"
    then have "r \<in> set ?due" using due_deliveries_by_id [OF ok] by blast
    with small r(3) show "delivery_check (claim_delivery lease r)"
      by (simp add: delivery_check_def claim_delivery_def int32_succ_nonneg)
  qed (simp add: claim_delivery_def)
qed

end
