(* ===== verification/Session.thy ===== *)
theory Session
  imports Integrity Public_Id Psp
begin

text \<open>
  What a handler runs in: the outside world as parameters (\<open>env\<close>), the state it changes
  (\<open>world\<close>), statements against the pool or an open transaction, transactions, and HTTP replies.

  Any call to the server may fail: \<open>Dropped\<close> means that it was not executed, \<open>Lost\<close> that it was
  executed but its answer did not arrive (a broken connection, a cancelled context, a rejected
  value). On the pool each statement commits by itself. In a transaction an error aborts it:
  PostgreSQL then refuses every further statement, and \<open>Commit\<close> rolls back and reports an error.
  \<open>NoRows\<close> is not a server error and aborts nothing.
\<close>

section \<open>Parameters and state\<close>

datatype outcome = Answered | Dropped | Lost

text \<open>
  A webhook delivery as an HTTP request, and what comes of it: the request cannot be built, no
  answer arrives, or one with a status.
\<close>

record hook_request =
  hk_url :: string
  hk_timestamp :: string
  hk_signature :: string
  hk_payload :: string

datatype hook_reply = BadHookRequest string | HookTransportError string | HookStatus nat

text \<open>
  The parameters, in the order: HMAC-SHA256 and SHA-256; what PostgreSQL makes of a JSON document
  it stores, and the text it gives back for it; the RFC 3339 form of an instant; the address part
  that \<open>mail.ParseAddress\<close> finds, and the scheme and host that \<open>url.ParseRequestURI\<close> finds; the
  codec's secret; the generator's ids by position; the outcome of each call to the server and the
  rows other transactions have locked at that call; the time that has passed within a batch of the
  worker, by the number of calls made and the reading; the provider's transport and the webhook
  receivers, by the number of earlier requests to them.
\<close>

record env =
  env_hmac :: "string \<Rightarrow> string \<Rightarrow> string"
  env_sha256 :: "string \<Rightarrow> string"
  env_jsonb :: "json \<Rightarrow> json"
  env_render :: "json \<Rightarrow> string"
  env_rfc3339 :: "instant \<Rightarrow> string"
  env_mail :: "string \<Rightarrow> string option"
  env_uri :: "string \<Rightarrow> (string \<times> string) option"
  env_codec :: codec
  env_ids :: "nat \<Rightarrow> int64"
  env_outcome :: "nat \<Rightarrow> outcome"
  env_locked :: "nat \<Rightarrow> int64 \<Rightarrow> bool"
  env_elapsed :: "nat \<Rightarrow> nat \<Rightarrow> int"
  env_psp_client :: psp_client
  env_psp :: "nat \<Rightarrow> transport"
  env_hook :: "nat \<Rightarrow> hook_request \<Rightarrow> hook_reply"

text \<open>
  The state: the committed database; the open transaction's database and whether it is aborted;
  how many ids were drawn and how many calls made; the requests sent to the provider; the requests
  sent to webhook receivers, each with the id of the delivery it was sent for, which the request
  itself does not carry; the server's and the process's clocks.
\<close>

record world =
  w_db :: database
  w_tx :: "(database \<times> bool) option"
  w_ids :: nat
  w_calls :: nat
  w_psp :: "charge_request list"
  w_hooks :: "(int64 \<times> hook_request) list"
  w_dbnow :: instant
  w_now :: instant

definition gen_id :: "env \<Rightarrow> world \<Rightarrow> int64 \<times> world" where
  "gen_id E w = (env_ids E (w_ids w), w\<lparr>w_ids := Suc (w_ids w)\<rparr>)"

section \<open>Statements\<close>

datatype conn = Pool | Tx

definition run_pool ::
  "env \<Rightarrow> 'a stmt \<Rightarrow> world \<Rightarrow> (db_error + 'a) \<times> world" where
  "run_pool E st w =
     (let w' = w\<lparr>w_calls := Suc (w_calls w)\<rparr> in
      case (env_outcome E (w_calls w), st (w_db w)) of
        (Answered, Inl e) \<Rightarrow> (Inl e, w')
      | (Answered, Inr (x, d)) \<Rightarrow> (Inr x, w'\<lparr>w_db := d\<rparr>)
      | (Lost, Inr (x, d)) \<Rightarrow> (Inl Unavailable, w'\<lparr>w_db := d\<rparr>)
      | _ \<Rightarrow> (Inl Unavailable, w'))"

definition run_tx ::
  "env \<Rightarrow> 'a stmt \<Rightarrow> world \<Rightarrow> (db_error + 'a) \<times> world" where
  "run_tx E st w =
     (let w' = w\<lparr>w_calls := Suc (w_calls w)\<rparr> in
      case w_tx w of
        None \<Rightarrow> (Inl TxAborted, w')
      | Some (d, True) \<Rightarrow> (Inl TxAborted, w')
      | Some (d, False) \<Rightarrow>
          (case (env_outcome E (w_calls w), st d) of
             (Answered, Inl NoRows) \<Rightarrow> (Inl NoRows, w')
           | (Answered, Inl e) \<Rightarrow> (Inl e, w'\<lparr>w_tx := Some (d, True)\<rparr>)
           | (Answered, Inr (x, d')) \<Rightarrow> (Inr x, w'\<lparr>w_tx := Some (d', False)\<rparr>)
           | _ \<Rightarrow> (Inl Unavailable, w'\<lparr>w_tx := Some (d, True)\<rparr>)))"

definition query :: "env \<Rightarrow> conn \<Rightarrow> 'a stmt \<Rightarrow> world \<Rightarrow> (db_error + 'a) \<times> world" where
  "query E c = (case c of Pool \<Rightarrow> run_pool E | Tx \<Rightarrow> run_tx E)"

section \<open>Transactions\<close>

definition begin_tx :: "env \<Rightarrow> world \<Rightarrow> (db_error + unit) \<times> world" where
  "begin_tx E w =
     (let w' = w\<lparr>w_calls := Suc (w_calls w)\<rparr> in
      if env_outcome E (w_calls w) = Answered then (Inr (), w'\<lparr>w_tx := Some (w_db w, False)\<rparr>)
      else (Inl Unavailable, w'))"

definition rollback :: "world \<Rightarrow> world" where
  "rollback w = w\<lparr>w_tx := None\<rparr>"

definition commit :: "env \<Rightarrow> world \<Rightarrow> (db_error + unit) \<times> world" where
  "commit E w =
     (let w' = w\<lparr>w_calls := Suc (w_calls w), w_tx := None\<rparr> in
      case w_tx w of
        Some (d, False) \<Rightarrow>
          (case env_outcome E (w_calls w) of
             Answered \<Rightarrow> (Inr (), w'\<lparr>w_db := d\<rparr>)
           | Dropped \<Rightarrow> (Inl Unavailable, w')
           | Lost \<Rightarrow> (Inl Unavailable, w'\<lparr>w_db := d\<rparr>))
      | _ \<Rightarrow> (Inl TxAborted, w'))"

text \<open>
  The shape all transactions of the code share (\<open>PgxTransactor.WithTx\<close>, and \<open>claim\<close> and
  \<open>finalize\<close> of the payment handler): begin, run a body, roll back on an error (the deferred
  \<open>Rollback\<close>), commit otherwise. \<open>emb\<close> embeds a database error into the body's errors.
\<close>

definition with_tx ::
  "env \<Rightarrow> (db_error \<Rightarrow> 'e) \<Rightarrow> (world \<Rightarrow> ('e + 'a) \<times> world) \<Rightarrow> world \<Rightarrow> ('e + 'a) \<times> world" where
  "with_tx E emb body w =
     (case begin_tx E w of
        (Inl e, w1) \<Rightarrow> (Inl (emb e), w1)
      | (Inr _, w1) \<Rightarrow>
          (case body w1 of
             (Inl e, w2) \<Rightarrow> (Inl e, rollback w2)
           | (Inr x, w2) \<Rightarrow>
               (case commit E w2 of
                  (Inl e, w3) \<Rightarrow> (Inl (emb e), w3)
                | (Inr _, w3) \<Rightarrow> (Inr x, w3))))"

section \<open>How transactions go\<close>

text \<open>A state of an open transaction: holding the uncommitted database, or aborted.\<close>

definition in_tx :: "world \<Rightarrow> database \<Rightarrow> bool" where
  "in_tx w d \<longleftrightarrow> w_tx w = Some (d, False)"

definition tx_dead :: "world \<Rightarrow> bool" where
  "tx_dead w \<longleftrightarrow> (\<exists>d. w_tx w = Some (d, True))"

text \<open>One statement of a transaction: it succeeds, finds no row, or aborts the transaction.\<close>

lemma run_txE:
  assumes "run_tx E st w = (r, w')" "in_tx w d"
  obtains (ok) x d' where "st d = Inr (x, d')" "r = Inr x" "in_tx w' d'"
    "w' = w\<lparr>w_calls := Suc (w_calls w), w_tx := Some (d', False)\<rparr>"
  | (none) "st d = Inl NoRows" "r = Inl NoRows" "in_tx w' d"
    "w' = w\<lparr>w_calls := Suc (w_calls w)\<rparr>"
  | (dead) e where "r = Inl e" "e \<noteq> NoRows" "st d = Inl e \<or> e = Unavailable" "tx_dead w'"
    "w' = w\<lparr>w_calls := Suc (w_calls w), w_tx := Some (d, True)\<rparr>"
  using assms
  by (auto simp: run_tx_def in_tx_def tx_dead_def Let_def
      split: outcome.splits sum.splits db_error.splits)

lemma run_tx_dead: "tx_dead w \<Longrightarrow> run_tx E st w = (Inl TxAborted, w\<lparr>w_calls := Suc (w_calls w)\<rparr>)"
  by (auto simp: run_tx_def tx_dead_def)

lemma commit_dead: "tx_dead w \<Longrightarrow> fst (commit E w) = Inl TxAborted \<and> w_db (snd (commit E w)) = w_db w"
  by (auto simp: commit_def tx_dead_def Let_def)

text \<open>Nothing outside the transaction moves while its body runs, except the id generator.\<close>

definition body_frame :: "world \<Rightarrow> world \<Rightarrow> bool" where
  "body_frame w w' \<longleftrightarrow> w_db w' = w_db w \<and> w_psp w' = w_psp w \<and> w_dbnow w' = w_dbnow w
     \<and> w_now w' = w_now w"

lemma body_frame_refl: "body_frame w w"
  by (simp add: body_frame_def)

lemma body_frame_upd [simp]:
  "body_frame w (w'\<lparr>w_calls := k\<rparr>) = body_frame w w'"
  "body_frame w (w'\<lparr>w_tx := t\<rparr>) = body_frame w w'"
  "body_frame w (w'\<lparr>w_ids := i\<rparr>) = body_frame w w'"
  by (simp_all add: body_frame_def)

lemma body_frame_trans: "body_frame w w' \<Longrightarrow> body_frame w' w'' \<Longrightarrow> body_frame w w''"
  by (simp add: body_frame_def)

lemma query_Tx: "query E Tx = run_tx E"
  by (simp add: query_def)

lemma commitE:
  assumes "commit E w = (r, w')"
  obtains (ok) d where "in_tx w d" "r = Inr ()"
    "w' = w\<lparr>w_calls := Suc (w_calls w), w_tx := None, w_db := d\<rparr>"
  | (lost) d where "in_tx w d" "r = Inl Unavailable"
    "w' = w\<lparr>w_calls := Suc (w_calls w), w_tx := None, w_db := d\<rparr>"
  | (failed) e where "r = Inl e" "e \<in> {Unavailable, TxAborted}"
    "w' = w\<lparr>w_calls := Suc (w_calls w), w_tx := None\<rparr>"
  using assms
  by (auto simp: commit_def in_tx_def Let_def split: option.splits bool.splits outcome.splits)

text \<open>
  A whole transaction: it did not begin; its body gave an error and nothing is kept; it
  committed, with or without the answer arriving; or the commit failed and nothing is kept.
\<close>

lemma with_txE:
  assumes "with_tx E emb body w = (r, w')"
  obtains (no_begin) "r = Inl (emb Unavailable)" "w' = w\<lparr>w_calls := Suc (w_calls w)\<rparr>"
  | (error) e w2 where
      "body (w\<lparr>w_calls := Suc (w_calls w), w_tx := Some (w_db w, False)\<rparr>) = (Inl e, w2)"
      "r = Inl e" "w' = w2\<lparr>w_tx := None\<rparr>"
  | (committed) x w2 d where
      "body (w\<lparr>w_calls := Suc (w_calls w), w_tx := Some (w_db w, False)\<rparr>) = (Inr x, w2)"
      "in_tx w2 d" "w' = w2\<lparr>w_calls := Suc (w_calls w2), w_tx := None, w_db := d\<rparr>"
      "r = Inr x \<or> r = Inl (emb Unavailable)"
  | (failed) x w2 e where
      "body (w\<lparr>w_calls := Suc (w_calls w), w_tx := Some (w_db w, False)\<rparr>) = (Inr x, w2)"
      "r = Inl (emb e)" "e \<in> {Unavailable, TxAborted}"
      "w' = w2\<lparr>w_calls := Suc (w_calls w2), w_tx := None\<rparr>"
proof -
  let ?w = "w\<lparr>w_calls := Suc (w_calls w), w_tx := Some (w_db w, False)\<rparr>"
  show ?thesis
  proof (cases "env_outcome E (w_calls w) = Answered")
    case True
    then have b: "begin_tx E w = (Inr (), ?w)" by (simp add: begin_tx_def Let_def)
    obtain r2 w2 where body: "body ?w = (r2, w2)" by fastforce
    show ?thesis
    proof (cases r2)
      case (Inl e)
      with assms b body error show ?thesis
        by (auto simp: with_tx_def rollback_def)
    next
      case (Inr x)
      obtain r3 w3 where c: "commit E w2 = (r3, w3)" by fastforce
      from c show ?thesis
        by (cases rule: commitE)
          (use assms b body Inr c committed failed in \<open>auto simp: with_tx_def\<close>)
    qed
  qed (use assms no_begin in \<open>auto simp: with_tx_def begin_tx_def Let_def\<close>)
qed

lemma begun_in_tx: "in_tx (w\<lparr>w_calls := k, w_tx := Some (d, False)\<rparr>) d"
  by (simp add: in_tx_def)

text \<open>One statement on the pool: it took effect, with or without the answer arriving, or not.\<close>

lemma run_poolE:
  assumes "run_pool E st w = (r, w')"
  obtains (ok) x d' where "st (w_db w) = Inr (x, d')" "r = Inr x \<or> r = Inl Unavailable"
    "w' = w\<lparr>w_calls := Suc (w_calls w), w_db := d'\<rparr>"
  | (refused) e where "st (w_db w) = Inl e" "r = Inl e"
    "w' = w\<lparr>w_calls := Suc (w_calls w)\<rparr>"
  | (failed) "r = Inl Unavailable" "w' = w\<lparr>w_calls := Suc (w_calls w)\<rparr>"
  using assms
  by (auto simp: run_pool_def Let_def split: outcome.splits sum.splits)

text \<open>Reading on the pool changes nothing.\<close>

definition same_data :: "world \<Rightarrow> world \<Rightarrow> bool" where
  "same_data w w' \<longleftrightarrow> w_db w' = w_db w \<and> w_tx w' = w_tx w \<and> w_psp w' = w_psp w
     \<and> w_hooks w' = w_hooks w \<and> w_ids w' = w_ids w \<and> w_dbnow w' = w_dbnow w \<and> w_now w' = w_now w"

lemma same_data_refl: "same_data w w"
  by (simp add: same_data_def)

lemma same_data_trans: "same_data w w' \<Longrightarrow> same_data w' w'' \<Longrightarrow> same_data w w''"
  by (simp add: same_data_def)

lemma select_pool:
  assumes "query E Pool (select_one P table) w = (r, w')"
  shows "same_data w w' \<and>
    (case r of
       Inr x \<Rightarrow> find P (table (w_db w)) = Some x
     | Inl NoRows \<Rightarrow> find P (table (w_db w)) = None
     | Inl _ \<Rightarrow> True)"
proof -
  from assms have "run_pool E (select_one P table) w = (r, w')" by (simp add: query_def)
  then show ?thesis
    by (cases rule: run_poolE)
      (auto simp: select_one_def same_data_def split: option.splits db_error.split)
qed

lemma select_many_pool:
  assumes "query E Pool (select_many P k table) w = (r, w')"
  shows "same_data w w' \<and>
    (\<forall>xs. r = Inr xs \<longrightarrow> xs = sort_key k (filter P (table (w_db w))))"
proof -
  from assms have "run_pool E (select_many P k table) w = (r, w')" by (simp add: query_def)
  then show ?thesis
    by (cases rule: run_poolE) (auto simp: select_many_def same_data_def)
qed

section \<open>Public ids\<close>

definition enc_id :: "env \<Rightarrow> string \<Rightarrow> int64 \<Rightarrow> publicid_error + string" where
  "enc_id E p i = encode (env_hmac E) (env_codec E) p i"

definition dec_id :: "env \<Rightarrow> string \<Rightarrow> string \<Rightarrow> publicid_error + int64" where
  "dec_id E p s = decode (env_hmac E) (env_codec E) p s"

text \<open>Where the code drops the error of \<open>Encode\<close>, it goes on with the empty string.\<close>

definition enc_id_or_empty :: "env \<Rightarrow> string \<Rightarrow> int64 \<Rightarrow> string" where
  "enc_id_or_empty E p i = (case enc_id E p i of Inl _ \<Rightarrow> [] | Inr s \<Rightarrow> s)"

lemma dec_enc_id_or_empty: "plain_prefix p \<Longrightarrow> dec_id E p (enc_id_or_empty E p i) = Inr i"
  using pid.enc_total [of p "env_hmac E" "env_codec E" i] pid.dec_enc
  by (auto simp: enc_id_or_empty_def enc_id_def dec_id_def)

section \<open>HTTP replies\<close>

text \<open>
  A handler's answer: a status with its body, or the error envelope of
  \<open>middleware.NewErrorResponse\<close> with a status.
\<close>

record api_error =
  err_code :: string
  err_message :: string

definition new_error_response :: "string \<Rightarrow> string \<Rightarrow> api_error" where
  "new_error_response code message = \<lparr>err_code = code, err_message = message\<rparr>"

datatype 'a reply = Reply nat 'a | ErrorReply nat api_error

definition fail_with :: "nat \<Rightarrow> string \<Rightarrow> string \<Rightarrow> 'a reply" where
  "fail_with status code message = ErrorReply status (new_error_response code message)"

section \<open>Relations that the operations respect\<close>

text \<open>
  A reflexive and transitive relation between worlds holds between the start and the end of a
  program if it holds across its statements. The rules follow the shapes the definitions use:
  continue on a result and stop on an error, branch, draw an id.
\<close>

named_theorems step_intros \<open>how a step relation is carried through a program\<close>

locale step_relation =
  fixes step :: "world \<Rightarrow> world \<Rightarrow> bool"
  assumes refl: "step w w"
    and trans: "step w w' \<Longrightarrow> step w' w'' \<Longrightarrow> step w w''"
begin

lemma ret [step_intros]: "step w (snd (r, w))"
  by (simp add: refl)

lemma bind [step_intros]:
  "step w (snd m) \<Longrightarrow> (\<And>e w1. step w1 (snd (f e w1))) \<Longrightarrow> (\<And>x w1. step w1 (snd (g x w1)))
   \<Longrightarrow> step w (snd (case m of (Inl e, w1) \<Rightarrow> f e w1 | (Inr x, w1) \<Rightarrow> g x w1))"
  by (cases m) (auto split: sum.split intro: trans)

lemma bind_pair [step_intros]:
  "step w (snd m) \<Longrightarrow> (\<And>e w1. step w1 (snd (f e w1))) \<Longrightarrow> (\<And>x y w1. step w1 (snd (g x y w1)))
   \<Longrightarrow> step w (snd (case m of (Inl e, w1) \<Rightarrow> f e w1 | (Inr (x, y), w1) \<Rightarrow> g x y w1))"
  by (cases m) (auto split: sum.split intro: trans)

lemma andThen:
  "step w (snd m) \<Longrightarrow> (\<And>x w1. step w1 (snd (g x w1)))
   \<Longrightarrow> step w (snd (case m of (x, w1) \<Rightarrow> g x w1))"
  by (cases m) (auto intro: trans)

lemma cond [step_intros]:
  "step w (snd a) \<Longrightarrow> step w (snd b) \<Longrightarrow> step w (snd (if c then a else b))"
  by simp

lemma case_opt [step_intros]:
  "step w (snd a) \<Longrightarrow> (\<And>x. step w (snd (f x)))
   \<Longrightarrow> step w (snd (case v of None \<Rightarrow> a | Some x \<Rightarrow> f x))"
  by (cases v) auto

lemma case_either [step_intros]:
  "(\<And>x. step w (snd (f x))) \<Longrightarrow> (\<And>x. step w (snd (g x)))
   \<Longrightarrow> step w (snd (case v of Inl x \<Rightarrow> f x | Inr x \<Rightarrow> g x))"
  by (cases v) auto

lemma case_list [step_intros]:
  "step w (snd a) \<Longrightarrow> (\<And>x xs. step w (snd (f x xs)))
   \<Longrightarrow> step w (snd (case v of [] \<Rightarrow> a | x # xs \<Rightarrow> f x xs))"
  by (cases v) auto

lemma case_state [step_intros]:
  "step w (snd a) \<Longrightarrow> step w (snd b) \<Longrightarrow> step w (snd c) \<Longrightarrow> step w (snd d) \<Longrightarrow> step w (snd e)
   \<Longrightarrow> step w (snd (case v of DRAFT \<Rightarrow> a | OPEN \<Rightarrow> b | PAID \<Rightarrow> c | VOID \<Rightarrow> d | UNCOLLECTIBLE \<Rightarrow> e))"
  by (cases v) auto

lemma case_either_pair [step_intros]:
  "(\<And>x. step w (snd (f x))) \<Longrightarrow> (\<And>x y. step w (snd (g x y)))
   \<Longrightarrow> step w (snd (case v of Inl x \<Rightarrow> f x | Inr (x, y) \<Rightarrow> g x y))"
  by (cases v) auto

end

section \<open>Relations between databases that statements respect\<close>

text \<open>
  Many properties of handlers say how the committed database may have changed. A reflexive and
  transitive relation \<open>R\<close> that every statement of a handler respects holds between the committed
  databases before and after the handler, whatever fails. The locale proves this once: for
  statements on the pool, statements in a transaction, and whole transactions.
\<close>

locale db_relation =
  fixes R :: "database \<Rightarrow> database \<Rightarrow> bool"
  assumes R_refl: "R d d"
    and R_trans: "R d d' \<Longrightarrow> R d' d'' \<Longrightarrow> R d d''"
begin

definition within :: "'a stmt \<Rightarrow> bool" where
  "within st \<longleftrightarrow> (\<forall>d x d'. st d = Inr (x, d') \<longrightarrow> R d d')"

text \<open>Outside a transaction: the committed databases are related and no transaction is left.\<close>

definition pool_step :: "world \<Rightarrow> world \<Rightarrow> bool" where
  "pool_step w w' \<longleftrightarrow> (w_tx w = None \<longrightarrow> w_tx w' = None \<and> R (w_db w) (w_db w'))"

text \<open>Inside one: nothing is committed, and the uncommitted databases are related.\<close>

definition tx_step :: "world \<Rightarrow> world \<Rightarrow> bool" where
  "tx_step w w' \<longleftrightarrow> w_db w' = w_db w \<and>
     (case (w_tx w, w_tx w') of
        (Some (d, _), Some (d', _)) \<Rightarrow> R d d'
      | (None, None) \<Rightarrow> True
      | _ \<Rightarrow> False)"

lemma within_select_one: "within (select_one P table)"
  by (auto simp: within_def R_refl elim: select_one_InrE)

lemma within_select_many: "within (select_many P k table)"
  by (auto simp: within_def R_refl elim: select_many_InrE)

lemma pool_relation: "step_relation pool_step"
  by unfold_locales (auto simp: pool_step_def R_refl intro: R_trans)

lemma tx_relation: "step_relation tx_step"
  by unfold_locales
    (auto simp: tx_step_def R_refl intro: R_trans split: option.splits)

lemma pool_gen_id [step_intros]:
  assumes "\<And>i w1. pool_step w1 (snd (f i w1))"
  shows "pool_step w (snd (case gen_id E w of (i, w1) \<Rightarrow> f i w1))"
  using assms [of "w\<lparr>w_ids := Suc (w_ids w)\<rparr>" "env_ids E (w_ids w)"]
  by (simp add: gen_id_def pool_step_def)

lemma tx_gen_id [step_intros]:
  assumes "\<And>i w1. tx_step w1 (snd (f i w1))"
  shows "tx_step w (snd (case gen_id E w of (i, w1) \<Rightarrow> f i w1))"
  using assms [of "w\<lparr>w_ids := Suc (w_ids w)\<rparr>" "env_ids E (w_ids w)"]
  by (simp add: gen_id_def tx_step_def)

lemma pool_query [step_intros]: "within st \<Longrightarrow> pool_step w (snd (query E Pool st w))"
  by (auto simp: query_def run_pool_def Let_def within_def pool_step_def R_refl
      split: outcome.splits sum.splits)

lemma tx_query [step_intros]: "within st \<Longrightarrow> tx_step w (snd (query E Tx st w))"
  by (auto simp: query_def run_tx_def Let_def within_def tx_step_def R_refl
      split: outcome.splits sum.splits option.splits prod.splits bool.splits db_error.splits)

lemma with_tx_step [step_intros]:
  assumes body: "\<And>w1. tx_step w1 (snd (body w1))"
  shows "pool_step w (snd (with_tx E emb body w))"
proof -
  obtain r w' where run: "with_tx E emb body w = (r, w')" by fastforce
  let ?w = "w\<lparr>w_calls := Suc (w_calls w), w_tx := Some (w_db w, False)\<rparr>"
  have b: "w_db w2 = w_db w \<and> (\<forall>d. in_tx w2 d \<longrightarrow> R (w_db w) d)" if "body ?w = (q, w2)" for q w2
    using body [of ?w] that by (auto simp: tx_step_def in_tx_def split: option.splits)
  from run show ?thesis
    by (cases rule: with_txE) (auto simp: run pool_step_def R_refl dest: b)
qed

end

sublocale db_relation \<subseteq> pool: step_relation pool_step
  by (rule pool_relation)

sublocale db_relation \<subseteq> tx: step_relation tx_step
  by (rule tx_relation)

text \<open>What a transaction's body leaves alone is such a relation.\<close>

interpretation frame: step_relation body_frame
  by unfold_locales (auto intro: body_frame_refl body_frame_trans)

text \<open>The constraints of the schema as a relation: what held before holds afterwards.\<close>

interpretation ok_rel: db_relation "\<lambda>d d'. db_ok d \<longrightarrow> db_ok d'"
  by unfold_locales auto

lemma ok_rel_within [step_intros]: "keeps_ok st \<Longrightarrow> ok_rel.within st"
  by (auto simp: ok_rel.within_def keeps_ok_def)

end
