(* ===== verification/Outbox.thy ===== *)
theory Outbox
  imports Session "HOL-Library.List_Lexorder" "HOL-Library.Char_ord"
begin

text \<open>
  The transactional outbox of \<open>internal/webhook\<close>: the event payload, and \<open>QueueDeliveries\<close>, which
  inserts one delivery row per active endpoint of the business through the connection its caller
  is using.
\<close>

section \<open>Payloads\<close>

text \<open>\<open>json.Marshal\<close> of a map writes its members in the order of their keys.\<close>

definition marshal_map :: "(string \<times> json) list \<Rightarrow> json" where
  "marshal_map kvs = JObject (sort_key fst kvs)"

definition build_payload :: "event_type \<Rightarrow> json \<Rightarrow> json" where
  "build_payload ev data = JObject [(''event'', JString (event_type_str ev)), (''data'', data)]"

section \<open>Queueing\<close>

fun queue_loop ::
  "env \<Rightarrow> conn \<Rightarrow> int64 \<Rightarrow> event_type \<Rightarrow> json \<Rightarrow> webhook_endpoint list \<Rightarrow> world
   \<Rightarrow> (db_error + unit) \<times> world" where
  "queue_loop E c v ev payload [] w = (Inr (), w)"
| "queue_loop E c v ev payload (ep # eps) w =
     (let (i, w1) = gen_id E w in
      case query E c (create_webhook_delivery (env_jsonb E) (w_dbnow w1) i (whe_id ep) v ev payload) w1
      of (Inl e, w2) \<Rightarrow> (Inl e, w2)
       | (Inr _, w2) \<Rightarrow> queue_loop E c v ev payload eps w2)"

definition queue_deliveries ::
  "env \<Rightarrow> conn \<Rightarrow> int64 \<Rightarrow> int64 \<Rightarrow> event_type \<Rightarrow> json \<Rightarrow> world \<Rightarrow> (db_error + unit) \<times> world" where
  "queue_deliveries E c b v ev payload w =
     (case query E c (list_active_webhook_endpoints_by_business_id b) w of
        (Inl e, w1) \<Rightarrow> (Inl e, w1)
      | (Inr eps, w1) \<Rightarrow> queue_loop E c v ev payload eps w1)"

section \<open>What queueing does to an open transaction\<close>

text \<open>
  Queueing either aborts the transaction or appends one pending row per active endpoint and
  changes nothing else.
\<close>

definition active_endpoints :: "int64 \<Rightarrow> database \<Rightarrow> webhook_endpoint list" where
  "active_endpoints b d =
     sort_key (\<lambda>r. sint (whe_id r))
       (filter (\<lambda>r. whe_business r = b \<and> whe_active r) (webhook_endpoints d))"

lemma active_endpoints_other [simp]:
  "active_endpoints b (d\<lparr>invoices := t1\<rparr>) = active_endpoints b d"
  "active_endpoints b (d\<lparr>invoice_items := t2\<rparr>) = active_endpoints b d"
  "active_endpoints b (d\<lparr>payment_attempts := t3\<rparr>) = active_endpoints b d"
  "active_endpoints b (d\<lparr>idempotency_keys := t4\<rparr>) = active_endpoints b d"
  "active_endpoints b (d\<lparr>webhook_deliveries := t5\<rparr>) = active_endpoints b d"
  by (simp_all add: active_endpoints_def)

definition pending_delivery ::
  "env \<Rightarrow> instant \<Rightarrow> int64 \<Rightarrow> event_type \<Rightarrow> json \<Rightarrow> int64 \<Rightarrow> webhook_endpoint \<Rightarrow> webhook_delivery"
where
  "pending_delivery E now v ev payload i ep =
     \<lparr>whd_id = i, whd_endpoint = whe_id ep, whd_invoice = v, whd_event = ev,
      whd_payload = env_jsonb E payload, whd_status = DlvPENDING, whd_attempts = 0,
      whd_next = now, whd_error = None, whd_created = now, whd_delivered = None\<rparr>"

text \<open>The rows the loop appends when every insert succeeds: consecutive ids of the generator.\<close>

definition queued_rows ::
  "env \<Rightarrow> instant \<Rightarrow> int64 \<Rightarrow> event_type \<Rightarrow> json \<Rightarrow> nat \<Rightarrow> webhook_endpoint list
   \<Rightarrow> webhook_delivery list" where
  "queued_rows E now v ev payload k eps =
     map (\<lambda>(j, ep). pending_delivery E now v ev payload (env_ids E (k + j)) ep)
       (enumerate 0 eps)"

lemma enumerate_Suc_shift: "enumerate (Suc n) xs = map (\<lambda>(j, x). (Suc j, x)) (enumerate n xs)"
  by (induction xs arbitrary: n) auto

lemma queued_rows_Cons:
  "queued_rows E now v ev payload k (ep # eps) =
   pending_delivery E now v ev payload (env_ids E k) ep
   # queued_rows E now v ev payload (Suc k) eps"
  by (simp add: queued_rows_def enumerate_Suc_shift case_prod_unfold comp_def)

lemma length_queued_rows [simp]: "length (queued_rows E now v ev payload k eps) = length eps"
  by (simp add: queued_rows_def)

lemma queued_rows_endpoints:
  "map whd_endpoint (queued_rows E now v ev payload k eps) = map whe_id eps"
  by (induction eps arbitrary: k)
    (simp add: queued_rows_def, simp add: queued_rows_Cons pending_delivery_def)

lemma queued_rows_mem:
  "x \<in> set (queued_rows E now v ev payload k eps) \<Longrightarrow>
   whd_status x = DlvPENDING \<and> whd_invoice x = v \<and> whd_event x = ev"
  by (auto simp: queued_rows_def pending_delivery_def)

lemma queue_loop_tx:
  assumes "in_tx w d" "queue_loop E Tx v ev payload eps w = (r, w')"
  shows "body_frame w w' \<and>
     (tx_dead w' \<or>
      (r = Inr () \<and> in_tx w' (d\<lparr>webhook_deliveries := webhook_deliveries d
         @ queued_rows E (w_dbnow w) v ev payload (w_ids w) eps\<rparr>)))"
  using assms
proof (induction eps arbitrary: w d)
  case Nil
  then show ?case by (simp add: queued_rows_def body_frame_refl)
next
  case (Cons ep eps)
  let ?w1 = "w\<lparr>w_ids := Suc (w_ids w)\<rparr>"
  let ?st = "create_webhook_delivery (env_jsonb E) (w_dbnow w) (env_ids E (w_ids w)) (whe_id ep) v ev payload"
  let ?row = "pending_delivery E (w_dbnow w) v ev payload (env_ids E (w_ids w)) ep"
  obtain r1 w2 where run: "run_tx E ?st ?w1 = (r1, w2)" by fastforce
  have w1: "in_tx ?w1 d" using Cons.prems(1) by (simp add: in_tx_def)
  have loop: "(case r1 of Inl e \<Rightarrow> (Inl e, w2) | Inr _ \<Rightarrow> queue_loop E Tx v ev payload eps w2) = (r, w')"
    using Cons.prems(2) run by (auto simp: gen_id_def query_def split: sum.splits)
  from run w1 show ?case
  proof (cases rule: run_txE)
    case (ok x d')
    then have d': "d' = d\<lparr>webhook_deliveries := webhook_deliveries d @ [?row]\<rparr>"
      by (auto simp: create_webhook_delivery_def pending_delivery_def elim!: insert_one_InrE)
    from Cons.IH [OF ok(3)] loop ok(2,4) show ?thesis
      by (auto simp: d' queued_rows_Cons body_frame_def)
  next
    case none
    then have False
      by (auto simp: create_webhook_delivery_def insert_one_def split: option.splits if_splits)
    then show ?thesis ..
  next
    case (dead e)
    with loop show ?thesis by (auto simp: tx_dead_def body_frame_def)
  qed
qed

lemma queue_deliveries_tx:
  assumes "in_tx w d" "queue_deliveries E Tx b v ev payload w = (r, w')"
  shows "body_frame w w' \<and>
     (tx_dead w' \<or>
      (r = Inr () \<and> in_tx w' (d\<lparr>webhook_deliveries := webhook_deliveries d
         @ queued_rows E (w_dbnow w) v ev payload (w_ids w) (active_endpoints b d)\<rparr>)))"
proof -
  let ?st = "list_active_webhook_endpoints_by_business_id b"
  obtain r1 w1 where run: "run_tx E ?st w = (r1, w1)" by fastforce
  from run assms(1) show ?thesis
  proof (cases rule: run_txE)
    case (ok x d')
    then have "d' = d" "x = active_endpoints b d"
      by (auto simp: list_active_webhook_endpoints_by_business_id_def active_endpoints_def
          select_many_def)
    with queue_loop_tx [OF ok(3), of E v ev payload x r w'] ok assms(2) run
    show ?thesis by (simp add: queue_deliveries_def query_def body_frame_def)
  next
    case none
    then show ?thesis
      by (simp add: list_active_webhook_endpoints_by_business_id_def select_many_def)
  next
    case (dead e)
    with assms(2) run show ?thesis by (auto simp: queue_deliveries_def query_def tx_dead_def body_frame_def)
  qed
qed

section \<open>Queueing respects what its two statements respect\<close>

context db_relation
begin

lemma queue_loop_step:
  assumes "\<And>now i ep. within (create_webhook_delivery (env_jsonb E) now i ep v ev payload)"
  shows "tx_step w (snd (queue_loop E Tx v ev payload eps w))"
    and "pool_step w (snd (queue_loop E Pool v ev payload eps w))"
  by (induction eps arbitrary: w)
    (auto simp: Let_def tx.refl pool.refl intro!: step_intros assms)

lemma queue_deliveries_step [step_intros]:
  assumes "\<And>now i ep. within (create_webhook_delivery (env_jsonb E) now i ep v ev payload)"
  shows "tx_step w (snd (queue_deliveries E Tx b v ev payload w))"
  unfolding queue_deliveries_def list_active_webhook_endpoints_by_business_id_def
  by (auto intro!: step_intros within_select_many queue_loop_step assms)

end

end
