(* ===== verification/Payment.thy ===== *)
theory Payment
  imports Outbox
begin

text \<open>
  Package \<open>internal/payment\<close>: the payment endpoint. A request claims its idempotency key and the
  invoice in one transaction (\<open>claim\<close>), charges the card outside any transaction, and records the
  outcome, the response and the webhook deliveries in a second transaction (\<open>finalize\<close>).
\<close>

section \<open>Requests, responses and errors\<close>

datatype pay_error = HashConflict | InProgress | NotPayable | PayDb db_error

datatype claimed =
    Replay idempotency_key
  | Claimed idempotency_key payment_attempt invoice

record pay_response =
  rsp_attempt :: string
  rsp_invoice :: string
  rsp_status :: string
  rsp_invoice_state :: string
  rsp_psp_ref :: string
  rsp_failure_code :: string
  rsp_failure_reason :: string

definition omitempty :: "string \<Rightarrow> string \<Rightarrow> (string \<times> json) list" where
  "omitempty name v = (if v = [] then [] else [(name, JString v)])"

definition pay_response_json :: "pay_response \<Rightarrow> json" where
  "pay_response_json r =
     JObject ([(''payment_attempt_id'', JString (rsp_attempt r)),
               (''invoice_id'', JString (rsp_invoice r)),
               (''status'', JString (rsp_status r)),
               (''invoice_state'', JString (rsp_invoice_state r))]
              @ omitempty ''psp_ref'' (rsp_psp_ref r)
              @ omitempty ''failure_code'' (rsp_failure_code r)
              @ omitempty ''failure_reason'' (rsp_failure_reason r))"

section \<open>The request fingerprint\<close>

definition fingerprint_input :: "int64 \<Rightarrow> string \<Rightarrow> string" where
  "fingerprint_input ivc token =
     ''invoice_id='' @ fmt_int (sint ivc) @ CHR 0x0A # ''card_token='' @ token"

definition fingerprint :: "(string \<Rightarrow> string) \<Rightarrow> int64 \<Rightarrow> string \<Rightarrow> string" where
  "fingerprint sha256 ivc token = hex_encode (sha256 (fingerprint_input ivc token))"

text \<open>The hashed text determines the invoice and the token, even with line feeds in the token.\<close>

lemma fingerprint_input_inj:
  "fingerprint_input i t = fingerprint_input j u \<longleftrightarrow> i = j \<and> t = u"
proof
  assume "fingerprint_input i t = fingerprint_input j u"
  then have eq: "fmt_int (sint i) @ CHR 0x0A # (''card_token='' @ t)
      = fmt_int (sint j) @ CHR 0x0A # (''card_token='' @ u)"
    by (simp add: fingerprint_input_def)
  from arg_cong [OF eq, of "split_n2 CHR 0x0A"]
  show "i = j \<and> t = u"
    by (simp add: split_n2_two [OF fmt_int_no_newline] fmt_int_inj sint64_eq_iff
        del: split_n2.simps)
qed simp

section \<open>Claiming\<close>

definition is_unique_violation :: "db_error \<Rightarrow> bool" where
  "is_unique_violation e = (case e of UniqueViolation _ \<Rightarrow> True | _ \<Rightarrow> False)"

definition claim_new ::
  "env \<Rightarrow> int64 \<Rightarrow> int64 \<Rightarrow> string \<Rightarrow> string \<Rightarrow> world \<Rightarrow> (pay_error + claimed) \<times> world" where
  "claim_new E b ivc key hash w =
     (case query E Tx (get_invoice_for_payment ivc b) w of
        (Inl e, w1) \<Rightarrow> (Inl (PayDb e), w1)
      | (Inr iv, w1) \<Rightarrow>
          if inv_state iv \<noteq> OPEN then (Inl NotPayable, w1)
          else
            (let (i, w2) = gen_id E w1 in
             case query E Tx (create_idempotency_key (w_dbnow w2) i b key hash) w2 of
               (Inl e, w3) \<Rightarrow> (Inl (PayDb e), w3)
             | (Inr idem, w3) \<Rightarrow>
                 (let (a, w4) = gen_id E w3; (p, w5) = gen_id E w4 in
                  case query E Tx (create_payment_attempt (w_dbnow w5) a ivc (idm_id idem) p) w5 of
                    (Inl e, w6) \<Rightarrow>
                      (Inl (if is_unique_violation e then InProgress else PayDb e), w6)
                  | (Inr attempt, w6) \<Rightarrow> (Inr (Claimed idem attempt iv), w6))))"

definition claim_body ::
  "env \<Rightarrow> int64 \<Rightarrow> int64 \<Rightarrow> string \<Rightarrow> string \<Rightarrow> world \<Rightarrow> (pay_error + claimed) \<times> world" where
  "claim_body E b ivc key hash w =
     (case query E Tx (get_idempotency_key b key) w of
        (Inr existing, w1) \<Rightarrow>
          if idm_hash existing \<noteq> hash then (Inl HashConflict, w1)
          else if idm_status existing = IdemCOMPLETED then (Inr (Replay existing), w1)
          else (Inl InProgress, w1)
      | (Inl e, w1) \<Rightarrow>
          if e \<noteq> NoRows then (Inl (PayDb e), w1) else claim_new E b ivc key hash w1)"

definition claim ::
  "env \<Rightarrow> int64 \<Rightarrow> int64 \<Rightarrow> string \<Rightarrow> string \<Rightarrow> world \<Rightarrow> (pay_error + claimed) \<times> world" where
  "claim E b ivc key hash = with_tx E PayDb (claim_body E b ivc key hash)"

section \<open>Finalizing\<close>

definition unknown_reason :: string where
  "unknown_reason = ''ambiguous_transport_error''"

definition failed_payload :: "string \<Rightarrow> string \<Rightarrow> string \<Rightarrow> json" where
  "failed_payload ivc_pub att_pub code =
     build_payload INVOICE_PAYMENT_FAILED
       (marshal_map [(''invoice_id'', JString ivc_pub), (''payment_attempt_id'', JString att_pub),
                     (''failure_code'', JString code),
                     (''status'', JString (payment_status_str FAILED))])"

definition paid_payload :: "string \<Rightarrow> string \<Rightarrow> string \<Rightarrow> json" where
  "paid_payload ivc_pub att_pub ref =
     build_payload INVOICE_PAID
       (marshal_map [(''invoice_id'', JString ivc_pub), (''payment_attempt_id'', JString att_pub),
                     (''psp_ref'', JString ref),
                     (''status'', JString (invoice_state_str PAID))])"

text \<open>
  The part of \<open>finalize\<close> that records the outcome: the status to answer with and the response.
  The result of \<open>QueueDeliveries\<close> is dropped.
\<close>

definition settle ::
  "env \<Rightarrow> payment_attempt \<Rightarrow> invoice \<Rightarrow> psp_error + charge_result \<Rightarrow> int64 \<Rightarrow> world
   \<Rightarrow> (db_error + nat \<times> pay_response) \<times> world" where
  "settle E att iv result b w =
     (let att_pub = enc_id_or_empty E prefix_payment_attempt (att_id att);
          ivc_pub = enc_id_or_empty E prefix_invoice (inv_id iv);
          resp = \<lparr>rsp_attempt = att_pub, rsp_invoice = ivc_pub, rsp_status = [],
                  rsp_invoice_state = invoice_state_str (inv_state iv), rsp_psp_ref = [],
                  rsp_failure_code = [], rsp_failure_reason = []\<rparr>
      in case result of
        Inl _ \<Rightarrow>
          (case query E Tx (mark_payment_attempt_unknown (w_dbnow w) (att_id att) unknown_reason) w of
             (Inl e, w1) \<Rightarrow> (Inl e, w1)
           | (Inr _, w1) \<Rightarrow>
               (Inr (202, resp\<lparr>rsp_status := payment_status_str UNKNOWN,
                               rsp_failure_reason := unknown_reason\<rparr>), w1))
      | Inr res \<Rightarrow>
          if cr_status res = ''failed'' then
            (case query E Tx (mark_payment_attempt_failed (w_dbnow w) (att_id att)
                                (cr_failure_code res) ''payment_declined'') w of
               (Inl e, w1) \<Rightarrow> (Inl e, w1)
             | (Inr _, w1) \<Rightarrow>
                 (let (_, w2) = queue_deliveries E Tx b (inv_id iv) INVOICE_PAYMENT_FAILED
                                  (failed_payload ivc_pub att_pub (cr_failure_code res)) w1 in
                  (Inr (402, resp\<lparr>rsp_status := payment_status_str FAILED,
                                  rsp_failure_code := cr_failure_code res\<rparr>), w2)))
          else
            (case query E Tx (mark_payment_attempt_succeeded (w_dbnow w) (att_id att)
                                (cr_psp_ref res)) w of
               (Inl e, w1) \<Rightarrow> (Inl e, w1)
             | (Inr _, w1) \<Rightarrow>
                 (case query E Tx (mark_invoice_paid (w_dbnow w1) (inv_id iv) b) w1 of
                    (Inl e, w2) \<Rightarrow> (Inl e, w2)
                  | (Inr _, w2) \<Rightarrow>
                      (let (_, w3) = queue_deliveries E Tx b (inv_id iv) INVOICE_PAID
                                       (paid_payload ivc_pub att_pub (cr_psp_ref res)) w2 in
                       (Inr (200, resp\<lparr>rsp_status := payment_status_str SUCCEEDED,
                                       rsp_invoice_state := invoice_state_str PAID,
                                       rsp_psp_ref := cr_psp_ref res\<rparr>), w3)))))"

definition finalize_body ::
  "env \<Rightarrow> idempotency_key \<Rightarrow> payment_attempt \<Rightarrow> invoice \<Rightarrow> psp_error + charge_result \<Rightarrow> int64
   \<Rightarrow> world \<Rightarrow> (db_error + nat \<times> json) \<times> world" where
  "finalize_body E idem att iv result b w =
     (case settle E att iv result b w of
        (Inl e, w1) \<Rightarrow> (Inl e, w1)
      | (Inr (status, resp), w1) \<Rightarrow>
          (let body = pay_response_json resp in
           case query E Tx (complete_idempotency_key (env_jsonb E) (w_dbnow w1) (idm_id idem)
                              (of_nat status) body) w1 of
             (Inl e, w2) \<Rightarrow> (Inl e, w2)
           | (Inr _, w2) \<Rightarrow> (Inr (status, body), w2)))"

definition finalize ::
  "env \<Rightarrow> idempotency_key \<Rightarrow> payment_attempt \<Rightarrow> invoice \<Rightarrow> psp_error + charge_result \<Rightarrow> int64
   \<Rightarrow> world \<Rightarrow> (db_error + nat \<times> json) \<times> world" where
  "finalize E idem att iv result b = with_tx E id (finalize_body E idem att iv result b)"

section \<open>The handler\<close>

definition charge_card ::
  "env \<Rightarrow> charge_request \<Rightarrow> world \<Rightarrow> (psp_error + charge_result) \<times> world" where
  "charge_card E req w =
     (charge (env_psp_client E) (env_psp E (length (w_psp w))) req, w\<lparr>w_psp := w_psp w @ [req]\<rparr>)"

text \<open>A body is \<open>None\<close> where nothing is written.\<close>

definition replay_reply :: "idempotency_key \<Rightarrow> json option reply" where
  "replay_reply idem =
     Reply (case idm_response_status idem of None \<Rightarrow> 0 | Some s \<Rightarrow> nat (sint s))
       (idm_response_body idem)"

definition claim_failure :: "pay_error \<Rightarrow> json option reply" where
  "claim_failure err =
     (case err of
        HashConflict \<Rightarrow> fail_with 409 ''idempotency_conflict''
          ''Idempotency key was already used with a different request''
      | InProgress \<Rightarrow> fail_with 409 ''payment_in_progress''
          ''A payment is already processing for this invoice''
      | NotPayable \<Rightarrow> fail_with 409 ''invoice_not_payable'' ''Invoice is not open for payment''
      | PayDb NoRows \<Rightarrow> fail_with 404 ''not_found'' ''Invoice not found''
      | PayDb _ \<Rightarrow> fail_with 500 ''internal_error'' ''Failed to claim payment'')"

text \<open>\<open>body\<close> is the card token of the decoded request body, \<open>None\<close> if it does not decode.\<close>

definition pay_claimed ::
  "env \<Rightarrow> int64 \<Rightarrow> string \<Rightarrow> claimed \<Rightarrow> world \<Rightarrow> json option reply \<times> world" where
  "pay_claimed E b token cl w =
     (case cl of
        Replay idem \<Rightarrow> (replay_reply idem, w)
      | Claimed idem att iv \<Rightarrow>
          (let (result, w1) = charge_card E
                 \<lparr>crq_token = token, crq_amount = inv_total iv, crq_currency = inv_currency iv,
                  crq_psp_request = att_psp_request att\<rparr> w in
           case finalize E idem att iv result b w1 of
             (Inl e, w2) \<Rightarrow>
               (fail_with 500 ''internal_error'' ''Failed to finalize payment'', w2)
           | (Inr (status, body), w2) \<Rightarrow> (Reply status (Some body), w2)))"

definition pay_invoice ::
  "env \<Rightarrow> int64 \<Rightarrow> string \<Rightarrow> string \<Rightarrow> string option \<Rightarrow> world \<Rightarrow> json option reply \<times> world" where
  "pay_invoice E b header id_param body w =
     (let key = trim_space header in
      if key = [] \<or> length key > 255 then
        (fail_with 400 ''invalid_idempotency_key'' ''Idempotency-Key header is required'', w)
      else case dec_id E prefix_invoice id_param of
        Inl _ \<Rightarrow> (fail_with 404 ''not_found'' ''Invoice not found'', w)
      | Inr ivc \<Rightarrow>
          (case body of
             None \<Rightarrow> (fail_with 400 ''bad_request'' ''card_token is required'', w)
           | Some raw \<Rightarrow>
               let token = trim_space raw in
               if token = [] then (fail_with 400 ''bad_request'' ''card_token is required'', w)
               else
                 (case claim E b ivc key (fingerprint (env_sha256 E) ivc token) w of
                    (Inl e, w1) \<Rightarrow> (claim_failure e, w1)
                  | (Inr cl, w1) \<Rightarrow> pay_claimed E b token cl w1)))"

section \<open>What a claim does\<close>

definition lookup_idem :: "int64 \<Rightarrow> string \<Rightarrow> database \<Rightarrow> idempotency_key option" where
  "lookup_idem b key d = find (\<lambda>r. idm_business r = b \<and> idm_key r = key) (idempotency_keys d)"

definition has_unresolved :: "int64 \<Rightarrow> database \<Rightarrow> bool" where
  "has_unresolved ivc d \<longleftrightarrow> occurs att_invoice ivc (filter unresolved (payment_attempts d))"

definition new_idem :: "instant \<Rightarrow> int64 \<Rightarrow> string \<Rightarrow> string \<Rightarrow> int64 \<Rightarrow> idempotency_key" where
  "new_idem now b key hash i =
     \<lparr>idm_id = i, idm_business = b, idm_key = key, idm_hash = hash, idm_status = IdemPROCESSING,
      idm_response_status = None, idm_response_body = None, idm_created = now,
      idm_updated = now\<rparr>"

definition new_attempt :: "instant \<Rightarrow> int64 \<Rightarrow> int64 \<Rightarrow> int64 \<Rightarrow> int64 \<Rightarrow> payment_attempt" where
  "new_attempt now ivc idem a p =
     \<lparr>att_id = a, att_invoice = ivc, att_idem = idem, att_status = PROCESSING,
      att_psp_request = p, att_psp_ref = None, att_failure_code = None,
      att_failure_reason = None, att_requested = Some now, att_responded = None,
      att_created = now, att_updated = now\<rparr>"

lemma new_row_sel [simp]:
  "idm_id (new_idem now b key hash i) = i" "idm_business (new_idem now b key hash i) = b"
  "idm_key (new_idem now b key hash i) = key" "idm_hash (new_idem now b key hash i) = hash"
  "idm_status (new_idem now b key hash i) = IdemPROCESSING"
  "att_id (new_attempt now ivc idem a p) = a" "att_invoice (new_attempt now ivc idem a p) = ivc"
  "att_idem (new_attempt now ivc idem a p) = idem"
  "att_status (new_attempt now ivc idem a p) = PROCESSING"
  "att_psp_request (new_attempt now ivc idem a p) = p"
  by (simp_all add: new_idem_def new_attempt_def)

text \<open>
  The contract of a claim against the database it starts from. A new claim is granted only for an
  unused key, an OPEN invoice of the business and no unresolved attempt on it; it adds the two
  PROCESSING rows. A replay is granted only for a completed key of the same request.
\<close>

definition claim_granted ::
  "env \<Rightarrow> instant \<Rightarrow> nat \<Rightarrow> int64 \<Rightarrow> int64 \<Rightarrow> string \<Rightarrow> string \<Rightarrow> database \<Rightarrow> claimed \<Rightarrow> database
   \<Rightarrow> bool" where
  "claim_granted E now k b ivc key hash d cl d' \<longleftrightarrow>
     (case cl of
        Replay ex \<Rightarrow> d' = d \<and> lookup_idem b key d = Some ex \<and> idm_hash ex = hash
          \<and> idm_status ex = IdemCOMPLETED
      | Claimed idem att iv \<Rightarrow>
          lookup_idem b key d = None \<and> lookup_invoice b ivc d = Some iv \<and> inv_state iv = OPEN
          \<and> \<not> has_unresolved ivc d
          \<and> \<not> occurs idm_id (idm_id idem) (idempotency_keys d)
          \<and> \<not> occurs att_id (att_id att) (payment_attempts d)
          \<and> \<not> occurs att_psp_request (att_psp_request att) (payment_attempts d)
          \<and> idem = new_idem now b key hash (env_ids E k)
          \<and> att = new_attempt now ivc (idm_id idem) (env_ids E (Suc k)) (env_ids E (Suc (Suc k)))
          \<and> d' = d\<lparr>idempotency_keys := idempotency_keys d @ [idem],
                   payment_attempts := payment_attempts d @ [att]\<rparr>)"

text \<open>
  Why a claim may be refused. A payment in progress means an unfinished request of the same key, or
  an unresolved attempt on the invoice; the code takes any unique violation of the new attempt for
  the latter, so it may also be one of the generated ids that an attempt has already. Database
  errors other than a missing row are open.
\<close>

definition ids_collide :: "env \<Rightarrow> nat \<Rightarrow> database \<Rightarrow> bool" where
  "ids_collide E k d \<longleftrightarrow>
     occurs att_idem (env_ids E k) (payment_attempts d)
     \<or> occurs att_id (env_ids E (Suc k)) (payment_attempts d)
     \<or> occurs att_psp_request (env_ids E (Suc (Suc k))) (payment_attempts d)"

definition claim_refused ::
  "env \<Rightarrow> nat \<Rightarrow> int64 \<Rightarrow> int64 \<Rightarrow> string \<Rightarrow> string \<Rightarrow> database \<Rightarrow> pay_error \<Rightarrow> bool" where
  "claim_refused E k b ivc key hash d e \<longleftrightarrow>
     (case e of
        HashConflict \<Rightarrow> (\<exists>ex. lookup_idem b key d = Some ex \<and> idm_hash ex \<noteq> hash)
      | InProgress \<Rightarrow>
          (case lookup_idem b key d of
             Some ex \<Rightarrow> idm_hash ex = hash \<and> idm_status ex = IdemPROCESSING
           | None \<Rightarrow> (\<exists>iv. lookup_invoice b ivc d = Some iv \<and> inv_state iv = OPEN)
               \<and> (has_unresolved ivc d \<or> ids_collide E k d))
      | NotPayable \<Rightarrow> lookup_idem b key d = None
          \<and> (\<exists>iv. lookup_invoice b ivc d = Some iv \<and> inv_state iv \<noteq> OPEN)
      | PayDb NoRows \<Rightarrow> lookup_idem b key d = None \<and> lookup_invoice b ivc d = None
      | PayDb _ \<Rightarrow> True)"

lemma create_attempt_tx:
  assumes "in_tx w d"
    and "query E Tx (create_payment_attempt now a ivc idem p) w = (r, w')"
  shows "body_frame w w' \<and> w_ids w' = w_ids w \<and> r \<noteq> Inl NoRows \<and>
    (\<forall>c. r = Inl (UniqueViolation c) \<longrightarrow>
       has_unresolved ivc d \<or> occurs att_idem idem (payment_attempts d)
       \<or> occurs att_id a (payment_attempts d) \<or> occurs att_psp_request p (payment_attempts d)) \<and>
    (\<forall>att. r = Inr att \<longrightarrow> att = new_attempt now ivc idem a p \<and> \<not> has_unresolved ivc d
       \<and> \<not> occurs att_id a (payment_attempts d)
       \<and> \<not> occurs att_psp_request p (payment_attempts d)
       \<and> in_tx w' (d\<lparr>payment_attempts := payment_attempts d @ [att]\<rparr>))"
  using assms(2)[unfolded query_Tx] assms(1)
proof (cases rule: run_txE)
  case (ok x d')
  then show ?thesis
    by (auto simp: create_payment_attempt_def new_attempt_def has_unresolved_def body_frame_def
        elim!: insert_one_InrE)
next
  case none
  then show ?thesis
    by (auto simp: create_payment_attempt_def dest!: insert_one_not_NoRows)
next
  case (dead e)
  have "has_unresolved ivc d \<or> occurs att_idem idem (payment_attempts d)
       \<or> occurs att_id a (payment_attempts d) \<or> occurs att_psp_request p (payment_attempts d)"
    if "create_payment_attempt now a ivc idem p d = Inl (UniqueViolation c)" for c
    using that by (auto simp: create_payment_attempt_def insert_one_def has_unresolved_def
        split: option.splits if_splits)
  with dead show ?thesis by (auto simp: body_frame_def)
qed

lemma create_idem_tx:
  assumes "in_tx w d"
    and "query E Tx (create_idempotency_key now i b key hash) w = (r, w')"
  shows "body_frame w w' \<and> w_ids w' = w_ids w \<and> r \<noteq> Inl NoRows \<and>
    (\<forall>idem. r = Inr idem \<longrightarrow> idem = new_idem now b key hash i
       \<and> \<not> occurs idm_id i (idempotency_keys d)
       \<and> in_tx w' (d\<lparr>idempotency_keys := idempotency_keys d @ [idem]\<rparr>))"
  using assms(2)[unfolded query_Tx] assms(1)
proof (cases rule: run_txE)
  case (ok x d')
  then show ?thesis
    by (auto simp: create_idempotency_key_def new_idem_def body_frame_def elim!: insert_one_InrE)
next
  case none
  then show ?thesis
    by (auto simp: create_idempotency_key_def dest!: insert_one_not_NoRows)
qed (auto simp: body_frame_def)

lemma select_tx:
  assumes "in_tx w d" "query E Tx (select_one P table) w = (r, w')"
  shows "body_frame w w' \<and> w_ids w' = w_ids w \<and>
    (case r of
       Inr x \<Rightarrow> find P (table d) = Some x \<and> in_tx w' d
     | Inl NoRows \<Rightarrow> find P (table d) = None \<and> in_tx w' d
     | Inl _ \<Rightarrow> True)"
  using assms(2)[unfolded query_Tx] assms(1)
  by (cases rule: run_txE)
    (auto simp: select_one_def body_frame_def split: option.splits db_error.split)

lemma claim_new_tx:
  assumes "in_tx w d" "claim_new E b ivc key hash w = (r, w')" "lookup_idem b key d = None"
  shows "body_frame w w' \<and>
    (case r of
       Inr cl \<Rightarrow> \<exists>d'. in_tx w' d' \<and> claim_granted E (w_dbnow w) (w_ids w) b ivc key hash d cl d'
     | Inl e \<Rightarrow> claim_refused E (w_ids w) b ivc key hash d e)"
proof -
  obtain r1 w1 where q1: "query E Tx (get_invoice_for_payment ivc b) w = (r1, w1)" by fastforce
  note s1 = select_tx [OF assms(1) q1 [unfolded get_invoice_for_payment_def]]
  show ?thesis
  proof (cases r1)
    case (Inl e)
    with s1 assms(2,3) q1 show ?thesis
      by (auto simp: claim_new_def claim_refused_def lookup_invoice_def split: db_error.splits)
  next
    case (Inr iv)
    note iv = this
    with s1 have w1: "body_frame w w1" "w_ids w1 = w_ids w" "in_tx w1 d"
        and look: "lookup_invoice b ivc d = Some iv"
      by (simp_all add: lookup_invoice_def)
    show ?thesis
    proof (cases "inv_state iv = OPEN")
      case False
      with assms(2,3) q1 iv w1 look show ?thesis by (auto simp: claim_new_def claim_refused_def)
    next
      case True
      let ?w2 = "w1\<lparr>w_ids := Suc (w_ids w1)\<rparr>"
      obtain r3 w3 where q3: "query E Tx (create_idempotency_key (w_dbnow w1) (env_ids E (w_ids w1))
          b key hash) ?w2 = (r3, w3)" by fastforce
      have w2: "in_tx ?w2 d" using w1(3) by (simp add: in_tx_def)
      note s3 = create_idem_tx [OF w2 q3]
      have f3: "body_frame w w3"
        using w1(1) s3 by (simp add: body_frame_def)
      show ?thesis
      proof (cases r3)
        case (Inl e)
        with assms(2) q1 iv True q3 s3 f3 show ?thesis
          by (auto simp: claim_new_def gen_id_def claim_refused_def split: db_error.splits)
      next
        case (Inr idem)
        with s3 have idem: "idem = new_idem (w_dbnow w1) b key hash (env_ids E (w_ids w1))"
          and fresh: "\<not> occurs idm_id (idm_id idem) (idempotency_keys d)"
          and w3: "in_tx w3 (d\<lparr>idempotency_keys := idempotency_keys d @ [idem]\<rparr>)"
            "w_ids w3 = Suc (w_ids w1)"
          by auto
        let ?w5 = "w3\<lparr>w_ids := Suc (Suc (w_ids w3))\<rparr>"
        have w5: "in_tx ?w5 (d\<lparr>idempotency_keys := idempotency_keys d @ [idem]\<rparr>)"
          using w3(1) by (simp add: in_tx_def)
        obtain r6 w6 where q6: "query E Tx (create_payment_attempt (w_dbnow w3) (env_ids E (w_ids w3))
            ivc (idm_id idem) (env_ids E (Suc (w_ids w3)))) ?w5 = (r6, w6)" by fastforce
        note s6 = create_attempt_tx [OF w5 q6]
        have f6: "body_frame w w6" using f3 s6 by (simp add: body_frame_def)
        have run: "(r, w') = (case r6 of
            Inl e \<Rightarrow> (Inl (if is_unique_violation e then InProgress else PayDb e), w6)
          | Inr attempt \<Rightarrow> (Inr (Claimed idem attempt iv), w6))"
          using assms(2) q1 iv True q3 Inr q6 by (simp add: claim_new_def gen_id_def split: sum.split)
        show ?thesis
        proof (cases r6)
          case (Inl e)
          have why: "has_unresolved ivc d \<or> ids_collide E (w_ids w) d" if "e = UniqueViolation c" for c
            using s6 Inl that idem w1(2) w3(2) by (auto simp: has_unresolved_def ids_collide_def)
          show ?thesis
            using run Inl s6 f6 assms(3) look True why
            by (auto simp: claim_refused_def is_unique_violation_def split: db_error.splits)
        next
          case (Inr att)
          with s6 have att: "att = new_attempt (w_dbnow w3) ivc (idm_id idem) (env_ids E (w_ids w3))
              (env_ids E (Suc (w_ids w3)))" and free: "\<not> has_unresolved ivc d"
            and new: "\<not> occurs att_id (att_id att) (payment_attempts d)"
              "\<not> occurs att_psp_request (att_psp_request att) (payment_attempts d)"
            and w6: "in_tx w6 (d\<lparr>idempotency_keys := idempotency_keys d @ [idem],
                   payment_attempts := payment_attempts d @ [att]\<rparr>)"
            by (auto simp: has_unresolved_def)
          have eqs: "w_dbnow w1 = w_dbnow w" "w_dbnow w3 = w_dbnow w" "w_ids w1 = w_ids w"
              "w_ids w3 = Suc (w_ids w)"
            using w1 w3 f3 by (simp_all add: body_frame_def)
          have "claim_granted E (w_dbnow w) (w_ids w) b ivc key hash d (Claimed idem att iv)
              (d\<lparr>idempotency_keys := idempotency_keys d @ [idem],
                 payment_attempts := payment_attempts d @ [att]\<rparr>)"
            using assms(3) look True free fresh new idem att eqs by (simp add: claim_granted_def)
          with w6 f6 run Inr show ?thesis by auto
        qed
      qed
    qed
  qed
qed

lemma claim_body_tx:
  assumes "in_tx w d" "claim_body E b ivc key hash w = (r, w')"
  shows "body_frame w w' \<and>
    (case r of
       Inr cl \<Rightarrow> \<exists>d'. in_tx w' d' \<and> claim_granted E (w_dbnow w) (w_ids w) b ivc key hash d cl d'
     | Inl e \<Rightarrow> claim_refused E (w_ids w) b ivc key hash d e)"
proof -
  obtain r1 w1 where q1: "query E Tx (get_idempotency_key b key) w = (r1, w1)" by fastforce
  note s1 = select_tx [OF assms(1) q1 [unfolded get_idempotency_key_def]]
  show ?thesis
  proof (cases r1)
    case (Inr ex)
    with s1 assms(2) q1 show ?thesis
      by (cases "idm_status ex")
        (auto simp: claim_body_def claim_refused_def claim_granted_def lookup_idem_def
          split: if_splits)
  next
    case (Inl e)
    show ?thesis
    proof (cases "e = NoRows")
      case True
      with s1 Inl have w1: "body_frame w w1" "w_ids w1 = w_ids w" "in_tx w1 d"
        and none: "lookup_idem b key d = None"
        by (simp_all add: lookup_idem_def)
      have run: "claim_new E b ivc key hash w1 = (r, w')"
        using assms(2) q1 Inl True by (simp add: claim_body_def)
      show ?thesis
        using claim_new_tx [OF w1(3) run none] w1(1,2) body_frame_trans [OF w1(1)]
        by (auto simp: body_frame_def split: sum.splits)
    next
      case False
      with s1 Inl assms(2) q1 show ?thesis
        by (auto simp: claim_body_def claim_refused_def split: db_error.splits)
    qed
  qed
qed

text \<open>
  The claim transaction: granted and committed; refused with nothing kept; or its commit was
  executed and the answer lost, which leaves the rows of a granted claim behind.
\<close>

lemma claim_spec:
  assumes "claim E b ivc key hash w = (r, w')" "w_tx w = None"
  shows "w_tx w' = None \<and> w_psp w' = w_psp w \<and> w_dbnow w' = w_dbnow w \<and>
    (case r of
       Inr cl \<Rightarrow> claim_granted E (w_dbnow w) (w_ids w) b ivc key hash (w_db w) cl (w_db w')
     | Inl e \<Rightarrow>
         claim_refused E (w_ids w) b ivc key hash (w_db w) e \<and>
         (w_db w' = w_db w \<or>
          (e = PayDb Unavailable \<and>
           (\<exists>cl. claim_granted E (w_dbnow w) (w_ids w) b ivc key hash (w_db w) cl (w_db w')))))"
  using assms(1)[unfolded claim_def]
proof (cases rule: with_txE)
  case (error e w2)
  with claim_body_tx [OF begun_in_tx error(1)] show ?thesis by (auto simp: body_frame_def)
next
  case (committed x w2 d)
  with claim_body_tx [OF begun_in_tx committed(1)] show ?thesis
    by (auto simp: body_frame_def claim_refused_def in_tx_def)
next
  case (failed x w2 e)
  with claim_body_tx [OF begun_in_tx failed(1)] show ?thesis
    by (auto simp: body_frame_def claim_refused_def)
qed (use assms(2) in \<open>simp add: claim_refused_def\<close>)

section \<open>What finalizing does\<close>

definition charged :: "psp_error + charge_result \<Rightarrow> bool" where
  "charged result = (case result of Inl _ \<Rightarrow> False | Inr res \<Rightarrow> cr_status res \<noteq> ''failed'')"

lemma charged_simps [simp]:
  "\<not> charged (Inl e)" "charged (Inr res) \<longleftrightarrow> cr_status res \<noteq> ''failed''"
  by (auto simp: charged_def)

text \<open>The contract: the response, the row updates and the event of an outcome.\<close>

definition outcome_response ::
  "env \<Rightarrow> payment_attempt \<Rightarrow> invoice \<Rightarrow> psp_error + charge_result \<Rightarrow> nat \<times> json" where
  "outcome_response E att iv result =
     (let resp = \<lparr>rsp_attempt = enc_id_or_empty E prefix_payment_attempt (att_id att),
                  rsp_invoice = enc_id_or_empty E prefix_invoice (inv_id iv), rsp_status = [],
                  rsp_invoice_state = invoice_state_str (inv_state iv), rsp_psp_ref = [],
                  rsp_failure_code = [], rsp_failure_reason = []\<rparr>
      in case result of
        Inl _ \<Rightarrow> (202, pay_response_json (resp\<lparr>rsp_status := ''UNKNOWN'',
                          rsp_failure_reason := ''ambiguous_transport_error''\<rparr>))
      | Inr res \<Rightarrow>
          if cr_status res = ''failed'' then
            (402, pay_response_json (resp\<lparr>rsp_status := ''FAILED'',
                    rsp_failure_code := cr_failure_code res\<rparr>))
          else
            (200, pay_response_json (resp\<lparr>rsp_status := ''SUCCEEDED'',
                    rsp_invoice_state := ''PAID'', rsp_psp_ref := cr_psp_ref res\<rparr>)))"

definition settled_attempt ::
  "instant \<Rightarrow> psp_error + charge_result \<Rightarrow> payment_attempt \<Rightarrow> payment_attempt" where
  "settled_attempt now result a =
     (case result of
        Inl _ \<Rightarrow> a\<lparr>att_status := UNKNOWN, att_failure_reason := Some unknown_reason,
                   att_updated := now\<rparr>
      | Inr res \<Rightarrow>
          if cr_status res = ''failed'' then
            a\<lparr>att_status := FAILED, att_failure_code := Some (cr_failure_code res),
              att_failure_reason := Some ''payment_declined'', att_responded := Some now,
              att_updated := now\<rparr>
          else
            a\<lparr>att_status := SUCCEEDED, att_psp_ref := Some (cr_psp_ref res),
              att_responded := Some now, att_updated := now\<rparr>)"

definition outcome_event ::
  "env \<Rightarrow> payment_attempt \<Rightarrow> invoice \<Rightarrow> psp_error + charge_result \<Rightarrow> (event_type \<times> json) option"
where
  "outcome_event E att iv result =
     (let att_pub = enc_id_or_empty E prefix_payment_attempt (att_id att);
          ivc_pub = enc_id_or_empty E prefix_invoice (inv_id iv)
      in case result of
        Inl _ \<Rightarrow> None
      | Inr res \<Rightarrow>
          Some (if cr_status res = ''failed''
                then (INVOICE_PAYMENT_FAILED, failed_payload ivc_pub att_pub (cr_failure_code res))
                else (INVOICE_PAID, paid_payload ivc_pub att_pub (cr_psp_ref res))))"

definition processing_attempt :: "int64 \<Rightarrow> payment_attempt \<Rightarrow> bool" where
  "processing_attempt i r \<longleftrightarrow> att_id r = i \<and> att_status r = PROCESSING"

definition open_invoice :: "int64 \<Rightarrow> int64 \<Rightarrow> invoice \<Rightarrow> bool" where
  "open_invoice i b r \<longleftrightarrow> inv_id r = i \<and> inv_business r = b \<and> inv_state r = OPEN"

definition processing_key :: "int64 \<Rightarrow> idempotency_key \<Rightarrow> bool" where
  "processing_key i r \<longleftrightarrow> idm_id r = i \<and> idm_status r = IdemPROCESSING"

definition settled_db ::
  "env \<Rightarrow> instant \<Rightarrow> nat \<Rightarrow> int64 \<Rightarrow> payment_attempt \<Rightarrow> invoice \<Rightarrow> psp_error + charge_result
   \<Rightarrow> database \<Rightarrow> database" where
  "settled_db E now k b att iv result d =
     d\<lparr>payment_attempts := update_where (processing_attempt (att_id att))
                             (settled_attempt now result) (payment_attempts d),
       invoices := (if charged result
                    then update_where (open_invoice (inv_id iv) b)
                           (\<lambda>r. r\<lparr>inv_state := PAID, inv_updated := now\<rparr>) (invoices d)
                    else invoices d),
       webhook_deliveries := webhook_deliveries d
         @ (case outcome_event E att iv result of
              None \<Rightarrow> []
            | Some (ev, payload) \<Rightarrow>
                queued_rows E now (inv_id iv) ev payload k (active_endpoints b d))\<rparr>"

definition completed_key :: "env \<Rightarrow> instant \<Rightarrow> nat \<Rightarrow> json \<Rightarrow> idempotency_key \<Rightarrow> idempotency_key" where
  "completed_key E now status body r =
     r\<lparr>idm_status := IdemCOMPLETED, idm_response_status := Some (of_nat status),
       idm_response_body := Some (env_jsonb E body), idm_updated := now\<rparr>"

definition finalized_db ::
  "env \<Rightarrow> instant \<Rightarrow> nat \<Rightarrow> int64 \<Rightarrow> idempotency_key \<Rightarrow> payment_attempt \<Rightarrow> invoice
   \<Rightarrow> psp_error + charge_result \<Rightarrow> database \<Rightarrow> database" where
  "finalized_db E now k b idem att iv result d =
     (let (status, body) = outcome_response E att iv result in
      (settled_db E now k b att iv result d)
        \<lparr>idempotency_keys := update_where (processing_key (idm_id idem))
                               (completed_key E now status body) (idempotency_keys d)\<rparr>)"

definition settleable ::
  "int64 \<Rightarrow> payment_attempt \<Rightarrow> invoice \<Rightarrow> psp_error + charge_result \<Rightarrow> database \<Rightarrow> bool" where
  "settleable b att iv result d \<longleftrightarrow>
     list_ex (processing_attempt (att_id att)) (payment_attempts d)
     \<and> (charged result \<longrightarrow> list_ex (open_invoice (inv_id iv) b) (invoices d))"

lemma update_tx:
  assumes "in_tx w d" "query E Tx (update_one P f table store) w = (r, w')"
  shows "body_frame w w' \<and> w_ids w' = w_ids w \<and>
    (\<forall>x. r = Inr x \<longrightarrow> list_ex P (table d) \<and> in_tx w' (store (update_where P f (table d)) d))"
  using assms(2)[unfolded query_Tx] assms(1)
  by (cases rule: run_txE)
    (auto simp: body_frame_def list_ex_iff elim!: update_one_InrE)

lemma mark_attempt_eqs:
  "mark_payment_attempt_unknown now i unknown_reason =
     update_one (processing_attempt i) (settled_attempt now (Inl e)) payment_attempts
       (\<lambda>t d. d\<lparr>payment_attempts := t\<rparr>)"
  "cr_status res = ''failed'' \<Longrightarrow>
   mark_payment_attempt_failed now i (cr_failure_code res) ''payment_declined'' =
     update_one (processing_attempt i) (settled_attempt now (Inr res)) payment_attempts
       (\<lambda>t d. d\<lparr>payment_attempts := t\<rparr>)"
  "cr_status res \<noteq> ''failed'' \<Longrightarrow>
   mark_payment_attempt_succeeded now i (cr_psp_ref res) =
     update_one (processing_attempt i) (settled_attempt now (Inr res)) payment_attempts
       (\<lambda>t d. d\<lparr>payment_attempts := t\<rparr>)"
  by (simp_all add: stmt_defs processing_attempt_def [abs_def] settled_attempt_def [abs_def])

lemma mark_invoice_paid_eq:
  "mark_invoice_paid now i b =
     update_one (open_invoice i b) (\<lambda>r. r\<lparr>inv_state := PAID, inv_updated := now\<rparr>) invoices
       (\<lambda>t d. d\<lparr>invoices := t\<rparr>)"
  by (simp add: mark_invoice_paid_def open_invoice_def [abs_def])

lemma complete_key_eq:
  "complete_idempotency_key (env_jsonb E) now i (of_nat status) body =
     update_one (processing_key i) (completed_key E now status body) idempotency_keys
       (\<lambda>t d. d\<lparr>idempotency_keys := t\<rparr>)"
  by (simp add: complete_idempotency_key_def processing_key_def [abs_def] completed_key_def [abs_def])

text \<open>
  Recording the outcome: it fails, or answers with the response of the outcome and either holds
  the settled database or has aborted the transaction behind the code's back (a delivery that
  could not be queued).
\<close>

definition settle_ok ::
  "env \<Rightarrow> payment_attempt \<Rightarrow> invoice \<Rightarrow> psp_error + charge_result \<Rightarrow> int64 \<Rightarrow> world \<Rightarrow> database
   \<Rightarrow> db_error + nat \<times> pay_response \<Rightarrow> world \<Rightarrow> bool" where
  "settle_ok E att iv result b w d r w' \<longleftrightarrow>
     body_frame w w' \<and>
     (\<forall>status resp. r = Inr (status, resp) \<longrightarrow>
        (status, pay_response_json resp) = outcome_response E att iv result
        \<and> settleable b att iv result d
        \<and> (tx_dead w'
           \<or> in_tx w' (settled_db E (w_dbnow w) (w_ids w) b att iv result d)))"

lemma settle_unknown:
  assumes "in_tx w d" "settle E att iv (Inl pe) b w = (r, w')"
  shows "settle_ok E att iv (Inl pe) b w d r w'"
proof -
  obtain r1 w1 where q1: "query E Tx (mark_payment_attempt_unknown (w_dbnow w) (att_id att)
      unknown_reason) w = (r1, w1)" by fastforce
  note s1 = update_tx [OF assms(1) q1 [unfolded mark_attempt_eqs(1) [of _ _ pe]]]
  show ?thesis
    using assms(2) q1 s1
    by (cases r1)
      (auto simp: settle_def settle_ok_def Let_def outcome_response_def settleable_def
        settled_db_def outcome_event_def unknown_reason_def)
qed

lemma settle_failed:
  assumes "in_tx w d" "settle E att iv (Inr res) b w = (r, w')" "cr_status res = ''failed''"
  shows "settle_ok E att iv (Inr res) b w d r w'"
proof -
  obtain r1 w1 where q1: "query E Tx (mark_payment_attempt_failed (w_dbnow w) (att_id att)
      (cr_failure_code res) ''payment_declined'') w = (r1, w1)" by fastforce
  note s1 = update_tx [OF assms(1) q1 [unfolded mark_attempt_eqs(2) [OF assms(3)]]]
  show ?thesis
  proof (cases r1)
    case (Inr a)
    let ?ev = "failed_payload (enc_id_or_empty E prefix_invoice (inv_id iv))
      (enc_id_or_empty E prefix_payment_attempt (att_id att)) (cr_failure_code res)"
    obtain r2 w2 where q2:
      "queue_deliveries E Tx b (inv_id iv) INVOICE_PAYMENT_FAILED ?ev w1 = (r2, w2)" by fastforce
    from s1 Inr have w1: "in_tx w1 (d\<lparr>payment_attempts := update_where
        (processing_attempt (att_id att)) (settled_attempt (w_dbnow w) (Inr res))
        (payment_attempts d)\<rparr>)" by blast
    have run: "(r, w') = (Inr (402, \<lparr>rsp_attempt = enc_id_or_empty E prefix_payment_attempt (att_id att),
        rsp_invoice = enc_id_or_empty E prefix_invoice (inv_id iv), rsp_status = ''FAILED'',
        rsp_invoice_state = invoice_state_str (inv_state iv), rsp_psp_ref = [],
        rsp_failure_code = cr_failure_code res, rsp_failure_reason = []\<rparr>), w2)"
      using assms(2,3) q1 Inr q2 by (simp add: settle_def Let_def)
    show ?thesis
      using run s1 Inr queue_deliveries_tx [OF w1 q2] assms(3)
      by (auto simp: settle_ok_def outcome_response_def settleable_def settled_db_def
          outcome_event_def body_frame_def active_endpoints_def)
  qed (use assms(2,3) q1 s1 in \<open>auto simp: settle_def settle_ok_def Let_def\<close>)
qed

lemma settle_succeeded:
  assumes "in_tx w d" "settle E att iv (Inr res) b w = (r, w')" "cr_status res \<noteq> ''failed''"
  shows "settle_ok E att iv (Inr res) b w d r w'"
proof -
  obtain r1 w1 where q1: "query E Tx (mark_payment_attempt_succeeded (w_dbnow w) (att_id att)
      (cr_psp_ref res)) w = (r1, w1)" by fastforce
  note s1 = update_tx [OF assms(1) q1 [unfolded mark_attempt_eqs(3) [OF assms(3)]]]
  show ?thesis
  proof (cases r1)
    case (Inr a)
    let ?d1 = "d\<lparr>payment_attempts := update_where (processing_attempt (att_id att))
        (settled_attempt (w_dbnow w) (Inr res)) (payment_attempts d)\<rparr>"
    from s1 Inr have w1: "in_tx w1 ?d1" by blast
    obtain r2 w2 where q2: "query E Tx (mark_invoice_paid (w_dbnow w1) (inv_id iv) b) w1 = (r2, w2)"
      by fastforce
    note s2 = update_tx [OF w1 q2 [unfolded mark_invoice_paid_eq]]
    show ?thesis
    proof (cases r2)
      case (Inl e)
      with assms(2,3) q1 \<open>r1 = Inr a\<close> q2 s1 s2 show ?thesis
        by (auto simp: settle_def settle_ok_def Let_def body_frame_def)
    next
      case (Inr v)
      let ?ev = "paid_payload (enc_id_or_empty E prefix_invoice (inv_id iv))
        (enc_id_or_empty E prefix_payment_attempt (att_id att)) (cr_psp_ref res)"
      obtain r3 w3 where q3:
        "queue_deliveries E Tx b (inv_id iv) INVOICE_PAID ?ev w2 = (r3, w3)" by fastforce
      from s2 Inr have w2: "in_tx w2 (?d1\<lparr>invoices := update_where (open_invoice (inv_id iv) b)
          (\<lambda>r. r\<lparr>inv_state := PAID, inv_updated := w_dbnow w1\<rparr>) (invoices ?d1)\<rparr>)" by blast
      have run: "(r, w') = (Inr (200, \<lparr>rsp_attempt = enc_id_or_empty E prefix_payment_attempt (att_id att),
          rsp_invoice = enc_id_or_empty E prefix_invoice (inv_id iv), rsp_status = ''SUCCEEDED'',
          rsp_invoice_state = ''PAID'', rsp_psp_ref = cr_psp_ref res,
          rsp_failure_code = [], rsp_failure_reason = []\<rparr>), w3)"
        using assms(2,3) q1 \<open>r1 = Inr a\<close> q2 Inr q3 by (simp add: settle_def Let_def)
      have frame: "body_frame w w3" "w_dbnow w1 = w_dbnow w" "w_dbnow w2 = w_dbnow w"
        "w_ids w2 = w_ids w"
        using s1 s2 queue_deliveries_tx [OF w2 q3] by (auto simp: body_frame_def)
      show ?thesis
        using run s1 s2 \<open>r1 = Inr a\<close> Inr queue_deliveries_tx [OF w2 q3] assms(3) frame
        by (auto simp: settle_ok_def outcome_response_def settleable_def settled_db_def
            outcome_event_def active_endpoints_def)
    qed
  qed (use assms(2,3) q1 s1 in \<open>auto simp: settle_def settle_ok_def Let_def\<close>)
qed

lemma settle_tx:
  assumes "in_tx w d" "settle E att iv result b w = (r, w')"
  shows "settle_ok E att iv result b w d r w'"
proof (cases result)
  case (Inl e)
  with settle_unknown assms show ?thesis by simp
next
  case (Inr res)
  with settle_failed settle_succeeded assms show ?thesis
    by (cases "cr_status res = ''failed''") simp_all
qed

lemma finalize_body_tx:
  assumes "in_tx w d" "finalize_body E idem att iv result b w = (r, w')"
  shows "body_frame w w' \<and>
    (\<forall>x. r = Inr x \<longrightarrow> x = outcome_response E att iv result
       \<and> settleable b att iv result d \<and> list_ex (processing_key (idm_id idem)) (idempotency_keys d)
       \<and> in_tx w' (finalized_db E (w_dbnow w) (w_ids w) b idem att iv result d))"
proof -
  obtain r1 w1 where s: "settle E att iv result b w = (r1, w1)" by fastforce
  note s1 = settle_tx [OF assms(1) s, unfolded settle_ok_def]
  show ?thesis
  proof (cases r1)
    case (Inl e)
    with s s1 assms(2) show ?thesis by (simp add: finalize_body_def) auto
  next
    case (Inr x)
    then obtain status resp where r1: "r1 = Inr (status, resp)" by (cases x) simp
    let ?body = "pay_response_json resp"
    let ?d1 = "settled_db E (w_dbnow w) (w_ids w) b att iv result d"
    have out: "outcome_response E att iv result = (status, ?body)"
      and can: "settleable b att iv result d" and w1: "tx_dead w1 \<or> in_tx w1 ?d1"
      and fr: "body_frame w w1"
      using s1 r1 by auto
    obtain r2 w2 where q2: "query E Tx (complete_idempotency_key (env_jsonb E) (w_dbnow w1)
        (idm_id idem) (of_nat status) ?body) w1 = (r2, w2)" by fastforce
    have run: "(r, w') = (case r2 of Inl e \<Rightarrow> (Inl e, w2) | Inr _ \<Rightarrow> (Inr (status, ?body), w2))"
      using assms(2) s r1 q2 by (simp add: finalize_body_def split: sum.split)
    from w1 show ?thesis
    proof
      assume "tx_dead w1"
      with run q2 fr show ?thesis
        by (auto simp: query_Tx run_tx_dead)
    next
      assume in1: "in_tx w1 ?d1"
      have "idempotency_keys ?d1 = idempotency_keys d" by (simp add: settled_db_def)
      with run fr out can update_tx [OF in1 q2 [unfolded complete_key_eq]] show ?thesis
        by (cases r2) (auto simp: finalized_db_def body_frame_def)
    qed
  qed
qed

text \<open>
  \<open>finalize\<close> is all or nothing: the committed database is untouched or is the finalized one, and
  a response is returned only in the second case.
\<close>

lemma finalize_spec:
  assumes "finalize E idem att iv result b w = (r, w')" "w_tx w = None"
  shows "w_tx w' = None \<and> w_psp w' = w_psp w \<and> w_dbnow w' = w_dbnow w \<and>
    (w_db w' = w_db w \<and> (\<forall>x. r \<noteq> Inr x)
     \<or> w_db w' = finalized_db E (w_dbnow w) (w_ids w) b idem att iv result (w_db w)
       \<and> settleable b att iv result (w_db w)
       \<and> list_ex (processing_key (idm_id idem)) (idempotency_keys (w_db w))
       \<and> (\<forall>x. r = Inr x \<longrightarrow> x = outcome_response E att iv result))"
  using assms(1)[unfolded finalize_def]
proof (cases rule: with_txE)
  case (error e w2)
  with finalize_body_tx [OF begun_in_tx error(1)] show ?thesis by (auto simp: body_frame_def)
next
  case (committed x w2 d)
  with finalize_body_tx [OF begun_in_tx committed(1)] show ?thesis
    by (auto simp: body_frame_def in_tx_def)
next
  case (failed x w2 e)
  with finalize_body_tx [OF begun_in_tx failed(1)] show ?thesis by (auto simp: body_frame_def)
qed (use assms(2) in simp)

section \<open>What the handler does\<close>

text \<open>A request that passes the handler's checks, with the key, invoice and token it uses.\<close>

definition pay_request ::
  "env \<Rightarrow> string \<Rightarrow> string \<Rightarrow> string option \<Rightarrow> string \<Rightarrow> int64 \<Rightarrow> string \<Rightarrow> bool" where
  "pay_request E header id_param body key ivc token \<longleftrightarrow>
     key = trim_space header \<and> key \<noteq> [] \<and> length key \<le> 255
     \<and> dec_id E prefix_invoice id_param = Inr ivc
     \<and> (\<exists>raw. body = Some raw \<and> token = trim_space raw) \<and> token \<noteq> []"

lemma pay_invoice_valid:
  "pay_request E header id_param body key ivc token \<Longrightarrow>
   pay_invoice E b header id_param body w =
     (case claim E b ivc key (fingerprint (env_sha256 E) ivc token) w of
        (Inl e, w1) \<Rightarrow> (claim_failure e, w1)
      | (Inr cl, w1) \<Rightarrow> pay_claimed E b token cl w1)"
  by (auto simp: pay_request_def pay_invoice_def Let_def)

lemma pay_invoiceE:
  assumes "pay_invoice E b header id_param body w = (rep, w')"
  obtains (invalid)
      "rep \<in> {fail_with 400 ''invalid_idempotency_key'' ''Idempotency-Key header is required'',
              fail_with 404 ''not_found'' ''Invoice not found'',
              fail_with 400 ''bad_request'' ''card_token is required''}" "w' = w"
      "\<nexists>key ivc token. pay_request E header id_param body key ivc token"
      "rep = fail_with 404 ''not_found'' ''Invoice not found'' \<Longrightarrow>
         \<exists>e. dec_id E prefix_invoice id_param = Inl e"
  | (valid) key ivc token where "pay_request E header id_param body key ivc token"
proof (cases "\<exists>key ivc token. pay_request E header id_param body key ivc token")
  case False
  then show ?thesis
    using assms
    by (intro invalid)
      (auto simp: pay_request_def pay_invoice_def Let_def fail_with_def new_error_response_def
        split: if_splits sum.splits option.splits)
qed (use valid in blast)

text \<open>Charging and recording a granted claim, in one step: the outcome on the claimed rows.\<close>

definition card_request :: "string \<Rightarrow> payment_attempt \<Rightarrow> invoice \<Rightarrow> charge_request" where
  "card_request token att iv =
     \<lparr>crq_token = token, crq_amount = inv_total iv, crq_currency = inv_currency iv,
      crq_psp_request = att_psp_request att\<rparr>"

definition verdict :: "env \<Rightarrow> world \<Rightarrow> charge_request \<Rightarrow> psp_error + charge_result" where
  "verdict E w req = charge (env_psp_client E) (env_psp E (length (w_psp w))) req"

lemma pay_claimed_spec:
  assumes "pay_claimed E b token (Claimed idem att iv) w = (rep, w')" "w_tx w = None"
  defines "req \<equiv> card_request token att iv"
  shows "w_tx w' = None \<and> w_psp w' = w_psp w @ [req] \<and>
    (w_db w' = w_db w \<and> rep = fail_with 500 ''internal_error'' ''Failed to finalize payment''
     \<or> w_db w' = finalized_db E (w_dbnow w) (w_ids w) b idem att iv (verdict E w req) (w_db w)
       \<and> settleable b att iv (verdict E w req) (w_db w)
       \<and> list_ex (processing_key (idm_id idem)) (idempotency_keys (w_db w))
       \<and> (rep = fail_with 500 ''internal_error'' ''Failed to finalize payment''
          \<or> rep = Reply (fst (outcome_response E att iv (verdict E w req)))
                    (Some (snd (outcome_response E att iv (verdict E w req))))))"
proof -
  let ?w1 = "w\<lparr>w_psp := w_psp w @ [req]\<rparr>"
  obtain r2 w2 where f: "finalize E idem att iv (verdict E w req) b ?w1 = (r2, w2)" by fastforce
  have run: "(rep, w') = (case r2 of
      Inl e \<Rightarrow> (fail_with 500 ''internal_error'' ''Failed to finalize payment'', w2)
    | Inr (status, doc) \<Rightarrow> (Reply status (Some doc), w2))"
    using assms(1) f
    by (simp add: pay_claimed_def charge_card_def verdict_def req_def card_request_def
        split: sum.split prod.split)
  have "w_tx ?w1 = None" using assms(2) by simp
  from finalize_spec [OF f this] run show ?thesis
    by (cases r2) (auto simp: case_prod_unfold)
qed

text \<open>A claim's rows are new, so finalizing touches only them, the invoice and the outbox.\<close>

lemma update_where_idle: "\<forall>r \<in> set rows. \<not> P r \<Longrightarrow> update_where P f rows = rows"
  by (simp add: update_where_def map_idI)

lemma update_where_append:
  "update_where P f (xs @ ys) = update_where P f xs @ update_where P f ys"
  by (simp add: update_where_def)

definition paid_db ::
  "env \<Rightarrow> instant \<Rightarrow> nat \<Rightarrow> int64 \<Rightarrow> idempotency_key \<Rightarrow> payment_attempt \<Rightarrow> invoice
   \<Rightarrow> psp_error + charge_result \<Rightarrow> database \<Rightarrow> database" where
  "paid_db E now k b idem att iv result d =
     (let (status, doc) = outcome_response E att iv result in
      d\<lparr>idempotency_keys := idempotency_keys d @ [completed_key E now status doc idem],
        payment_attempts := payment_attempts d @ [settled_attempt now result att],
        invoices := (if charged result
                     then update_where (open_invoice (inv_id iv) b)
                            (\<lambda>r. r\<lparr>inv_state := PAID, inv_updated := now\<rparr>) (invoices d)
                     else invoices d),
        webhook_deliveries := webhook_deliveries d
          @ (case outcome_event E att iv result of
               None \<Rightarrow> []
             | Some (ev, payload) \<Rightarrow>
                 queued_rows E now (inv_id iv) ev payload k (active_endpoints b d))\<rparr>)"

lemma paid_db_sel:
  "payment_attempts (paid_db E now k b idem att iv result d)
     = payment_attempts d @ [settled_attempt now result att]"
  "idempotency_keys (paid_db E now k b idem att iv result d)
     = idempotency_keys d @ [completed_key E now (fst (outcome_response E att iv result))
         (snd (outcome_response E att iv result)) idem]"
  "invoices (paid_db E now k b idem att iv result d)
     = (if charged result
        then update_where (open_invoice (inv_id iv) b)
               (\<lambda>r. r\<lparr>inv_state := PAID, inv_updated := now\<rparr>) (invoices d)
        else invoices d)"
  "webhook_deliveries (paid_db E now k b idem att iv result d)
     = webhook_deliveries d
         @ (case outcome_event E att iv result of
              None \<Rightarrow> []
            | Some (ev, payload) \<Rightarrow>
                queued_rows E now (inv_id iv) ev payload k (active_endpoints b d))"
  by (simp_all add: paid_db_def case_prod_unfold Let_def)

lemma settled_attempt_sel [simp]:
  "att_id (settled_attempt now result a) = att_id a"
  "att_invoice (settled_attempt now result a) = att_invoice a"
  "att_idem (settled_attempt now result a) = att_idem a"
  "att_psp_request (settled_attempt now result a) = att_psp_request a"
  by (auto simp: settled_attempt_def split: sum.split)

lemma finalized_claimed:
  assumes "claim_granted E now0 k0 b ivc key hash d (Claimed idem att iv) d1"
  shows "finalized_db E now k b idem att iv result d1 = paid_db E now k b idem att iv result d"
proof -
  have d1: "d1 = d\<lparr>idempotency_keys := idempotency_keys d @ [idem],
                   payment_attempts := payment_attempts d @ [att]\<rparr>"
    and i: "\<forall>r \<in> set (idempotency_keys d). \<not> processing_key (idm_id idem) r"
      "processing_key (idm_id idem) idem"
    and a: "\<forall>r \<in> set (payment_attempts d). \<not> processing_attempt (att_id att) r"
      "processing_attempt (att_id att) att"
    using assms
    by (auto simp: claim_granted_def processing_key_def processing_attempt_def occurs_iff image_iff)
  have e: "active_endpoints b d1 = active_endpoints b d"
    by (simp add: active_endpoints_def d1)
  have one: "update_where P f [x] = (if P x then [f x] else [x])" for P :: "'r \<Rightarrow> bool" and f x
    by (simp add: update_where_def)
  have u: "update_where (processing_key (idm_id idem)) f (idempotency_keys d1)
        = idempotency_keys d @ [f idem]"
      "update_where (processing_attempt (att_id att)) g (payment_attempts d1)
        = payment_attempts d @ [g att]" for f g
    using i a by (simp_all add: d1 update_where_append update_where_idle one)
  show ?thesis
    by (rule database.equality)
      (simp_all add: finalized_db_def settled_db_def paid_db_def Let_def u e case_prod_unfold,
        simp_all add: d1 active_endpoints_def split: option.split)
qed

end
