(* ===== verification/Payment_Effect.thy ===== *)
theory Payment_Effect
  imports Payment
begin

text \<open>
  The payment endpoint as one operation: how the database, the calls to the payment provider and
  the answer of one request belong together, whatever statement fails.
\<close>

section \<open>All outcomes of a request\<close>

abbreviation fp :: "env \<Rightarrow> int64 \<Rightarrow> string \<Rightarrow> string" where
  "fp E \<equiv> fingerprint (env_sha256 E)"

text \<open>A new claim was committed in the course of the request.\<close>

definition claimed_by ::
  "env \<Rightarrow> world \<Rightarrow> int64 \<Rightarrow> string \<Rightarrow> int64 \<Rightarrow> string \<Rightarrow> idempotency_key \<Rightarrow> payment_attempt
   \<Rightarrow> invoice \<Rightarrow> database \<Rightarrow> bool" where
  "claimed_by E w b key ivc token idem att iv d1 \<longleftrightarrow>
     claim_granted E (w_dbnow w) (w_ids w) b ivc key (fp E ivc token) (w_db w)
       (Claimed idem att iv) d1"

abbreviation claim_failed :: "json option reply" where
  "claim_failed \<equiv> fail_with 500 ''internal_error'' ''Failed to claim payment''"

abbreviation finalize_failed :: "json option reply" where
  "finalize_failed \<equiv> fail_with 500 ''internal_error'' ''Failed to finalize payment''"

lemma pay_cases:
  assumes run: "pay_invoice E b header id_param body w = (rep, w')" and idle: "w_tx w = None"
    and req: "pay_request E header id_param body key ivc token"
  obtains
    (refused) e where "w_db w' = w_db w" "w_psp w' = w_psp w" "rep = claim_failure e"
      "claim_refused E (w_ids w) b ivc key (fp E ivc token) (w_db w) e"
  | (replayed) ex where "w_db w' = w_db w" "w_psp w' = w_psp w" "rep = replay_reply ex"
      "lookup_idem b key (w_db w) = Some ex" "idm_hash ex = fp E ivc token"
      "idm_status ex = IdemCOMPLETED"
  | (claim_lost) idem att iv where "claimed_by E w b key ivc token idem att iv (w_db w')"
      "w_psp w' = w_psp w" "rep = claim_failed"
  | (stuck) idem att iv where "claimed_by E w b key ivc token idem att iv (w_db w')"
      "w_psp w' = w_psp w @ [card_request token att iv]" "rep = finalize_failed"
  | (settled) idem att iv d1 k result where "claimed_by E w b key ivc token idem att iv d1"
      "w_psp w' = w_psp w @ [card_request token att iv]"
      "result = verdict E w (card_request token att iv)"
      "settleable b att iv result d1"
      "w_db w' = paid_db E (w_dbnow w) k b idem att iv result (w_db w)"
      "rep = finalize_failed \<or>
       rep = Reply (fst (outcome_response E att iv result))
               (Some (snd (outcome_response E att iv result)))"
proof -
  obtain r1 w1 where c: "claim E b ivc key (fp E ivc token) w = (r1, w1)" by fastforce
  note s1 = claim_spec [OF c idle]
  show thesis
  proof (cases r1)
    case (Inl e)
    then have out: "rep = claim_failure e" "w' = w1"
      using run c by (simp_all add: pay_invoice_valid [OF req])
    from s1 Inl consider "w_db w1 = w_db w"
      | cl where "e = PayDb Unavailable"
        "claim_granted E (w_dbnow w) (w_ids w) b ivc key (fp E ivc token) (w_db w) cl (w_db w1)"
      by auto
    then show thesis
    proof cases
      case 1
      with s1 Inl out refused show thesis by auto
    next
      case (2 cl)
      show thesis
      proof (cases cl)
        case (Replay ex)
        with 2 s1 Inl out refused show thesis by (auto simp: claim_granted_def)
      next
        case (Claimed idem att iv)
        with 2 s1 Inl out claim_lost show thesis
          by (auto simp: claimed_by_def claim_failure_def)
      qed
    qed
  next
    case (Inr cl)
    then have go: "pay_claimed E b token cl w1 = (rep, w')"
      using run c by (simp add: pay_invoice_valid [OF req])
    show thesis
    proof (cases cl)
      case (Replay ex)
      with s1 Inr go replayed show thesis by (auto simp: claim_granted_def pay_claimed_def)
    next
      case (Claimed idem att iv)
      have g: "claim_granted E (w_dbnow w) (w_ids w) b ivc key (fp E ivc token) (w_db w)
            (Claimed idem att iv) (w_db w1)" and w1: "w_tx w1 = None" "w_psp w1 = w_psp w"
          "w_dbnow w1 = w_dbnow w"
        using s1 Inr Claimed by auto
      have v: "verdict E w1 q = verdict E w q" for q by (simp add: verdict_def w1)
      show thesis
        using pay_claimed_spec [OF go [unfolded Claimed] w1(1)] g w1
          finalized_claimed [OF g] stuck settled
        by (auto simp: v claimed_by_def)
    qed
  qed
qed

lemma exI5: "P a b c d e \<Longrightarrow> \<exists>a b c d e. P a b c d e"
  by blast

section \<open>Safety\<close>

text \<open>
  C2. The card is charged at most once per request, and only after the intent was committed: a
  call to the provider, or a change of the database, means that the request is valid, its key was
  unused, the invoice belongs to the business, was OPEN and had no unresolved attempt. The call is
  for the invoice's total and currency, and the committed database still holds the new attempt
  with the provider request id of the call.
\<close>

theorem pay_charges_claimed_invoice:
  assumes "pay_invoice E b header id_param body w = (rep, w')" "w_tx w = None"
    and "w_psp w' \<noteq> w_psp w \<or> w_db w' \<noteq> w_db w"
  shows "\<exists>key ivc token iv (att :: payment_attempt).
    pay_request E header id_param body key ivc token
    \<and> lookup_idem b key (w_db w) = None
    \<and> lookup_invoice b ivc (w_db w) = Some iv \<and> inv_state iv = OPEN
    \<and> \<not> has_unresolved ivc (w_db w)
    \<and> (w_psp w' = w_psp w \<or> w_psp w' = w_psp w @
         [\<lparr>crq_token = token, crq_amount = inv_total iv, crq_currency = inv_currency iv,
           crq_psp_request = att_psp_request att\<rparr>])
    \<and> (\<exists>a \<in> set (payment_attempts (w_db w')). att_id a = att_id att
         \<and> att_invoice a = ivc \<and> att_psp_request a = att_psp_request att)
    \<and> \<not> occurs att_psp_request (att_psp_request att) (payment_attempts (w_db w))"
  using assms(1)
proof (cases rule: pay_invoiceE)
  case (valid key ivc token)
  have att: "\<And>idem att iv d1. claimed_by E w b key ivc token idem att iv d1 \<Longrightarrow>
      lookup_idem b key (w_db w) = None \<and> lookup_invoice b ivc (w_db w) = Some iv
      \<and> inv_state iv = OPEN \<and> \<not> has_unresolved ivc (w_db w) \<and> att_invoice att = ivc
      \<and> \<not> occurs att_psp_request (att_psp_request att) (payment_attempts (w_db w))
      \<and> att \<in> set (payment_attempts d1)"
    by (auto simp: claimed_by_def claim_granted_def)
  from assms(1,2) valid show ?thesis
  proof (cases rule: pay_cases)
    case (claim_lost idem att iv)
    show ?thesis
      by (rule exI5 [of _ key ivc token iv att])
        (use valid att [OF claim_lost(1)] claim_lost(2) in auto)
  next
    case (stuck idem att iv)
    show ?thesis
      by (rule exI5 [of _ key ivc token iv att])
        (use valid att [OF stuck(1)] stuck(2) in \<open>auto simp: card_request_def\<close>)
  next
    case (settled idem att iv d1 k result)
    have "settled_attempt (w_dbnow w) result att \<in> set (payment_attempts (w_db w'))"
      using settled(5) by (simp add: paid_db_sel)
    moreover have "att_id (settled_attempt (w_dbnow w) result att) = att_id att"
      "att_invoice (settled_attempt (w_dbnow w) result att) = ivc"
      "att_psp_request (settled_attempt (w_dbnow w) result att) = att_psp_request att"
      using att [OF settled(1)] by simp_all
    ultimately have a: "\<exists>a \<in> set (payment_attempts (w_db w')). att_id a = att_id att
         \<and> att_invoice a = ivc \<and> att_psp_request a = att_psp_request att"
      by blast
    show ?thesis
      by (rule exI5 [of _ key ivc token iv att])
        (use valid att [OF settled(1)] settled(2) a in \<open>simp add: card_request_def\<close>)
  qed (use assms(3) in auto)
qed (use assms(3) in auto)

text \<open>
  C7. A request whose key the business has used before never reaches the provider and changes
  nothing. It is answered by the stored response if the first request is finished and was the
  same, by a conflict if it was another request or is still being processed, or by the internal
  error if a statement fails.
\<close>

theorem pay_known_key:
  assumes "pay_invoice E b header id_param body w = (rep, w')" "w_tx w = None"
    and "pay_request E header id_param body key ivc token"
    and "lookup_idem b key (w_db w) = Some ex"
  shows "w_psp w' = w_psp w \<and> w_db w' = w_db w \<and>
    (rep = fail_with 500 ''internal_error'' ''Failed to claim payment''
     \<or> rep = (if idm_hash ex \<noteq> fingerprint (env_sha256 E) ivc token
              then fail_with 409 ''idempotency_conflict''
                     ''Idempotency key was already used with a different request''
              else if idm_status ex = IdemCOMPLETED then replay_reply ex
              else fail_with 409 ''payment_in_progress''
                     ''A payment is already processing for this invoice''))"
  using assms(1,2,3)
proof (cases rule: pay_cases)
  case (refused e)
  with assms(4) show ?thesis
    by (auto simp: claim_refused_def claim_failure_def split: pay_error.splits db_error.splits)
qed (use assms(4) in \<open>auto simp: claimed_by_def claim_granted_def\<close>)

text \<open>
  What a recorded outcome with a status looks like: one new attempt and one new completed key
  that holds the response, the invoice paid exactly if the status is 200, and one pending
  delivery of the matching event per active endpoint unless the outcome is unknown.
\<close>

definition attempt_status_of :: "nat \<Rightarrow> payment_status" where
  "attempt_status_of status =
     (if status = 200 then SUCCEEDED else if status = 402 then FAILED else UNKNOWN)"

definition payment_recorded ::
  "env \<Rightarrow> instant \<Rightarrow> int64 \<Rightarrow> int64 \<Rightarrow> string \<Rightarrow> nat \<Rightarrow> json \<Rightarrow> database \<Rightarrow> database \<Rightarrow> bool" where
  "payment_recorded E now b ivc key status doc d d' \<longleftrightarrow>
     (\<exists>a i new.
        payment_attempts d' = payment_attempts d @ [a]
        \<and> att_invoice a = ivc \<and> att_idem a = idm_id i \<and> att_status a = attempt_status_of status
        \<and> idempotency_keys d' = idempotency_keys d @ [i]
        \<and> idm_business i = b \<and> idm_key i = key \<and> idm_status i = IdemCOMPLETED
        \<and> idm_response_status i = Some (of_nat status)
        \<and> idm_response_body i = Some (env_jsonb E doc)
        \<and> webhook_deliveries d' = webhook_deliveries d @ new
        \<and> map whd_endpoint new = (if status = 202 then [] else map whe_id (active_endpoints b d))
        \<and> (\<forall>x \<in> set new. whd_status x = DlvPENDING \<and> whd_invoice x = ivc
             \<and> whd_event x = (if status = 200 then INVOICE_PAID else INVOICE_PAYMENT_FAILED)))
     \<and> invoices d' =
        (if status = 200
         then map (\<lambda>r. if inv_id r = ivc \<and> inv_business r = b \<and> inv_state r = OPEN
                       then r\<lparr>inv_state := PAID, inv_updated := now\<rparr> else r) (invoices d)
         else invoices d)
     \<and> invoice_items d' = invoice_items d \<and> customers d' = customers d
     \<and> businesses d' = businesses d \<and> api_keys d' = api_keys d
     \<and> webhook_endpoints d' = webhook_endpoints d"

lemma outcome_status:
  "fst (outcome_response E att iv result)
     = (case result of Inl _ \<Rightarrow> 202 | Inr res \<Rightarrow> if cr_status res = ''failed'' then 402 else 200)"
  by (simp add: outcome_response_def Let_def split: sum.split)

lemma paid_db_recorded:
  assumes "claimed_by E w b key ivc token idem att iv d1"
  shows "payment_recorded E now b ivc key (fst (outcome_response E att iv result))
    (snd (outcome_response E att iv result)) (w_db w)
    (paid_db E now k b idem att iv result (w_db w))"
proof -
  let ?d' = "paid_db E now k b idem att iv result (w_db w)"
  let ?s = "fst (outcome_response E att iv result)"
  have c: "att_invoice att = ivc" "inv_id iv = ivc" "idm_business idem = b" "idm_key idem = key"
      "att_idem att = idm_id idem" "idm_status idem = IdemPROCESSING"
    using assms
    by (auto simp: claimed_by_def claim_granted_def lookup_invoice_def dest!: find_Some_mem)
  have st: "att_status (settled_attempt now result att) = attempt_status_of ?s"
    by (auto simp: settled_attempt_def outcome_status attempt_status_of_def split: sum.split)
  have ch: "charged result \<longleftrightarrow> ?s = 200"
    by (auto simp: outcome_status split: sum.split)
  let ?new = "case outcome_event E att iv result of
               None \<Rightarrow> []
             | Some (ev, payload) \<Rightarrow>
                 queued_rows E now (inv_id iv) ev payload k (active_endpoints b (w_db w))"
  have new: "map whd_endpoint ?new = (if ?s = 202 then [] else map whe_id (active_endpoints b (w_db w)))"
    by (auto simp: outcome_event_def outcome_status queued_rows_endpoints Let_def split: sum.split)
  have ev: "\<forall>x \<in> set ?new. whd_status x = DlvPENDING \<and> whd_invoice x = ivc
             \<and> whd_event x = (if ?s = 200 then INVOICE_PAID else INVOICE_PAYMENT_FAILED)"
    using c by (auto simp: outcome_event_def outcome_status Let_def dest!: queued_rows_mem
        split: sum.splits if_splits)
  have other: "invoice_items ?d' = invoice_items (w_db w)" "customers ?d' = customers (w_db w)"
      "businesses ?d' = businesses (w_db w)" "api_keys ?d' = api_keys (w_db w)"
      "webhook_endpoints ?d' = webhook_endpoints (w_db w)"
    by (simp_all add: paid_db_def case_prod_unfold Let_def)
  have invs: "invoices ?d' = (if ?s = 200
         then map (\<lambda>r. if inv_id r = ivc \<and> inv_business r = b \<and> inv_state r = OPEN
                       then r\<lparr>inv_state := PAID, inv_updated := now\<rparr> else r) (invoices (w_db w))
         else invoices (w_db w))"
    by (simp add: paid_db_sel ch update_where_def open_invoice_def c)
  show ?thesis
    unfolding payment_recorded_def
    by (intro conjI exI [of _ "settled_attempt now result att"] exI [of _ ?new]
        exI [of _ "completed_key E now ?s (snd (outcome_response E att iv result)) idem"])
      (use c st new ev other invs in \<open>simp_all add: paid_db_sel completed_key_def\<close>)
qed

text \<open>
  C3. Recording an outcome is all or nothing. After a call to the provider the committed database
  holds either only the intent (the two PROCESSING rows, nothing else changed) and the answer is
  the internal error, or the whole outcome: attempt, key with the response, invoice and webhook
  deliveries, with the status that the provider's verdict determines. A response is only sent in
  the second case.
\<close>

theorem pay_all_or_nothing:
  assumes "pay_invoice E b header id_param body w = (rep, w')" "w_tx w = None"
    and "w_psp w' = w_psp w @ [req]"
  shows "\<exists>key ivc token. pay_request E header id_param body key ivc token \<and>
    ((\<exists>i a. w_db w' = (w_db w)\<lparr>idempotency_keys := idempotency_keys (w_db w) @ [i],
                               payment_attempts := payment_attempts (w_db w) @ [a]\<rparr>
        \<and> idm_status i = IdemPROCESSING \<and> att_status a = PROCESSING \<and> att_invoice a = ivc)
       \<and> rep = fail_with 500 ''internal_error'' ''Failed to finalize payment''
     \<or> (\<exists>status doc. payment_recorded E (w_dbnow w) b ivc key status doc (w_db w) (w_db w')
        \<and> status = (case charge (env_psp_client E) (env_psp E (length (w_psp w))) req of
                      Inl _ \<Rightarrow> 202
                    | Inr res \<Rightarrow> if cr_status res = ''succeeded'' then 200 else 402)
        \<and> (rep = Reply status (Some doc)
           \<or> rep = fail_with 500 ''internal_error'' ''Failed to finalize payment'')))"
  using assms(1)
proof (cases rule: pay_invoiceE)
  case (valid key ivc token)
  from assms(1,2) valid show ?thesis
  proof (cases rule: pay_cases)
    case (stuck idem att iv)
    then have "w_db w' = (w_db w)\<lparr>idempotency_keys := idempotency_keys (w_db w) @ [idem],
                               payment_attempts := payment_attempts (w_db w) @ [att]\<rparr>"
      "idm_status idem = IdemPROCESSING" "att_status att = PROCESSING" "att_invoice att = ivc"
      by (auto simp: claimed_by_def claim_granted_def)
    with valid stuck(3) show ?thesis by blast
  next
    case (settled idem att iv d1 k result)
    have req: "card_request token att iv = req"
      using settled(2) assms(3) by simp
    have status: "fst (outcome_response E att iv result)
        = (case charge (env_psp_client E) (env_psp E (length (w_psp w))) req of
             Inl _ \<Rightarrow> 202
           | Inr res \<Rightarrow> if cr_status res = ''succeeded'' then 200 else 402)"
      using settled(3)
      by (auto simp: outcome_status verdict_def req split: sum.split dest: charge_result_status)
    show ?thesis
      using valid paid_db_recorded [OF settled(1), of "w_dbnow w" result k]
        settled(5,6) status by metis
  qed (use assms(3) in auto)
qed (use assms(3) in auto)

lemma recorded_lookup:
  assumes "claimed_by E w b key ivc token idem att iv d1"
  shows "lookup_idem b key (paid_db E now k b idem att iv result (w_db w))
    = Some (completed_key E now (fst (outcome_response E att iv result))
              (snd (outcome_response E att iv result)) idem)"
  using assms
  by (auto simp: claimed_by_def claim_granted_def lookup_idem_def paid_db_sel find_append
      completed_key_def new_idem_def)

text \<open>
  C18. The error answers are honest: a 404 means that the id does not decode or that the business
  has no such invoice (another tenant's invoice is reported as missing); the conflict codes mean
  a key used for another request, and an unused key and an invoice that is not OPEN. A payment in
  progress is reported only for the key of the same request, still unfinished, or for an unused key
  and an OPEN invoice that has an unresolved attempt; or, since the code takes every unique violation
  for that, if the generator has repeated an id that an attempt has already.
\<close>

theorem pay_errors_honest:
  assumes "pay_invoice E b header id_param body w = (ErrorReply status err, w')" "w_tx w = None"
  shows
    "(status = 404 \<longrightarrow> (\<exists>e. dec_id E prefix_invoice id_param = Inl e)
       \<or> (\<exists>ivc. dec_id E prefix_invoice id_param = Inr ivc \<and> lookup_invoice b ivc (w_db w) = None))
     \<and> (err_code err = ''idempotency_conflict'' \<longrightarrow>
       (\<exists>ivc ex raw. dec_id E prefix_invoice id_param = Inr ivc \<and> body = Some raw
         \<and> lookup_idem b (trim_space header) (w_db w) = Some ex
         \<and> idm_hash ex \<noteq> fingerprint (env_sha256 E) ivc (trim_space raw)))
     \<and> (err_code err = ''invoice_not_payable'' \<longrightarrow>
       (\<exists>ivc iv. dec_id E prefix_invoice id_param = Inr ivc
         \<and> lookup_idem b (trim_space header) (w_db w) = None
         \<and> lookup_invoice b ivc (w_db w) = Some iv \<and> inv_state iv \<noteq> OPEN))
     \<and> (err_code err = ''payment_in_progress'' \<longrightarrow>
       (\<exists>ivc ex raw. dec_id E prefix_invoice id_param = Inr ivc \<and> body = Some raw
         \<and> lookup_idem b (trim_space header) (w_db w) = Some ex \<and> idm_status ex = IdemPROCESSING
         \<and> idm_hash ex = fingerprint (env_sha256 E) ivc (trim_space raw))
       \<or> (\<exists>ivc iv. dec_id E prefix_invoice id_param = Inr ivc
         \<and> lookup_idem b (trim_space header) (w_db w) = None
         \<and> lookup_invoice b ivc (w_db w) = Some iv \<and> inv_state iv = OPEN
         \<and> (has_unresolved ivc (w_db w) \<or> ids_collide E (w_ids w) (w_db w))))"
  using assms(1)
proof (cases rule: pay_invoiceE)
  case invalid
  then show ?thesis by (auto simp: fail_with_def new_error_response_def)
next
  case (valid key ivc token)
  from assms valid show ?thesis
  proof (cases rule: pay_cases)
    case (refused e)
    with valid show ?thesis
      by (auto simp: fail_with_def claim_failure_def claim_refused_def pay_request_def
          new_error_response_def split: pay_error.splits db_error.splits option.splits)
  qed (auto simp: fail_with_def replay_reply_def new_error_response_def)
qed

end
