(* ===== verification/Scenario.thy ===== *)
theory Scenario
  imports Outbox
begin

text \<open>
  A small concrete run-time environment and database, at which the properties' hypotheses are
  evaluated: one business with a customer, an OPEN invoice and an active webhook endpoint, the
  mock provider, no faults, and identity functions for the hash parameters.
\<close>

definition demo_env :: env where
  "demo_env =
     \<lparr>env_hmac = (\<lambda>k m. []), env_sha256 = (\<lambda>s. s), env_jsonb = (\<lambda>j. j), env_render = (\<lambda>j. ''{}''),
      env_rfc3339 = (\<lambda>t. fmt_int t), env_mail = (\<lambda>a. Some a),
      env_uri = (\<lambda>u. Some (''https'', ''h'')), env_codec = \<lparr>secret = ''s''\<rparr>,
      env_ids = (\<lambda>k. of_nat (100 + k)), env_outcome = (\<lambda>k. Answered),
      env_locked = (\<lambda>k i. False), env_elapsed = (\<lambda>k r. 0),
      env_psp_client = \<lparr>cli_base_url = ''http://psp'', cli_timeout = 3000000000\<rparr>,
      env_psp = (\<lambda>k. mock_transport ''http://psp''
                   \<lparr>cli_base_url = ''http://psp'', cli_timeout = 3000000000\<rparr> 0),
      env_hook = (\<lambda>k r. HookStatus 200)\<rparr>"

definition demo_invoice :: invoice where
  "demo_invoice =
     \<lparr>inv_id = 3, inv_business = 1, inv_customer = 2, inv_total = 500, inv_currency = ''USD'',
      inv_state = OPEN, inv_due = Some (2030, 1, 31), inv_created = 0, inv_updated = 0\<rparr>"

definition demo_db :: database where
  "demo_db = empty_db
     \<lparr>businesses := [\<lparr>biz_id = 1, biz_name = ''b'', biz_created = 0, biz_updated = 0\<rparr>],
      customers := [\<lparr>cus_id = 2, cus_business = 1, cus_name = ''c'', cus_email = ''e'',
                     cus_created = 0, cus_updated = 0\<rparr>],
      invoices := [demo_invoice],
      webhook_endpoints := [\<lparr>whe_id = 4, whe_business = 1, whe_url = ''u'', whe_secret = ''k'',
                             whe_active = True, whe_created = 0, whe_updated = 0\<rparr>]\<rparr>"

definition demo_world :: world where
  "demo_world = \<lparr>w_db = demo_db, w_tx = None, w_ids = 0, w_calls = 0, w_psp = [], w_hooks = [],
                 w_dbnow = 10,
                 w_now = 10\<rparr>"

text \<open>The public id of the demo invoice.\<close>

definition demo_id :: string where
  "demo_id = ''inv_ED6MkgsO69D''"

lemma demo_db_ok: "db_ok demo_db"
  by code_simp

lemma demo_id_decodes: "dec_id demo_env prefix_invoice demo_id = Inr 3"
  by code_simp

end
