(* ===== verification/Payment_Live.thy ===== *)
theory Payment_Live
  imports Payment_Effect Scenario
begin

text \<open>
  The payment endpoint makes progress: without faults and with unused ids, a valid request for an
  OPEN invoice is carried through to a recorded outcome. And every request, under any faults,
  leaves a database that satisfies the schema's constraints.
\<close>

section \<open>Statements that are answered\<close>

definition calm :: "env \<Rightarrow> bool" where
  "calm E \<longleftrightarrow> (\<forall>n. env_outcome E n = Answered)"

lemma calm_tx:
  assumes "calm E" "in_tx w d" "st d = Inr (x, d')"
  obtains w' where "query E Tx st w = (Inr x, w')" "in_tx w' d'" "w_ids w' = w_ids w"
    "body_frame w w'"
  using assms by (auto simp: query_Tx run_tx_def in_tx_def calm_def body_frame_def)

lemma calm_tx_none:
  assumes "calm E" "in_tx w d" "st d = Inl NoRows"
  obtains w' where "query E Tx st w = (Inl NoRows, w')" "in_tx w' d" "w_ids w' = w_ids w"
    "body_frame w w'"
  using assms by (auto simp: query_Tx run_tx_def in_tx_def calm_def body_frame_def)

lemma calm_with_tx:
  assumes "calm E"
    and "body (w\<lparr>w_calls := Suc (w_calls w), w_tx := Some (w_db w, False)\<rparr>) = (Inr x, w2)"
    and "in_tx w2 d"
  shows "with_tx E emb body w = (Inr x, w2\<lparr>w_calls := Suc (w_calls w2), w_tx := None, w_db := d\<rparr>)"
  using assms by (simp add: with_tx_def begin_tx_def commit_def calm_def in_tx_def Let_def)

section \<open>Unused ids\<close>

text \<open>The generator's next \<open>c\<close> ids from the \<open>k\<close>-th on are distinct and not yet in use.\<close>

definition ids_fresh :: "env \<Rightarrow> nat \<Rightarrow> nat \<Rightarrow> database \<Rightarrow> bool" where
  "ids_fresh E k c d \<longleftrightarrow>
     inj_on (env_ids E) {k..<k + c}
     \<and> (\<forall>n \<in> {k..<k + c}.
          env_ids E n \<notin> idm_id ` set (idempotency_keys d)
          \<and> env_ids E n \<notin> att_id ` set (payment_attempts d)
          \<and> env_ids E n \<notin> att_psp_request ` set (payment_attempts d)
          \<and> env_ids E n \<notin> whd_id ` set (webhook_deliveries d))"

lemma calm_claim_new:
  assumes "calm E" "in_tx w d" "ids_fresh E (w_ids w) c d" "3 \<le> c" "db_ok d"
    and "lookup_idem b key d = None" "lookup_invoice b ivc d = Some iv" "inv_state iv = OPEN"
    and "\<not> has_unresolved ivc d"
  obtains idem att d' w' where "claim_new E b ivc key hash w = (Inr (Claimed idem att iv), w')"
    "in_tx w' d'" "w_ids w' = Suc (Suc (Suc (w_ids w)))"
proof -
  obtain w1 where q1: "query E Tx (get_invoice_for_payment ivc b) w = (Inr iv, w1)"
    and w1: "in_tx w1 d" "w_ids w1 = w_ids w" "w_dbnow w1 = w_dbnow w"
    by (rule calm_tx [OF assms(1,2), of "get_invoice_for_payment ivc b" iv d])
      (use assms(7) in \<open>auto simp: get_invoice_for_payment_def select_one_def lookup_invoice_def
        body_frame_def\<close>)
  let ?k = "w_ids w" and ?now = "w_dbnow w"
  let ?idem = "new_idem ?now b key hash (env_ids E ?k)"
  have iv: "iv \<in> set (invoices d)" "inv_business iv = b" "inv_id iv = ivc"
    using assms(7) by (auto simp: lookup_invoice_def dest: find_Some_mem)
  then have biz: "occurs biz_id b (businesses d)"
    using assms(5) by (auto simp: db_ok_defs occurs_iff)
  have fresh: "env_ids E ?k \<notin> idm_id ` set (idempotency_keys d)"
      "env_ids E (Suc ?k) \<notin> att_id ` set (payment_attempts d)"
      "env_ids E (Suc (Suc ?k)) \<notin> att_psp_request ` set (payment_attempts d)"
    using assms(3,4) by (auto simp: ids_fresh_def)
  let ?d2 = "d\<lparr>idempotency_keys := idempotency_keys d @ [?idem]\<rparr>"
  have ci: "create_idempotency_key ?now (env_ids E ?k) b key hash d = Inr (?idem, ?d2)"
    using fresh(1) assms(6) biz
    by (auto simp: create_idempotency_key_def insert_one_def occurs_iff lookup_idem_def
        find_None_iff new_idem_def)
  have i1: "in_tx (w1\<lparr>w_ids := Suc ?k\<rparr>) d" using w1 by (simp add: in_tx_def)
  obtain w3 where q3: "query E Tx (create_idempotency_key ?now (env_ids E ?k) b key hash)
      (w1\<lparr>w_ids := Suc ?k\<rparr>) = (Inr ?idem, w3)"
    and w3: "in_tx w3 ?d2" "w_ids w3 = Suc ?k" "w_dbnow w3 = ?now"
    by (rule calm_tx [where st = "create_idempotency_key ?now (env_ids E ?k) b key hash",
          OF assms(1) i1 ci]) (use w1 in \<open>auto simp: body_frame_def\<close>)
  let ?att = "new_attempt ?now ivc (env_ids E ?k) (env_ids E (Suc ?k)) (env_ids E (Suc (Suc ?k)))"
  have used: "\<not> occurs att_idem (env_ids E ?k) (payment_attempts d)"
    using fresh(1) assms(5) by (fastforce simp: db_ok_defs occurs_iff)
  have ca: "create_payment_attempt ?now (env_ids E (Suc ?k)) ivc (env_ids E ?k)
        (env_ids E (Suc (Suc ?k))) ?d2
      = Inr (?att, ?d2\<lparr>payment_attempts := payment_attempts d @ [?att]\<rparr>)"
    using fresh(2,3) assms(9) used iv
    by (auto simp: create_payment_attempt_def insert_one_def occurs_iff has_unresolved_def
        new_attempt_def)
  have i3: "in_tx (w3\<lparr>w_ids := Suc (Suc (Suc ?k))\<rparr>) ?d2" using w3 by (simp add: in_tx_def)
  obtain w6 where q6: "query E Tx (create_payment_attempt ?now (env_ids E (Suc ?k)) ivc
      (env_ids E ?k) (env_ids E (Suc (Suc ?k)))) (w3\<lparr>w_ids := Suc (Suc (Suc ?k))\<rparr>) = (Inr ?att, w6)"
    and w6: "in_tx w6 (?d2\<lparr>payment_attempts := payment_attempts d @ [?att]\<rparr>)"
      "w_ids w6 = Suc (Suc (Suc ?k))"
    by (rule calm_tx [where st = "create_payment_attempt ?now (env_ids E (Suc ?k)) ivc
          (env_ids E ?k) (env_ids E (Suc (Suc ?k)))" and d = ?d2, OF assms(1) i3 ca]) auto
  show thesis
    by (rule that [OF _ w6(1)])
      (use q1 q3 q6 w1 w3 w6 assms(8) in \<open>simp_all add: claim_new_def gen_id_def\<close>)
qed

lemma calm_claim:
  assumes "calm E" "w_tx w = None" "ids_fresh E (w_ids w) c (w_db w)" "3 \<le> c" "db_ok (w_db w)"
    and "lookup_idem b key (w_db w) = None" "lookup_invoice b ivc (w_db w) = Some iv"
    and "inv_state iv = OPEN" "\<not> has_unresolved ivc (w_db w)"
  obtains idem att w' where "claim E b ivc key hash w = (Inr (Claimed idem att iv), w')"
    "w_ids w' = Suc (Suc (Suc (w_ids w)))"
proof -
  let ?w = "w\<lparr>w_calls := Suc (w_calls w), w_tx := Some (w_db w, False)\<rparr>"
  have i0: "in_tx ?w (w_db w)" by (rule begun_in_tx)
  obtain w1 where q1: "query E Tx (get_idempotency_key b key) ?w = (Inl NoRows, w1)"
    and w1: "in_tx w1 (w_db w)" "w_ids w1 = w_ids w"
    by (rule calm_tx_none [where st = "get_idempotency_key b key", OF assms(1) i0])
      (use assms(6) in \<open>auto simp: get_idempotency_key_def select_one_def lookup_idem_def\<close>)
  obtain idem att d' w2 where c: "claim_new E b ivc key hash w1 = (Inr (Claimed idem att iv), w2)"
    "in_tx w2 d'" "w_ids w2 = Suc (Suc (Suc (w_ids w1)))"
    by (rule calm_claim_new [of E w1 "w_db w" c b key ivc iv hash])
      (use assms w1 in simp_all)
  have "claim_body E b ivc key hash ?w = (Inr (Claimed idem att iv), w2)"
    using q1 c by (simp add: claim_body_def)
  note run = calm_with_tx [where emb = PayDb and body = "claim_body E b ivc key hash", OF assms(1) this c(2)]
  show thesis
    by (rule that, unfold claim_def, rule run) (use c(3) w1(2) in simp)
qed

definition outbox_ready :: "env \<Rightarrow> nat \<Rightarrow> int64 \<Rightarrow> webhook_endpoint list \<Rightarrow> database \<Rightarrow> bool" where
  "outbox_ready E k v eps d \<longleftrightarrow>
     inj_on (env_ids E) {k..<k + length eps}
     \<and> (\<forall>n \<in> {k..<k + length eps}. env_ids E n \<notin> whd_id ` set (webhook_deliveries d))
     \<and> v \<in> inv_id ` set (invoices d)
     \<and> (\<forall>ep \<in> set eps. whe_id ep \<in> whe_id ` set (webhook_endpoints d))"

lemma calm_queue_loop:
  assumes "calm E" "in_tx w d" "outbox_ready E (w_ids w) v eps d"
  shows "\<exists>w' d'. queue_loop E Tx v ev payload eps w = (Inr (), w') \<and> in_tx w' d'"
  using assms(2,3)
proof (induction eps arbitrary: w d)
  case (Cons ep eps)
  let ?k = "w_ids w"
  let ?row = "pending_delivery E (w_dbnow w) v ev payload (env_ids E ?k) ep"
  let ?st = "create_webhook_delivery (env_jsonb E) (w_dbnow w) (env_ids E ?k) (whe_id ep) v ev payload"
  let ?d' = "d\<lparr>webhook_deliveries := webhook_deliveries d @ [?row]\<rparr>"
  have s: "?st d = Inr (?row, ?d')"
    using Cons.prems(2)
    by (auto simp: create_webhook_delivery_def insert_one_def occurs_iff outbox_ready_def
        pending_delivery_def)
  have i0: "in_tx (w\<lparr>w_ids := Suc ?k\<rparr>) d" using Cons.prems(1) by (simp add: in_tx_def)
  obtain w2 where q: "query E Tx ?st (w\<lparr>w_ids := Suc ?k\<rparr>) = (Inr ?row, w2)"
    and w2: "in_tx w2 ?d'" "w_ids w2 = Suc ?k"
    by (rule calm_tx [where st = ?st, OF assms(1) i0 s]) simp
  have new: "env_ids E n \<noteq> env_ids E ?k" if "?k < n" "n < ?k + length (ep # eps)" for n
    using Cons.prems(2) that
    by (auto simp: outbox_ready_def dest!: inj_onD [where x = n and y = ?k])
  have "outbox_ready E (w_ids w2) v eps ?d'"
    using Cons.prems(2) w2(2) new
    by (auto simp: outbox_ready_def pending_delivery_def Suc_le_eq intro: inj_on_subset)
  from Cons.IH [OF w2(1) this] q show ?case by (simp add: gen_id_def)
qed auto

lemma calm_queue_deliveries:
  assumes "calm E" "in_tx w d" "outbox_ready E (w_ids w) v (active_endpoints b d) d"
  obtains w' d' where "queue_deliveries E Tx b v ev payload w = (Inr (), w')" "in_tx w' d'"
    "idempotency_keys d' = idempotency_keys d"
proof -
  let ?st = "list_active_webhook_endpoints_by_business_id b"
  obtain w1 where q: "query E Tx ?st w = (Inr (active_endpoints b d), w1)" "in_tx w1 d"
      "w_ids w1 = w_ids w"
    by (rule calm_tx [where st = ?st, OF assms(1,2)])
      (auto simp: list_active_webhook_endpoints_by_business_id_def select_many_def
        active_endpoints_def)
  have "outbox_ready E (w_ids w1) v (active_endpoints b d) d"
    using assms(3) q(3) by (auto simp: outbox_ready_def active_endpoints_def)
  from calm_queue_loop [OF assms(1) q(2) this, of ev payload] obtain w' d' where
    r: "queue_deliveries E Tx b v ev payload w = (Inr (), w')" "in_tx w' d'"
    using q(1) by (auto simp: queue_deliveries_def)
  moreover from queue_deliveries_tx [OF assms(2) r(1)] r(2)
  have "idempotency_keys d' = idempotency_keys d" by (auto simp: in_tx_def tx_dead_def)
  ultimately show thesis by (rule that)
qed

lemma calm_update:
  assumes "calm E" "in_tx w d" "list_ex P (table d)"
  obtains x w' where "query E Tx (update_one P f table store) w = (Inr x, w')"
    "in_tx w' (store (update_where P f (table d)) d)" "w_ids w' = w_ids w" "w_dbnow w' = w_dbnow w"
proof -
  obtain r where "find P (table d) = Some r"
    using assms(3) by (cases "find P (table d)") (auto simp: find_None_iff list_ex_iff)
  then have "update_one P f table store d = Inr (f r, store (update_where P f (table d)) d)"
    by (simp add: update_one_def)
  then show thesis
    by (rule calm_tx [where st = "update_one P f table store", OF assms(1,2)])
      (auto simp: body_frame_def intro: that)
qed

lemma calm_settle:
  assumes "calm E" "in_tx w d" "outbox_ready E (w_ids w) (inv_id iv) (active_endpoints b d) d"
    and "settleable b att iv result d"
  obtains x w' where "settle E att iv result b w = (Inr x, w')" "\<not> tx_dead w'"
proof -
  let ?now = "w_dbnow w"
  let ?d1 = "d\<lparr>payment_attempts := update_where (processing_attempt (att_id att))
        (settled_attempt ?now result) (payment_attempts d)\<rparr>"
  have ex: "list_ex (processing_attempt (att_id att)) (payment_attempts d)"
    using assms(4) by (simp add: settleable_def)
  obtain a w1 where q: "query E Tx (update_one (processing_attempt (att_id att))
        (settled_attempt ?now result) payment_attempts (\<lambda>t d. d\<lparr>payment_attempts := t\<rparr>)) w
      = (Inr a, w1)" and w1: "in_tx w1 ?d1" "w_ids w1 = w_ids w" "w_dbnow w1 = ?now"
    by (rule calm_update [where table = payment_attempts, OF assms(1,2) ex])
  have alive: "in_tx v d' \<Longrightarrow> \<not> tx_dead v" for v d' by (auto simp: in_tx_def tx_dead_def)
  have o1: "outbox_ready E (w_ids w1) (inv_id iv) (active_endpoints b ?d1) ?d1"
    using assms(3) w1(2) by (simp add: outbox_ready_def active_endpoints_def)
  show thesis
  proof (cases result)
    case (Inl e)
    with q w1 show thesis
      by (intro that) (auto simp: settle_def mark_attempt_eqs(1) [of _ _ e] Let_def dest: alive)
  next
    case (Inr res)
    show thesis
    proof (cases "cr_status res = ''failed''")
      case True
      obtain w2 d2 where r: "queue_deliveries E Tx b (inv_id iv) INVOICE_PAYMENT_FAILED
          (failed_payload (enc_id_or_empty E prefix_invoice (inv_id iv))
             (enc_id_or_empty E prefix_payment_attempt (att_id att)) (cr_failure_code res)) w1
          = (Inr (), w2)" "in_tx w2 d2"
        by (rule calm_queue_deliveries [OF assms(1) w1(1) o1])
      with Inr True q show thesis
        by (intro that) (auto simp: settle_def mark_attempt_eqs(2) Let_def dest: alive)
    next
      case False
      have payable: "list_ex (open_invoice (inv_id iv) b) (invoices ?d1)"
        using assms(4) Inr False by (simp add: settleable_def)
      obtain v w2 where q2: "query E Tx (update_one (open_invoice (inv_id iv) b)
            (\<lambda>r. r\<lparr>inv_state := PAID, inv_updated := ?now\<rparr>) invoices (\<lambda>t d. d\<lparr>invoices := t\<rparr>)) w1
          = (Inr v, w2)"
        and w2: "in_tx w2 (?d1\<lparr>invoices := update_where (open_invoice (inv_id iv) b)
            (\<lambda>r. r\<lparr>inv_state := PAID, inv_updated := ?now\<rparr>) (invoices ?d1)\<rparr>)"
          "w_ids w2 = w_ids w1"
        by (rule calm_update [where table = invoices, OF assms(1) w1(1) payable])
      let ?d2 = "?d1\<lparr>invoices := update_where (open_invoice (inv_id iv) b)
            (\<lambda>r. r\<lparr>inv_state := PAID, inv_updated := ?now\<rparr>) (invoices ?d1)\<rparr>"
      have o2: "outbox_ready E (w_ids w2) (inv_id iv) (active_endpoints b ?d2) ?d2"
        using o1 w2(2) by (auto simp: outbox_ready_def active_endpoints_def image_update_where)
      obtain w3 d3 where r: "queue_deliveries E Tx b (inv_id iv) INVOICE_PAID
          (paid_payload (enc_id_or_empty E prefix_invoice (inv_id iv))
             (enc_id_or_empty E prefix_payment_attempt (att_id att)) (cr_psp_ref res)) w2
          = (Inr (), w3)" "in_tx w3 d3"
        by (rule calm_queue_deliveries [OF assms(1) w2(1) o2])
      with Inr False q q2 w1(3) show thesis
        by (intro that)
          (auto simp: settle_def mark_attempt_eqs(3) mark_invoice_paid_eq Let_def dest: alive)
    qed
  qed
qed

lemma calm_finalize:
  assumes "calm E" "outbox_ready E (w_ids w) (inv_id iv) (active_endpoints b (w_db w)) (w_db w)"
    and "settleable b att iv result (w_db w)"
    and "list_ex (processing_key (idm_id idem)) (idempotency_keys (w_db w))"
  obtains x w' where "finalize E idem att iv result b w = (Inr x, w')"
proof -
  let ?w = "w\<lparr>w_calls := Suc (w_calls w), w_tx := Some (w_db w, False)\<rparr>"
  have i0: "in_tx ?w (w_db w)" by (rule begun_in_tx)
  obtain x w1 where s: "settle E att iv result b ?w = (Inr x, w1)" "\<not> tx_dead w1"
    by (rule calm_settle [OF assms(1) i0 _ assms(3)]) (use assms(2) in simp)
  obtain status resp where x: "x = (status, resp)" by (cases x)
  from settle_tx [OF i0 s(1)] s(2) x
  obtain d1 where w1: "in_tx w1 d1" "idempotency_keys d1 = idempotency_keys (w_db w)"
    by (auto simp: settle_ok_def settled_db_def)
  have ex: "list_ex (processing_key (idm_id idem)) (idempotency_keys d1)"
    using assms(4) w1(2) by simp
  obtain y w2 where q: "query E Tx (update_one (processing_key (idm_id idem))
        (completed_key E (w_dbnow w1) status (pay_response_json resp)) idempotency_keys
        (\<lambda>t d. d\<lparr>idempotency_keys := t\<rparr>)) w1 = (Inr y, w2)"
    and w2: "in_tx w2 (d1\<lparr>idempotency_keys := update_where (processing_key (idm_id idem))
        (completed_key E (w_dbnow w1) status (pay_response_json resp)) (idempotency_keys d1)\<rparr>)"
    by (rule calm_update [where table = idempotency_keys, OF assms(1) w1(1) ex])
  have "finalize_body E idem att iv result b ?w = (Inr (status, pay_response_json resp), w2)"
    using s x q by (simp add: finalize_body_def complete_key_eq Let_def)
  from calm_with_tx [where emb = id and body = "finalize_body E idem att iv result b", OF assms(1) this w2] show thesis
    by (intro that) (auto simp: finalize_def)
qed

section \<open>Progress\<close>

text \<open>The ids that are left after the claim are enough for the deliveries.\<close>

lemma claimed_outbox_ready:
  assumes g: "claim_granted E now n b ivc key h d (Claimed idem att iv) d'"
    and fresh: "ids_fresh E n (3 + length (active_endpoints b d)) d"
    and iv: "ivc \<in> inv_id ` set (invoices d)"
  shows "outbox_ready E (Suc (Suc (Suc n))) ivc (active_endpoints b d') d'"
proof -
  have ae: "active_endpoints b d' = active_endpoints b d"
    using g by (auto simp: active_endpoints_def claim_granted_def)
  show ?thesis
    unfolding ae outbox_ready_def
  proof (intro conjI)
    show "inj_on (env_ids E)
        {Suc (Suc (Suc n))..<Suc (Suc (Suc n)) + length (active_endpoints b d)}"
      by (rule inj_on_subset [of _ "{n..<n + (3 + length (active_endpoints b d))}"])
        (use fresh in \<open>auto simp: ids_fresh_def\<close>)
  qed (use fresh iv g in \<open>auto simp: ids_fresh_def claim_granted_def active_endpoints_def\<close>)
qed

text \<open>
  C17. Without faults, a valid request with an unused key for an OPEN invoice without an
  unresolved attempt leads to one request to the provider for the invoice's amount and currency,
  is answered with the status of the provider's verdict, and leaves the whole outcome recorded: the
  attempt with the status of the verdict, the completed key with the response, the invoice PAID
  exactly if the answer is 200, and the deliveries of its event.
\<close>

theorem pay_succeeds:
  assumes "calm E" "w_tx w = None" "db_ok (w_db w)"
    and "ids_fresh E (w_ids w) (3 + length (active_endpoints b (w_db w))) (w_db w)"
    and "pay_request E header id_param body key ivc token"
    and "lookup_idem b key (w_db w) = None" "lookup_invoice b ivc (w_db w) = Some iv"
    and "inv_state iv = OPEN" "\<not> has_unresolved ivc (w_db w)"
  shows "\<exists>status doc w' req.
    pay_invoice E b header id_param body w = (Reply status (Some doc), w')
    \<and> w_psp w' = w_psp w @ [req] \<and> crq_amount req = inv_total iv \<and> crq_token req = token
    \<and> crq_currency req = inv_currency iv
    \<and> status = (case charge (env_psp_client E) (env_psp E (length (w_psp w))) req of
                  Inl _ \<Rightarrow> 202
                | Inr res \<Rightarrow> if cr_status res = ''succeeded'' then 200 else 402)
    \<and> payment_recorded E (w_dbnow w) b ivc key status doc (w_db w) (w_db w')"
proof -
  obtain idem att w1 where c: "claim E b ivc key (fp E ivc token) w = (Inr (Claimed idem att iv), w1)"
      and ids: "w_ids w1 = Suc (Suc (Suc (w_ids w)))"
    by (rule calm_claim [OF assms(1,2,4) _ assms(3,6,7,8,9)]) simp
  have g: "claim_granted E (w_dbnow w) (w_ids w) b ivc key (fp E ivc token) (w_db w)
        (Claimed idem att iv) (w_db w1)" and w1: "w_tx w1 = None" "w_psp w1 = w_psp w"
        "w_dbnow w1 = w_dbnow w"
    using claim_spec [OF c assms(2)] by auto
  let ?req = "card_request token att iv"
  let ?v = "verdict E w1 ?req"
  have iv: "iv \<in> set (invoices (w_db w))" "inv_id iv = ivc" "inv_business iv = b"
    using assms(7) by (auto simp: lookup_invoice_def dest: find_Some_mem)
  have s: "settleable b att iv ?v (w_db w1)"
      "list_ex (processing_key (idm_id idem)) (idempotency_keys (w_db w1))"
    using g iv assms(8)
    by (auto simp: settleable_def claim_granted_def processing_attempt_def open_invoice_def
        processing_key_def list_ex_iff)
  have o: "outbox_ready E (w_ids w1) (inv_id iv) (active_endpoints b (w_db w1)) (w_db w1)"
    unfolding ids iv(2) by (rule claimed_outbox_ready [OF g assms(4)]) (use iv in auto)
  obtain x w2 where f: "finalize E idem att iv ?v b (w1\<lparr>w_psp := w_psp w1 @ [?req]\<rparr>) = (Inr x, w2)"
    by (rule calm_finalize [OF assms(1), of "w1\<lparr>w_psp := w_psp w1 @ [?req]\<rparr>"]) (use o s in simp_all)
  obtain status doc where x: "x = (status, doc)" by (cases x)
  have run: "pay_invoice E b header id_param body w = (Reply status (Some doc), w2)"
    using c f x
    by (simp add: pay_invoice_valid [OF assms(5)] pay_claimed_def charge_card_def verdict_def
        card_request_def)
  from f have spec: "w_psp w2 = w_psp w @ [?req]" "x = outcome_response E att iv ?v"
    using finalize_spec [OF f] w1 by auto
  have st: "status = fst (outcome_response E att iv ?v)" and doc: "doc = snd (outcome_response E att iv ?v)"
    using spec(2) x by (metis fst_conv, metis snd_conv)
  have "w_db w2 = finalized_db E (w_dbnow w) (w_ids w1) b idem att iv ?v (w_db w1)"
    using finalize_spec [OF f] w1 by auto
  also have "\<dots> = paid_db E (w_dbnow w) (w_ids w1) b idem att iv ?v (w_db w)"
    by (rule finalized_claimed [OF g])
  finally have recorded: "payment_recorded E (w_dbnow w) b ivc key status doc (w_db w) (w_db w2)"
    using paid_db_recorded [of E w b key ivc token idem att iv "w_db w1"] g st doc
    by (simp add: claimed_by_def)
  have "status = (case ?v of Inl _ \<Rightarrow> 202
      | Inr res \<Rightarrow> if cr_status res = ''succeeded'' then 200 else 402)"
    unfolding st outcome_status
    by (auto simp: verdict_def split: sum.splits dest: charge_result_status)
  then show ?thesis
    using run spec(1) w1(2) recorded by (auto simp: verdict_def card_request_def)
qed

section \<open>The constraints are kept\<close>

lemma claim_body_keeps: "ok_rel.tx_step w (snd (claim_body E b ivc key hash w))"
  unfolding claim_body_def claim_new_def Let_def
  by (intro step_intros keeps_ok_intros)

lemma settle_keeps: "ok_rel.tx_step w (snd (settle E att iv result b w))"
  unfolding settle_def Let_def
  by (intro step_intros keeps_ok_intros ok_rel.tx.andThen)

lemma finalize_body_keeps: "ok_rel.tx_step w (snd (finalize_body E idem att iv result b w))"
  unfolding finalize_body_def Let_def
  by (intro step_intros keeps_ok_intros settle_keeps)

lemma charge_card_keeps: "ok_rel.pool_step w (snd (charge_card E req w))"
  by (simp add: charge_card_def ok_rel.pool_step_def)

lemma pay_claimed_keeps: "ok_rel.pool_step w (snd (pay_claimed E b token cl w))"
  by (cases cl)
    (simp_all add: pay_claimed_def ok_rel.pool.refl,
     intro step_intros ok_rel.pool.andThen charge_card_keeps, unfold finalize_def,
     intro step_intros finalize_body_keeps)

text \<open>
  Whatever fails, a payment request leaves a database that satisfies every constraint the
  schema declares, and no transaction open.
\<close>

theorem pay_keeps_constraints:
  assumes "db_ok (w_db w)" "w_tx w = None"
  shows "db_ok (w_db (snd (pay_invoice E b header id_param body w)))
    \<and> w_tx (snd (pay_invoice E b header id_param body w)) = None"
proof -
  have "ok_rel.pool_step w (snd (pay_invoice E b header id_param body w))"
    unfolding pay_invoice_def Let_def claim_def
    by (intro step_intros claim_body_keeps pay_claimed_keeps)
  with assms show ?thesis by (simp add: ok_rel.pool_step_def)
qed

end
