(* ===== verification/Payment_Examples.thy ===== *)
theory Payment_Examples
  imports Payment_Live
begin

text \<open>
  The payment theorems at concrete inputs: a successful payment of the demo invoice, its retry,
  a key that is taken, and an id that does not decode.
\<close>

definition demo_paid :: world where
  "demo_paid = snd (pay_invoice demo_env 1 ''k1'' demo_id (Some ''tok_success'') demo_world)"

definition demo_doc :: json where
  "demo_doc = JObject
     [(''payment_attempt_id'', JString ''att_Ket9OFpbHZl''),
      (''invoice_id'', JString ''inv_ED6MkgsO69D''), (''status'', JString ''SUCCEEDED''),
      (''invoice_state'', JString ''PAID''), (''psp_ref'', JString ''psp_102'')]"

definition demo_charge :: charge_request where
  "demo_charge = \<lparr>crq_token = ''tok_success'', crq_amount = 500, crq_currency = ''USD'',
                  crq_psp_request = 102\<rparr>"

lemma demo_pay:
  "fst (pay_invoice demo_env 1 ''k1'' demo_id (Some ''tok_success'') demo_world)
     = Reply 200 (Some demo_doc)"
  by code_simp

lemma demo_pay_psp: "w_psp demo_paid = [demo_charge]"
  by code_simp

lemma demo_pay_run:
  "pay_invoice demo_env 1 ''k1'' demo_id (Some ''tok_success'') demo_world
     = (Reply 200 (Some demo_doc), demo_paid)"
  using demo_pay by (simp add: demo_paid_def prod_eq_iff)

lemma demo_pay_idle: "w_tx demo_paid = None"
  by code_simp

lemma demo_world_sel [simp]: "w_tx demo_world = None" "w_psp demo_world = []"
  "w_db demo_world = demo_db" "w_ids demo_world = 0"
  by (simp_all add: demo_world_def)

lemma demo_request: "pay_request demo_env ''k1'' demo_id (Some ''tok_success'') ''k1'' 3 ''tok_success''"
proof -
  have "trim_space ''k1'' = ''k1''" "trim_space ''tok_success'' = ''tok_success''"
    by code_simp+
  then show ?thesis by (simp add: pay_request_def demo_id_decodes)
qed

theorem pay_charges_claimed_invoice_witness:
  "w_psp demo_paid = [demo_charge] \<and>
   (\<exists>key. lookup_idem 1 key demo_db = None
      \<and> (\<exists>ivc iv. lookup_invoice 1 ivc demo_db = Some iv \<and> inv_state iv = OPEN
                  \<and> crq_amount demo_charge = inv_total iv))"
proof -
  obtain key ivc token iv and att :: payment_attempt where
    "lookup_idem 1 key demo_db = None" "lookup_invoice 1 ivc demo_db = Some iv" "inv_state iv = OPEN"
    "[demo_charge] = [\<lparr>crq_token = token, crq_amount = inv_total iv,
       crq_currency = inv_currency iv, crq_psp_request = att_psp_request att\<rparr>]"
    using pay_charges_claimed_invoice [OF demo_pay_run] demo_pay_psp by auto
  moreover from arg_cong [OF this(4), of "\<lambda>q. crq_amount (hd q)"]
  have "crq_amount demo_charge = inv_total iv" by simp
  ultimately show ?thesis using demo_pay_psp by blast
qed

text \<open>A taken key: the world after a first, unfinished request of the same key.\<close>

definition taken_world :: world where
  "taken_world = demo_world\<lparr>w_db := demo_db\<lparr>idempotency_keys := [new_idem 5 1 ''k1'' ''h'' 9]\<rparr>\<rparr>"

theorem pay_known_key_witness:
  "lookup_idem 1 ''k1'' (w_db taken_world) = Some (new_idem 5 1 ''k1'' ''h'' 9) \<and>
   w_psp (snd (pay_invoice demo_env 1 ''k1'' demo_id (Some ''tok_success'') taken_world)) = []"
proof -
  have look: "lookup_idem 1 ''k1'' (w_db taken_world) = Some (new_idem 5 1 ''k1'' ''h'' 9)"
    and idle: "w_tx taken_world = None" "w_psp taken_world = []"
    by (simp_all add: taken_world_def lookup_idem_def)
  from pay_known_key [OF prod.collapse [symmetric] idle(1) demo_request look] look idle(2)
  show ?thesis by simp
qed

theorem pay_all_or_nothing_witness:
  "w_psp demo_paid = w_psp demo_world @ [demo_charge] \<and>
   (\<exists>ivc key. payment_recorded demo_env 10 1 ivc key 200 demo_doc demo_db (w_db demo_paid))"
proof -
  have p: "w_psp demo_paid = w_psp demo_world @ [demo_charge]" by (simp add: demo_pay_psp)
  from pay_all_or_nothing [OF demo_pay_run _ p] p show ?thesis
    by (auto simp: fail_with_def) (auto simp: demo_world_def)
qed

text \<open>
  Errors: an id that does not decode, a taken key, and an invoice that has an unresolved attempt
  under another key.
\<close>

definition busy_world :: world where
  "busy_world = demo_world\<lparr>w_db := demo_db
     \<lparr>idempotency_keys := [new_idem 5 1 ''k0'' ''h'' 9], payment_attempts := [new_attempt 5 3 9 20 21]\<rparr>\<rparr>"

definition asked :: "string \<Rightarrow> world \<Rightarrow> json option reply \<times> world" where
  "asked i w = pay_invoice demo_env 1 ''k1'' i (Some ''tok_success'') w"

lemma asked_answers:
  "fst (asked ''x'' demo_world) = fail_with 404 ''not_found'' ''Invoice not found''"
  "fst (asked demo_id taken_world) = fail_with 409 ''idempotency_conflict''
     ''Idempotency key was already used with a different request''"
  "fst (asked demo_id busy_world) = fail_with 409 ''payment_in_progress''
     ''A payment is already processing for this invoice''"
  by code_simp+

theorem pay_errors_honest_witness:
  "(\<exists>e. dec_id demo_env prefix_invoice ''x'' = Inl e)
   \<and> (\<exists>ex. lookup_idem 1 ''k1'' (w_db taken_world) = Some ex \<and> idm_hash ex = ''h'')
   \<and> has_unresolved 3 (w_db busy_world)"
proof -
  have run: "pay_invoice demo_env 1 ''k1'' i (Some ''tok_success'') w = (fst (asked i w), snd (asked i w))"
    for i w by (simp add: asked_def)
  have codes: "trim_space ''k1'' = ''k1''" "dec_id demo_env prefix_invoice ''x'' = Inl ErrInvalidIDFormat"
    "w_tx taken_world = None" "w_tx busy_world = None" "\<not> ids_collide demo_env 0 (w_db busy_world)"
    "w_ids busy_world = 0" "lookup_idem 1 ''k1'' (w_db busy_world) = None"
    by code_simp+
  have taken: "lookup_idem 1 ''k1'' (w_db taken_world) = Some (new_idem 5 1 ''k1'' ''h'' 9)"
    by (simp add: taken_world_def lookup_idem_def)
  have "\<exists>e. dec_id demo_env prefix_invoice ''x'' = Inl e"
    using pay_errors_honest [OF run [of "''x''" demo_world, unfolded asked_answers fail_with_def]] codes by simp
  moreover have "\<exists>ex. lookup_idem 1 ''k1'' (w_db taken_world) = Some ex \<and> idm_hash ex = ''h''"
    using pay_errors_honest [OF run [of demo_id taken_world, unfolded asked_answers fail_with_def]] codes
      taken demo_id_decodes
    by (auto simp: new_error_response_def new_idem_def)
  moreover have "has_unresolved 3 (w_db busy_world)"
    using pay_errors_honest [OF run [of demo_id busy_world, unfolded asked_answers fail_with_def]] codes
      demo_id_decodes
    by (auto simp: new_error_response_def)
  ultimately show ?thesis by blast
qed

theorem pay_succeeds_witness:
  "\<exists>doc w'. pay_invoice demo_env 1 ''k1'' demo_id (Some ''tok_success'') demo_world
     = (Reply 200 (Some doc), w') \<and> payment_recorded demo_env 10 1 3 ''k1'' 200 doc demo_db (w_db w')"
proof -
  have "calm demo_env" by (simp add: calm_def demo_env_def)
  moreover have "ids_fresh demo_env (w_ids demo_world)
      (3 + length (active_endpoints 1 (w_db demo_world))) (w_db demo_world)"
  proof -
    have "length (active_endpoints 1 demo_db) = 1" by code_simp
    moreover have "{0..<4} = {0, 1, 2, 3 :: nat}" by auto
    ultimately show ?thesis
      by (simp add: ids_fresh_def demo_env_def demo_db_def empty_db_def)
  qed
  moreover have "lookup_idem 1 ''k1'' (w_db demo_world) = None" by code_simp
  moreover have "lookup_invoice 1 3 (w_db demo_world) = Some demo_invoice" by code_simp
  moreover have "inv_state demo_invoice = OPEN" "\<not> has_unresolved 3 (w_db demo_world)"
    by code_simp+
  moreover have "db_ok (w_db demo_world)" by (simp add: demo_db_ok)
  ultimately have "\<exists>status doc w'. pay_invoice demo_env 1 ''k1'' demo_id (Some ''tok_success'') demo_world
      = (Reply status (Some doc), w')
      \<and> payment_recorded demo_env (w_dbnow demo_world) 1 3 ''k1'' status doc demo_db (w_db w')"
    using pay_succeeds [OF _ _ _ _ demo_request, of demo_world 1 demo_invoice] by auto
  then show ?thesis using demo_pay by (auto simp: demo_world_def)
qed

theorem pay_keeps_constraints_witness: "db_ok (w_db demo_paid)"
  using pay_keeps_constraints [of demo_world demo_env 1 "''k1''" demo_id "Some ''tok_success''"]
    demo_db_ok
  by (simp add: demo_paid_def)

end
