(* ===== verification/Invoice.thy ===== *)
theory Invoice
  imports Outbox
begin

text \<open>
  Package \<open>internal/invoice\<close>: creation of invoices with server-side totals, listing, reading and
  voiding. The business id is what the authentication middleware put into the request context
  (0 if nothing).
\<close>

section \<open>Requests and responses\<close>

record item_input =
  inp_description :: string
  inp_quantity :: int32
  inp_unit :: int64

record create_invoice_request =
  cir_customer :: string
  cir_currency :: string
  cir_due :: string
  cir_items :: "item_input list"
  cir_state :: "string option"

record item_response =
  irp_id :: string
  irp_invoice :: string
  irp_description :: string
  irp_quantity :: int32
  irp_unit :: int64
  irp_line_total :: int64

record invoice_response =
  ivp_id :: string
  ivp_customer :: string
  ivp_total :: int64
  ivp_currency :: string
  ivp_state :: string
  ivp_due :: string
  ivp_items :: "item_response list"
  ivp_created :: string
  ivp_updated :: string

definition line_total :: "int32 \<Rightarrow> int64 \<Rightarrow> int64" where
  "line_total quantity unit = scast quantity * unit"

fun to_item_responses :: "env \<Rightarrow> invoice_item list \<Rightarrow> publicid_error + item_response list" where
  "to_item_responses E [] = Inr []"
| "to_item_responses E (itm # items) =
     (case enc_id E prefix_invoice_item (itm_id itm) of
        Inl e \<Rightarrow> Inl e
      | Inr pub \<Rightarrow>
          (case enc_id E prefix_invoice (itm_invoice itm) of
             Inl e \<Rightarrow> Inl e
           | Inr inv_pub \<Rightarrow>
               (case to_item_responses E items of
                  Inl e \<Rightarrow> Inl e
                | Inr rest \<Rightarrow>
                    Inr (\<lparr>irp_id = pub, irp_invoice = inv_pub, irp_description = itm_description itm,
                          irp_quantity = itm_quantity itm, irp_unit = itm_unit itm,
                          irp_line_total = line_total (itm_quantity itm) (itm_unit itm)\<rparr> # rest))))"

definition to_invoice_response ::
  "env \<Rightarrow> invoice \<Rightarrow> invoice_item list \<Rightarrow> publicid_error + invoice_response" where
  "to_invoice_response E iv items =
     (case enc_id E prefix_invoice (inv_id iv) of
        Inl e \<Rightarrow> Inl e
      | Inr inv_pub \<Rightarrow>
          (case enc_id E prefix_customer (inv_customer iv) of
             Inl e \<Rightarrow> Inl e
           | Inr cust_pub \<Rightarrow>
               (case to_item_responses E items of
                  Inl e \<Rightarrow> Inl e
                | Inr resps \<Rightarrow>
                    Inr \<lparr>ivp_id = inv_pub, ivp_customer = cust_pub, ivp_total = inv_total iv,
                         ivp_currency = inv_currency iv,
                         ivp_state = invoice_state_str (inv_state iv),
                         ivp_due = (case inv_due iv of None \<Rightarrow> [] | Some d \<Rightarrow> format_date d),
                         ivp_items = resps, ivp_created = env_rfc3339 E (inv_created iv),
                         ivp_updated = env_rfc3339 E (inv_updated iv)\<rparr>)))"

section \<open>Line items and the total\<close>

text \<open>\<open>i\<close> is the one-based position of the first item; an error is the message of the 400 answer.\<close>

fun total_loop :: "nat \<Rightarrow> int64 \<Rightarrow> item_input list \<Rightarrow> string + int64" where
  "total_loop i amount [] = Inr amount"
| "total_loop i amount (itm # items) =
     (if trim_space (inp_description itm) = [] then
        Inl (''Item '' @ fmt_nat i @ '': description is required'')
      else if inp_quantity itm \<le>s 0 then
        Inl (''Item '' @ fmt_nat i @ '': quantity must be positive'')
      else if inp_unit itm <s 0 then
        Inl (''Item '' @ fmt_nat i @ '': unit_amount_cents must be non-negative'')
      else
        let lt = line_total (inp_quantity itm) (inp_unit itm) in
        if 0 <s inp_unit itm \<and> sdiv64 lt (inp_unit itm) \<noteq> scast (inp_quantity itm) then
          Inl (''Item '' @ fmt_nat i @ '': amount calculation overflow'')
        else
          let new_total = amount + lt in
          if new_total <s amount then Inl ''Invoice total amount overflow''
          else total_loop (Suc i) new_total items)"

definition server_total :: "item_input list \<Rightarrow> string + int64" where
  "server_total items = total_loop 1 0 items"

section \<open>CreateInvoice\<close>

definition initial_state :: "string option \<Rightarrow> invoice_state option" where
  "initial_state st =
     (case st of
        None \<Rightarrow> Some OPEN
      | Some s \<Rightarrow>
          let u = to_upper (trim_space s) in
          if u = invoice_state_str DRAFT then Some DRAFT
          else if u = invoice_state_str OPEN then Some OPEN
          else None)"

fun create_items ::
  "env \<Rightarrow> int64 \<Rightarrow> item_input list \<Rightarrow> world \<Rightarrow> (db_error + invoice_item list) \<times> world" where
  "create_items E ivc [] w = (Inr [], w)"
| "create_items E ivc (itm # items) w =
     (let (i, w1) = gen_id E w in
      case query E Tx (Queries.create_invoice_item (w_dbnow w1) i ivc
             (trim_space (inp_description itm)) (inp_quantity itm) (inp_unit itm)) w1 of
        (Inl e, w2) \<Rightarrow> (Inl e, w2)
      | (Inr row, w2) \<Rightarrow>
          (case create_items E ivc items w2 of
             (Inl e, w3) \<Rightarrow> (Inl e, w3)
           | (Inr rows, w3) \<Rightarrow> (Inr (row # rows), w3)))"

definition created_payload ::
  "env \<Rightarrow> int64 \<Rightarrow> string \<Rightarrow> int64 \<Rightarrow> invoice_state \<Rightarrow> date \<Rightarrow> json" where
  "created_payload E ivc cust amount st due =
     build_payload INVOICE_CREATED
       (marshal_map
          [(''id'', JString (enc_id_or_empty E prefix_invoice ivc)),
           (''customer_id'', JString cust), (''total_amount_cents'', JInt (sint amount)),
           (''currency'', JString ''USD''), (''state'', JString (invoice_state_str st)),
           (''due_date'', JString (format_date due))])"

definition create_body ::
  "env \<Rightarrow> int64 \<Rightarrow> int64 \<Rightarrow> int64 \<Rightarrow> int64 \<Rightarrow> invoice_state \<Rightarrow> date \<Rightarrow> create_invoice_request \<Rightarrow> world
   \<Rightarrow> (db_error + invoice \<times> invoice_item list) \<times> world" where
  "create_body E b ivc cust amount st due req w =
     (case query E Tx
             (Queries.create_invoice (w_dbnow w) ivc b cust amount ''USD'' st (Some due)) w of
        (Inl e, w1) \<Rightarrow> (Inl e, w1)
      | (Inr iv, w1) \<Rightarrow>
          (case create_items E ivc (cir_items req) w1 of
             (Inl e, w2) \<Rightarrow> (Inl e, w2)
           | (Inr rows, w2) \<Rightarrow>
               (let (_, w3) = queue_deliveries E Tx b ivc INVOICE_CREATED
                                (created_payload E ivc (cir_customer req) amount st due) w2 in
                (Inr (iv, rows), w3))))"

text \<open>The checks before anything is written: the answer they give, or the validated values.\<close>

definition validate_invoice ::
  "create_invoice_request \<Rightarrow> invoice_response reply + date \<times> int64" where
  "validate_invoice req =
     (if to_upper (trim_space (cir_currency req)) \<noteq> ''USD'' then
        Inl (fail_with 400 ''bad_request'' ''Currency must be USD'')
      else case parse_date (trim_space (cir_due req)) of
        None \<Rightarrow> Inl (fail_with 400 ''bad_request'' ''Invalid due_date format, expected YYYY-MM-DD'')
      | Some due \<Rightarrow>
          if cir_items req = [] then
            Inl (fail_with 400 ''bad_request'' ''Invoice must contain at least one line item'')
          else (case server_total (cir_items req) of
                  Inl msg \<Rightarrow> Inl (fail_with 400 ''bad_request'' msg)
                | Inr amount \<Rightarrow> Inr (due, amount)))"

definition create_invoice_handler ::
  "env \<Rightarrow> int64 \<Rightarrow> create_invoice_request option \<Rightarrow> world \<Rightarrow> invoice_response reply \<times> world" where
  "create_invoice_handler E b body w =
     (if b = 0 then (fail_with 401 ''unauthorized'' ''Authentication required'', w)
      else case body of
        None \<Rightarrow> (fail_with 400 ''bad_request'' ''Invalid request body'', w)
      | Some req \<Rightarrow>
          (case validate_invoice req of
             Inl rep \<Rightarrow> (rep, w)
           | Inr (due, amount) \<Rightarrow>
               (case dec_id E prefix_customer (trim_space (cir_customer req)) of
                  Inl _ \<Rightarrow> (fail_with 400 ''bad_request'' ''Invalid customer_id format'', w)
                | Inr cust \<Rightarrow>
                    (case query E Pool (get_customer_by_id cust b) w of
                       (Inl e, w1) \<Rightarrow>
                         (if e = NoRows then
                            fail_with 400 ''bad_request''
                              ''Customer not found or belongs to another business''
                          else fail_with 500 ''internal_error'' ''Failed to verify customer'', w1)
                     | (Inr _, w1) \<Rightarrow>
                         (case initial_state (cir_state req) of
                            None \<Rightarrow>
                              (fail_with 400 ''bad_request''
                                 ''Initial invoice state must be DRAFT or OPEN'', w1)
                          | Some st \<Rightarrow>
                              (let (ivc, w2) = gen_id E w1 in
                               case with_tx E id (create_body E b ivc cust amount st due req) w2 of
                                 (Inl e, w3) \<Rightarrow>
                                   (fail_with 500 ''internal_error'' ''Failed to create invoice'', w3)
                               | (Inr (iv, rows), w3) \<Rightarrow>
                                   ((case to_invoice_response E iv rows of
                                       Inl _ \<Rightarrow> fail_with 500 ''internal_error''
                                                  ''Failed to encode invoice response''
                                     | Inr resp \<Rightarrow> Reply 201 resp), w3)))))))"

section \<open>ListInvoices, GetInvoice, VoidInvoice\<close>

text \<open>The map \<open>itemsByInvoiceID\<close>, a missing key reading as the empty slice.\<close>

definition items_by_invoice :: "invoice_item list \<Rightarrow> int64 \<Rightarrow> invoice_item list" where
  "items_by_invoice items =
     foldl (\<lambda>m itm. m(itm_invoice itm := m (itm_invoice itm) @ [itm])) (\<lambda>_. []) items"

fun to_invoice_responses ::
  "env \<Rightarrow> (int64 \<Rightarrow> invoice_item list) \<Rightarrow> invoice list \<Rightarrow> publicid_error + invoice_response list"
where
  "to_invoice_responses E m [] = Inr []"
| "to_invoice_responses E m (iv # ivs) =
     (case to_invoice_response E iv (m (inv_id iv)) of
        Inl e \<Rightarrow> Inl e
      | Inr r \<Rightarrow> (case to_invoice_responses E m ivs of Inl e \<Rightarrow> Inl e | Inr rs \<Rightarrow> Inr (r # rs)))"

definition list_invoices_handler :: "env \<Rightarrow> int64 \<Rightarrow> world \<Rightarrow> invoice_response list reply \<times> world"
where
  "list_invoices_handler E b w =
     (if b = 0 then (fail_with 401 ''unauthorized'' ''Authentication required'', w)
      else case query E Pool (list_invoices_by_business_id b) w of
        (Inl e, w1) \<Rightarrow> (fail_with 500 ''internal_error'' ''Failed to retrieve invoices'', w1)
      | (Inr ivs, w1) \<Rightarrow>
          if ivs = [] then (Reply 200 [], w1)
          else (case query E Pool (list_invoice_items_by_invoice_ids (map inv_id ivs)) w1 of
                  (Inl e, w2) \<Rightarrow>
                    (fail_with 500 ''internal_error'' ''Failed to retrieve invoice items'', w2)
                | (Inr items, w2) \<Rightarrow>
                    ((case to_invoice_responses E (items_by_invoice items) ivs of
                        Inl _ \<Rightarrow> fail_with 500 ''internal_error'' ''Failed to encode invoice response''
                      | Inr rs \<Rightarrow> Reply 200 rs), w2)))"

text \<open>The end of \<open>GetInvoice\<close> and \<open>VoidInvoice\<close>: read the items and answer.\<close>

definition reply_with_items ::
  "env \<Rightarrow> int64 \<Rightarrow> invoice \<Rightarrow> world \<Rightarrow> invoice_response reply \<times> world" where
  "reply_with_items E i iv w =
     (case query E Pool (list_invoice_items_by_invoice_id i) w of
        (Inl e, w1) \<Rightarrow> (fail_with 500 ''internal_error'' ''Failed to retrieve invoice items'', w1)
      | (Inr items, w1) \<Rightarrow>
          ((case to_invoice_response E iv items of
              Inl _ \<Rightarrow> fail_with 500 ''internal_error'' ''Failed to encode invoice response''
            | Inr resp \<Rightarrow> Reply 200 resp), w1))"

definition get_invoice_handler ::
  "env \<Rightarrow> int64 \<Rightarrow> string \<Rightarrow> world \<Rightarrow> invoice_response reply \<times> world" where
  "get_invoice_handler E b raw w =
     (if b = 0 then (fail_with 401 ''unauthorized'' ''Authentication required'', w)
      else case dec_id E prefix_invoice raw of
        Inl _ \<Rightarrow> (fail_with 404 ''not_found'' ''Invoice not found'', w)
      | Inr i \<Rightarrow>
          (case query E Pool (get_invoice_by_id i b) w of
             (Inl e, w1) \<Rightarrow>
               (if e = NoRows then fail_with 404 ''not_found'' ''Invoice not found''
                else fail_with 500 ''internal_error'' ''Failed to retrieve invoice'', w1)
           | (Inr iv, w1) \<Rightarrow> reply_with_items E i iv w1))"

definition void_invoice ::
  "env \<Rightarrow> int64 \<Rightarrow> string \<Rightarrow> world \<Rightarrow> invoice_response reply \<times> world" where
  "void_invoice E b raw w =
     (if b = 0 then (fail_with 401 ''unauthorized'' ''Authentication required'', w)
      else case dec_id E prefix_invoice raw of
        Inl _ \<Rightarrow> (fail_with 404 ''not_found'' ''Invoice not found'', w)
      | Inr i \<Rightarrow>
          (case query E Pool (get_invoice_by_id i b) w of
             (Inl e, w1) \<Rightarrow>
               (if e = NoRows then fail_with 404 ''not_found'' ''Invoice not found''
                else fail_with 500 ''internal_error'' ''Failed to retrieve invoice'', w1)
           | (Inr iv, w1) \<Rightarrow>
               (case inv_state iv of
                  PAID \<Rightarrow>
                    (fail_with 400 ''invalid_state_transition'' ''Cannot void a paid invoice'', w1)
                | UNCOLLECTIBLE \<Rightarrow>
                    (fail_with 400 ''invalid_state_transition'' ''Cannot void an uncollectible invoice'',
                     w1)
                | VOID \<Rightarrow> reply_with_items E i iv w1
                | _ \<Rightarrow>
                    (case query E Pool (update_invoice_state (w_dbnow w1) i b VOID) w1 of
                       (Inl e, w2) \<Rightarrow>
                         (fail_with 500 ''internal_error'' ''Failed to void invoice'', w2)
                     | (Inr updated, w2) \<Rightarrow> reply_with_items E i updated w2))))"

end
