(* ===== verification/Invoice_Totals.thy ===== *)
theory Invoice_Totals
  imports Invoice
begin

text \<open>
  The total the server computes is the exact sum of the line totals, or the request is refused:
  the two overflow checks of the loop, on wrapping 64-bit arithmetic, miss nothing and refuse
  nothing that fits.
\<close>

section \<open>The overflow checks\<close>

lemma line_total_eq: "line_total q u = word_of_int (sint q * sint u)"
  unfolding line_total_def scast_eq
  by (rule trans [OF _ of_int_mult [symmetric]]) (simp only: of_int_sint scast_id)

lemma sint_line_total:
  assumes "0 \<le> sint q * sint u" "sint q * sint u < 2 ^ 63"
  shows "sint (line_total q u) = sint q * sint u"
  unfolding line_total_eq using assms by (intro sint64_of_int) auto

lemma sint_scast_int32: "sint (scast (q :: int32) :: int64) = sint q"
  unfolding scast_eq using sint32_range [of q] by (intro sint64_of_int) auto

lemma int_div_less_iff:
  assumes "0 < (u :: int)"
  shows "w < q * u \<Longrightarrow> w div u < q"
proof (rule ccontr)
  assume "w < q * u" "\<not> w div u < q"
  then have "q * u \<le> w div u * u" using assms by simp
  also have "\<dots> \<le> w" using assms by (simp add: minus_mod_eq_div_mult [symmetric])
  finally show False using \<open>w < q * u\<close> by simp
qed

lemma sdiv_pos:
  assumes "0 < (u :: int)"
  shows "0 \<le> w \<Longrightarrow> w sdiv u = w div u" "w < 0 \<Longrightarrow> w sdiv u \<le> 0"
  using assms by (auto simp: signed_divide_int_def sgn_if pos_imp_zdiv_nonneg_iff)

lemma sint_sdiv64:
  assumes "0 < sint u"
  shows "sint (sdiv64 w u) = sint w sdiv sint u"
proof -
  have "\<bar>sint w\<bar> div \<bar>sint u\<bar> \<le> \<bar>sint w\<bar>"
    using zdiv_mono2 [of "\<bar>sint w\<bar>" 1 "\<bar>sint u\<bar>"] assms by simp
  moreover have "0 \<le> \<bar>sint w\<bar> div \<bar>sint u\<bar>"
    using assms by (simp add: pos_imp_zdiv_nonneg_iff)
  ultimately have "- (2 ^ 63) \<le> sint w sdiv sint u \<and> sint w sdiv sint u < 2 ^ 63"
    using sint64_range [of w] assms
    by (auto simp: signed_divide_int_def sgn_if)
  then show ?thesis by (simp add: sdiv64_def sint64_of_int)
qed

lemma multiply_check:
  assumes "0 < sint (q :: int32)" "0 < sint u"
  shows "sdiv64 (line_total q u) u = scast q \<longleftrightarrow> sint q * sint u < 2 ^ 63"
proof -
  let ?P = "sint q * sint u" and ?W = "sint (line_total q u)"
  have P: "0 < ?P" using assms by simp
  have eq: "sdiv64 (line_total q u) u = scast q \<longleftrightarrow> ?W sdiv sint u = sint q"
    by (simp add: sint64_eq_iff sint_sdiv64 assms(2) sint_scast_int32)
  show ?thesis
  proof (cases "?P < 2 ^ 63")
    case True
    with P have "?W = ?P" by (intro sint_line_total) auto
    with True P assms(2) show ?thesis unfolding eq by (simp add: sdiv_pos)
  next
    case False
    have "?W sdiv sint u < sint q"
    proof (cases "0 \<le> ?W")
      case True
      have "?W < ?P" using False sint64_range [of "line_total q u"] by linarith
      then have "?W div sint u < sint q"
        using assms(2) by (meson int_div_less_iff)
      with True assms(2) show ?thesis by (simp add: sdiv_pos)
    next
      case False
      with sdiv_pos(2) [OF assms(2), of ?W] assms(1) show ?thesis by linarith
    qed
    with False show ?thesis unfolding eq by simp
  qed
qed

lemma add_check:
  assumes "0 \<le> sint (a :: int64)" "0 \<le> sint (b :: int64)"
  shows "a + b <s a \<longleftrightarrow> sint a + sint b \<ge> 2 ^ 63"
    and "sint a + sint b < 2 ^ 63 \<Longrightarrow> sint (a + b) = sint a + sint b"
proof -
  have ab: "a + b = word_of_int (sint a + sint b)" by simp
  show exact: "sint (a + b) = sint a + sint b" if "sint a + sint b < 2 ^ 63"
    unfolding ab using assms that by (subst sint64_of_int) auto
  show "a + b <s a \<longleftrightarrow> sint a + sint b \<ge> 2 ^ 63"
  proof (cases "sint a + sint b < 2 ^ 63")
    case True
    with exact assms show ?thesis by (simp add: word_sless_alt)
  next
    case False
    obtain k where k: "sint (a + b) = sint a + sint b + k * 2 ^ 64"
      using sint64_cong [of "sint a + sint b"] ab by metis
    have "k * 2 ^ 64 < 0" using False k sint64_range(2) [of "a + b"] by linarith
    then have "k \<le> - 1" by (simp add: mult_less_0_iff)
    then have "k * 18446744073709551616 \<le> - 18446744073709551616" by simp
    with k [simplified] sint64_range(2) [of b, simplified]
    have "sint (a + b) < sint a" by linarith
    with False show ?thesis by (simp add: word_sless_alt)
  qed
qed

section \<open>The exact total\<close>

definition item_valid :: "item_input \<Rightarrow> bool" where
  "item_valid itm \<longleftrightarrow>
     trim_space (inp_description itm) \<noteq> [] \<and> 0 < sint (inp_quantity itm) \<and> 0 \<le> sint (inp_unit itm)"

definition exact_total :: "item_input list \<Rightarrow> int" where
  "exact_total items = (\<Sum>itm \<leftarrow> items. sint (inp_quantity itm) * sint (inp_unit itm))"

lemma exact_total_nonneg: "list_all item_valid items \<Longrightarrow> 0 \<le> exact_total items"
  unfolding exact_total_def list_all_iff item_valid_def
  by (intro sum_list_nonneg) (auto intro: mult_nonneg_nonneg less_imp_le)

lemma total_loop_Cons:
  assumes "0 \<le> sint amount"
  shows "total_loop i amount (itm # items) = Inr t \<longleftrightarrow>
    item_valid itm \<and> sint amount + sint (inp_quantity itm) * sint (inp_unit itm) < 2 ^ 63
    \<and> total_loop (Suc i)
        (word_of_int (sint amount + sint (inp_quantity itm) * sint (inp_unit itm))) items = Inr t"
proof (cases "item_valid itm")
  case True
  let ?q = "inp_quantity itm" and ?u = "inp_unit itm"
  let ?P = "sint ?q * sint ?u"
  have q: "0 < sint ?q" and u: "0 \<le> sint ?u" using True by (auto simp: item_valid_def)
  have P: "0 \<le> ?P" using q u by simp
  have c1: "(0 <s ?u \<and> sdiv64 (line_total ?q ?u) ?u \<noteq> scast ?q) \<longleftrightarrow> \<not> ?P < 2 ^ 63"
    using multiply_check [OF q, of ?u] u by (cases "0 < sint ?u") (auto simp: word_sless_alt)
  have c2: "?P < 2 ^ 63 \<Longrightarrow> sint (line_total ?q ?u) = ?P"
    using P by (rule sint_line_total)
  have c3: "?P < 2 ^ 63 \<Longrightarrow>
      amount + line_total ?q ?u = word_of_int (sint amount + ?P)"
    by (simp add: line_total_eq)
  have guards: "\<not> (trim_space (inp_description itm) = [])" "\<not> (?q \<le>s 0)" "\<not> (?u <s 0)"
    using True by (auto simp: item_valid_def word_sle_eq word_sless_alt)
  show ?thesis
  proof (cases "?P < 2 ^ 63")
    case False
    with True c1 guards assms P show ?thesis by (simp add: Let_def)
  next
    case fits: True
    have c4: "amount + line_total ?q ?u <s amount \<longleftrightarrow> sint amount + ?P \<ge> 2 ^ 63"
      using add_check(1) [OF assms, of "line_total ?q ?u"] c2 [OF fits] P by simp
    from True c1 fits c4 guards c3 [OF fits] show ?thesis
      by (auto simp add: Let_def)
  qed
qed (auto simp: item_valid_def word_sle_eq word_sless_alt Let_def)

lemma total_loop_exact:
  assumes "0 \<le> sint amount"
  shows "total_loop i amount items = Inr t \<longleftrightarrow>
    list_all item_valid items \<and> sint amount + exact_total items < 2 ^ 63
    \<and> sint t = sint amount + exact_total items"
  using assms
proof (induction items arbitrary: i amount)
  case Nil
  then show ?case using sint64_range [of amount]
    by (auto simp: exact_total_def sint64_eq_iff)
next
  case (Cons itm items)
  let ?P = "sint (inp_quantity itm) * sint (inp_unit itm)"
  let ?a = "word_of_int (sint amount + ?P) :: int64"
  show ?case
  proof (cases "item_valid itm \<and> sint amount + ?P < 2 ^ 63")
    case True
    then have P: "0 \<le> ?P" by (auto simp: item_valid_def)
    have a: "sint ?a = sint amount + ?P"
      using True P Cons.prems by (subst sint64_of_int) auto
    have "total_loop i amount (itm # items) = Inr t \<longleftrightarrow> total_loop (Suc i) ?a items = Inr t"
      using total_loop_Cons [OF Cons.prems, of i itm items t] True by blast
    also have "\<dots> \<longleftrightarrow> list_all item_valid items \<and> sint ?a + exact_total items < 2 ^ 63
        \<and> sint t = sint ?a + exact_total items"
      using Cons.IH [of ?a] a P Cons.prems by simp
    finally show ?thesis using True a by (auto simp: exact_total_def algebra_simps)
  next
    case False
    have "sint amount + exact_total (itm # items) \<ge> sint amount + ?P"
      if "list_all item_valid (itm # items)"
      using exact_total_nonneg [of items] that by (simp add: exact_total_def)
    with False total_loop_Cons [OF Cons.prems, of i itm items t] show ?thesis by fastforce
  qed
qed

lemma server_total_spec:
  "server_total items = Inr t \<longleftrightarrow>
     list_all item_valid items \<and> exact_total items < 2 ^ 63 \<and> sint t = exact_total items"
  using total_loop_exact [of 0 1 items t] by (simp add: server_total_def)

text \<open>
  C10. The server-side total is exact: it is computed if and only if every item has a description,
  a positive quantity and a non-negative unit amount and the sum of quantity times unit amount,
  over the integers, fits in 63 bits; and then it is that sum.
\<close>

theorem server_total_exact:
  "server_total items = Inr t \<longleftrightarrow>
     list_all item_valid items \<and> exact_total items < 2 ^ 63 \<and> sint t = exact_total items"
  by (rule server_total_spec)

end
