(* ===== verification/Invoice_Effect.thy ===== *)
theory Invoice_Effect
  imports Invoice_Totals
begin

text \<open>
  The invoice endpoints as operations on the database: creation is atomic and stores the exact
  total, reading is confined to the business, listing gives every invoice its own items, and
  voiding follows the state machine.
\<close>

section \<open>What the creating transaction does\<close>

fun new_items :: "env \<Rightarrow> instant \<Rightarrow> int64 \<Rightarrow> nat \<Rightarrow> item_input list \<Rightarrow> invoice_item list" where
  "new_items E now ivc k [] = []"
| "new_items E now ivc k (itm # items) =
     \<lparr>itm_id = env_ids E k, itm_invoice = ivc,
      itm_description = trim_space (inp_description itm), itm_quantity = inp_quantity itm,
      itm_unit = inp_unit itm, itm_created = now\<rparr> # new_items E now ivc (Suc k) items"

lemma new_items_mem: "r \<in> set (new_items E now ivc k items) \<Longrightarrow> itm_invoice r = ivc"
  by (induction E now ivc k items rule: new_items.induct) auto

definition items_total :: "invoice_item list \<Rightarrow> int" where
  "items_total rows = (\<Sum>r \<leftarrow> rows. sint (itm_quantity r) * sint (itm_unit r))"

lemma new_items_total: "items_total (new_items E now ivc k items) = exact_total items"
  by (induction E now ivc k items rule: new_items.induct)
    (simp_all add: items_total_def exact_total_def)

lemma length_new_items [simp]: "length (new_items E now ivc k items) = length items"
  by (induction E now ivc k items rule: new_items.induct) simp_all

lemma create_item_tx:
  assumes "in_tx w d"
    and "query E Tx (Queries.create_invoice_item now i ivc desc q u) w = (r, w')"
  shows "body_frame w w' \<and> w_ids w' = w_ids w \<and>
    (\<forall>row. r = Inr row \<longrightarrow>
       row = \<lparr>itm_id = i, itm_invoice = ivc, itm_description = desc, itm_quantity = q,
              itm_unit = u, itm_created = now\<rparr>
       \<and> in_tx w' (d\<lparr>invoice_items := invoice_items d @ [row]\<rparr>))"
  using assms(2)[unfolded query_Tx] assms(1)
  by (cases rule: run_txE)
    (auto simp: create_invoice_item_def body_frame_def elim!: insert_one_InrE)

lemma create_items_tx:
  assumes "in_tx w d" "create_items E ivc items w = (r, w')"
  shows "body_frame w w' \<and>
    (\<forall>rows. r = Inr rows \<longrightarrow> rows = new_items E (w_dbnow w) ivc (w_ids w) items
       \<and> in_tx w' (d\<lparr>invoice_items := invoice_items d @ rows\<rparr>))"
  using assms
proof (induction items arbitrary: w d r w')
  case Nil
  then show ?case by (auto simp: body_frame_refl)
next
  case (Cons itm items)
  let ?st = "Queries.create_invoice_item (w_dbnow w) (env_ids E (w_ids w)) ivc
      (trim_space (inp_description itm)) (inp_quantity itm) (inp_unit itm)"
  let ?w1 = "w\<lparr>w_ids := Suc (w_ids w)\<rparr>"
  have i1: "in_tx ?w1 d" using Cons.prems(1) by (simp add: in_tx_def)
  obtain r1 w2 where q: "query E Tx ?st ?w1 = (r1, w2)" by fastforce
  note s1 = create_item_tx [OF i1 q]
  show ?case
  proof (cases r1)
    case (Inl e)
    with Cons.prems(2) q s1 show ?thesis by (auto simp: gen_id_def body_frame_def)
  next
    case (Inr row)
    let ?d = "d\<lparr>invoice_items := invoice_items d @ [row]\<rparr>"
    from s1 Inr have w2: "in_tx w2 ?d" by blast
    obtain r3 w3 where c: "create_items E ivc items w2 = (r3, w3)" by fastforce
    from Cons.IH [OF w2 c] s1 Inr Cons.prems(2) q c show ?thesis
      by (cases r3) (auto simp: gen_id_def body_frame_def)
  qed
qed

definition new_invoice ::
  "instant \<Rightarrow> int64 \<Rightarrow> int64 \<Rightarrow> int64 \<Rightarrow> int64 \<Rightarrow> invoice_state \<Rightarrow> date \<Rightarrow> invoice" where
  "new_invoice now ivc b cust amount st due =
     \<lparr>inv_id = ivc, inv_business = b, inv_customer = cust, inv_total = amount,
      inv_currency = ''USD'', inv_state = st, inv_due = Some due, inv_created = now,
      inv_updated = now\<rparr>"

text \<open>The database after the transaction: \<open>k\<close> is the position of the first item's id.\<close>

definition created_db ::
  "env \<Rightarrow> instant \<Rightarrow> nat \<Rightarrow> invoice \<Rightarrow> item_input list \<Rightarrow> webhook_delivery list \<Rightarrow> database
   \<Rightarrow> database" where
  "created_db E now k iv items new d =
     d\<lparr>invoices := invoices d @ [iv],
       invoice_items := invoice_items d @ new_items E now (inv_id iv) k items,
       webhook_deliveries := webhook_deliveries d @ new\<rparr>"

lemma create_body_tx:
  assumes "in_tx w d" "create_body E b ivc cust amount st due req w = (r, w')"
  shows "body_frame w w' \<and>
    (\<forall>iv rows. r = Inr (iv, rows) \<longrightarrow>
       iv = new_invoice (w_dbnow w) ivc b cust amount st due
       \<and> rows = new_items E (w_dbnow w) ivc (w_ids w) (cir_items req)
       \<and> \<not> occurs inv_id ivc (invoices d)
       \<and> (tx_dead w' \<or> (\<exists>k. in_tx w' (created_db E (w_dbnow w) (w_ids w) iv (cir_items req)
            (queued_rows E (w_dbnow w) ivc INVOICE_CREATED
               (created_payload E ivc (cir_customer req) amount st due) k
               (active_endpoints b d)) d))))"
proof -
  let ?st = "Queries.create_invoice (w_dbnow w) ivc b cust amount ''USD'' st (Some due)"
  let ?pay = "created_payload E ivc (cir_customer req) amount st due"
  obtain r1 w1 where q: "query E Tx ?st w = (r1, w1)" by fastforce
  from q[unfolded query_Tx] assms(1) show ?thesis
  proof (cases rule: run_txE)
    case (ok iv d1)
    from ok(1) have iv: "iv = new_invoice (w_dbnow w) ivc b cust amount st due"
        "d1 = d\<lparr>invoices := invoices d @ [iv]\<rparr>" "\<not> occurs inv_id ivc (invoices d)"
      by (auto simp: create_invoice_def new_invoice_def elim!: insert_one_InrE)
    have f1: "body_frame w w1" "w_ids w1 = w_ids w" using ok(4) by (simp_all add: body_frame_def)
    obtain r2 w2 where c: "create_items E ivc (cir_items req) w1 = (r2, w2)" by fastforce
    note s2 = create_items_tx [OF ok(3) c]
    show ?thesis
    proof (cases r2)
      case (Inl e)
      with assms(2) q ok(2) c s2 f1 show ?thesis
        by (auto simp: create_body_def body_frame_def)
    next
      case (Inr rows)
      from s2 Inr have w2: "in_tx w2 (d1\<lparr>invoice_items := invoice_items d1 @ rows\<rparr>)"
        and rows: "rows = new_items E (w_dbnow w) ivc (w_ids w) (cir_items req)"
        and f2: "body_frame w w2" "w_dbnow w2 = w_dbnow w"
        using f1 by (auto simp: body_frame_def)
      obtain r3 w3 where p: "queue_deliveries E Tx b ivc INVOICE_CREATED ?pay w2 = (r3, w3)"
        by fastforce
      have run: "(r, w') = (Inr (iv, rows), w3)"
        using assms(2) q ok(2) c Inr p by (simp add: create_body_def)
      have "inv_id iv = ivc" by (simp add: iv(1) new_invoice_def)
      with run queue_deliveries_tx [OF w2 p] iv rows f2 show ?thesis
        by (auto simp: created_db_def body_frame_def)
    qed
  next
    case none
    then show ?thesis
      by (auto simp: create_invoice_def dest!: insert_one_not_NoRows)
  next
    case (dead e)
    with assms(2) q show ?thesis by (auto simp: create_body_def body_frame_def)
  qed
qed

section \<open>Creation\<close>

text \<open>The prefixes of the package are encodable, so responses never fail to encode.\<close>

lemma enc_id_total: "plain_prefix p \<Longrightarrow> \<exists>s. enc_id E p i = Inr s"
  using pid.enc_total by (simp add: enc_id_def)

lemma to_item_responses_total: "\<exists>rs. to_item_responses E items = Inr rs"
proof (induction items)
  case (Cons itm items)
  obtain p where p: "enc_id E prefix_invoice_item (itm_id itm) = Inr p"
    using enc_id_total plain_prefixes(3) by blast
  obtain q where q: "enc_id E prefix_invoice (itm_invoice itm) = Inr q"
    using enc_id_total plain_prefixes(2) by blast
  from Cons.IH p q show ?case by auto
qed simp

lemma to_invoice_response_total: "\<exists>resp. to_invoice_response E iv items = Inr resp"
proof -
  obtain p where p: "enc_id E prefix_invoice (inv_id iv) = Inr p"
    using enc_id_total plain_prefixes(2) by blast
  obtain q where q: "enc_id E prefix_customer (inv_customer iv) = Inr q"
    using enc_id_total plain_prefixes(1) by blast
  obtain rs where "to_item_responses E items = Inr rs"
    using to_item_responses_total by blast
  with p q show ?thesis by (simp add: to_invoice_response_def)
qed

lemma validate_invoice_Inr:
  assumes "validate_invoice req = Inr (due, amount)"
  shows "list_all item_valid (cir_items req) \<and> cir_items req \<noteq> []
    \<and> sint amount = exact_total (cir_items req)
    \<and> parse_date (trim_space (cir_due req)) = Some due"
  using assms server_total_spec [of "cir_items req" amount]
  by (auto simp: validate_invoice_def split: if_splits option.splits sum.splits)

lemma validate_invoice_Inl:
  "validate_invoice req = Inl rep \<Longrightarrow> \<exists>msg. rep = fail_with 400 ''bad_request'' msg"
  by (auto simp: validate_invoice_def split: if_splits option.splits sum.splits)

lemma initial_state_range: "initial_state st = Some s \<Longrightarrow> s = DRAFT \<or> s = OPEN"
  by (auto simp: initial_state_def Let_def split: option.splits if_splits)

text \<open>What the transaction leaves in the committed database.\<close>

definition invoice_created ::
  "int64 \<Rightarrow> create_invoice_request \<Rightarrow> invoice \<Rightarrow> invoice_item list \<Rightarrow> webhook_delivery list
   \<Rightarrow> database \<Rightarrow> database \<Rightarrow> bool" where
  "invoice_created b req iv rows new d d' \<longleftrightarrow>
     d' = d\<lparr>invoices := invoices d @ [iv], invoice_items := invoice_items d @ rows,
            webhook_deliveries := webhook_deliveries d @ new\<rparr>
     \<and> inv_business iv = b \<and> inv_state iv \<in> {DRAFT, OPEN}
     \<and> inv_id iv \<notin> inv_id ` set (invoices d)
     \<and> list_all item_valid (cir_items req) \<and> length rows = length (cir_items req)
     \<and> sint (inv_total iv) = exact_total (cir_items req) \<and> sint (inv_total iv) = items_total rows
     \<and> (\<forall>r \<in> set rows. itm_invoice r = inv_id iv)
     \<and> map whd_endpoint new = map whe_id (active_endpoints b d)
     \<and> (\<forall>x \<in> set new. whd_status x = DlvPENDING \<and> whd_invoice x = inv_id iv
          \<and> whd_event x = INVOICE_CREATED)"

lemma create_body_created:
  assumes "in_tx w d" "create_body E b ivc cust amount st due req w = (Inr (iv, rows), w')"
    and "in_tx w' d'" "validate_invoice req = Inr (due, amount)" "st = DRAFT \<or> st = OPEN"
  shows "\<exists>new. invoice_created b req iv rows new d d'"
proof -
  let ?new = "\<lambda>k. queued_rows E (w_dbnow w) ivc INVOICE_CREATED
     (created_payload E ivc (cir_customer req) amount st due) k (active_endpoints b d)"
  from create_body_tx [OF assms(1,2)] assms(3) obtain k where
    iv: "iv = new_invoice (w_dbnow w) ivc b cust amount st due"
    and rows: "rows = new_items E (w_dbnow w) ivc (w_ids w) (cir_items req)"
    and fresh: "inv_id iv \<notin> inv_id ` set (invoices d)"
    and d': "d' = created_db E (w_dbnow w) (w_ids w) iv (cir_items req) (?new k) d"
    by (auto simp: in_tx_def tx_dead_def occurs_iff new_invoice_def)
  from iv have sel: "inv_id iv = ivc" "inv_business iv = b" "inv_state iv = st" "inv_total iv = amount"
    by (simp_all add: new_invoice_def)
  have "invoice_created b req iv rows (?new k) d d'"
    unfolding invoice_created_def
  proof (intro conjI)
    show "d' = d\<lparr>invoices := invoices d @ [iv], invoice_items := invoice_items d @ rows,
            webhook_deliveries := webhook_deliveries d @ ?new k\<rparr>"
      by (simp add: d' created_db_def rows sel)
    show "sint (inv_total iv) = items_total rows"
      using validate_invoice_Inr [OF assms(4)] by (simp add: sel rows new_items_total)
    show "\<forall>r \<in> set rows. itm_invoice r = inv_id iv"
      using new_items_mem by (fastforce simp: sel rows)
    show "\<forall>x \<in> set (?new k). whd_status x = DlvPENDING \<and> whd_invoice x = inv_id iv
        \<and> whd_event x = INVOICE_CREATED"
      using queued_rows_mem by (fastforce simp: sel)
  qed (use validate_invoice_Inr [OF assms(4)] assms(5) fresh in
      \<open>auto simp: sel rows queued_rows_endpoints\<close>)
  then show ?thesis ..
qed

lemma create_invoice_cases:
  assumes "create_invoice_handler E b body w = (rep, w')" "w_tx w = None"
  shows "w_tx w' = None \<and> w_psp w' = w_psp w \<and>
    (w_db w' = w_db w \<and> (\<forall>s resp. rep \<noteq> Reply s resp)
     \<or> (\<exists>req iv rows new resp. body = Some req
         \<and> invoice_created b req iv rows new (w_db w) (w_db w')
         \<and> to_invoice_response E iv rows = Inr resp
         \<and> (rep = Reply 201 resp
            \<or> rep = fail_with 500 ''internal_error'' ''Failed to create invoice'')))"
proof (cases "b = 0 \<or> body = None")
  case True
  with assms show ?thesis
    by (auto simp: create_invoice_handler_def fail_with_def split: if_splits)
next
  case False
  then obtain req where body: "body = Some req" and b: "b \<noteq> 0" by auto
  show ?thesis
  proof (cases "validate_invoice req")
    case (Inl r)
    with assms body b validate_invoice_Inl [OF Inl] show ?thesis
      by (auto simp: create_invoice_handler_def fail_with_def)
  next
    case (Inr p)
    then obtain due amount where v: "validate_invoice req = Inr (due, amount)" by (cases p) auto
    show ?thesis
    proof (cases "dec_id E prefix_customer (trim_space (cir_customer req))")
      case (Inl e)
      with assms body b v show ?thesis by (auto simp: create_invoice_handler_def fail_with_def)
    next
      case (Inr cust)
      obtain r1 w1 where q: "query E Pool (get_customer_by_id cust b) w = (r1, w1)" by fastforce
      from select_pool [OF q [unfolded get_customer_by_id_def]]
      have w1: "w_db w1 = w_db w" "w_tx w1 = None" "w_psp w1 = w_psp w"
        using assms(2) by (auto simp: same_data_def)
      show ?thesis
      proof (cases "isl r1 \<or> initial_state (cir_state req) = None")
        case True
        with assms body b v Inr q w1 show ?thesis
          by (cases r1) (auto simp: create_invoice_handler_def fail_with_def split: if_splits)
      next
        case False
        then obtain x st where r1: "r1 = Inr x" and st: "initial_state (cir_state req) = Some st"
          by (cases r1) auto
        let ?i = "env_ids E (w_ids w1)" and ?w2 = "w1\<lparr>w_ids := Suc (w_ids w1)\<rparr>"
        obtain r3 w3 where t: "with_tx E id (create_body E b ?i cust amount st due req) ?w2 = (r3, w3)"
          by fastforce
        have run: "w' = w3 \<and> (case r3 of
              Inl e \<Rightarrow> rep = fail_with 500 ''internal_error'' ''Failed to create invoice''
            | Inr (iv, rows) \<Rightarrow> (\<exists>resp. to_invoice_response E iv rows = Inr resp \<and> rep = Reply 201 resp))"
          using assms(1) body b v Inr q r1 st t to_invoice_response_total
          by (auto simp: create_invoice_handler_def gen_id_def split: sum.splits)
            (metis sum.distinct(1))
        note created = create_body_created [OF begun_in_tx _ _ v initial_state_range [OF st]]
        note bf = create_body_tx [OF begun_in_tx]
        from t show ?thesis
        proof (cases rule: with_txE)
          case no_begin
          with run w1 show ?thesis by (auto simp: fail_with_def)
        next
          case (error e w4)
          with bf [OF error(1)] run w1 show ?thesis by (auto simp: fail_with_def body_frame_def)
        next
          case (committed y w4 d)
          obtain iv rows where y: "y = (iv, rows)" by (cases y)
          from created [OF committed(1)[unfolded y] committed(2)] obtain new where
            new: "invoice_created b req iv rows new (w_db ?w2) d" by auto
          obtain resp where resp: "to_invoice_response E iv rows = Inr resp"
            using to_invoice_response_total by blast
          have "rep = Reply 201 resp
              \<or> rep = fail_with 500 ''internal_error'' ''Failed to create invoice''"
            using committed(4) run resp by (auto simp: y)
          moreover have "w_tx w' = None" "w_psp w' = w_psp w" "w_db w' = d"
            using run committed(3) bf [OF committed(1)] w1 by (auto simp: body_frame_def)
          ultimately show ?thesis using body new resp w1 by auto
        next
          case (failed y w4 e)
          with bf [OF failed(1)] run w1 show ?thesis by (auto simp: fail_with_def body_frame_def)
        qed
      qed
    qed
  qed
qed

text \<open>
  C9. Creating an invoice is atomic and exact. Either the committed database is unchanged and no
  invoice is reported, or it has gained one invoice of the business in state DRAFT or OPEN, one
  item row per requested item, all pointing to it, and one pending INVOICE.CREATED delivery per
  active endpoint; the stored total is the exact sum over the stored items. A 201 answer is only
  given in the second case and shows the stored invoice.
\<close>

theorem create_invoice_atomic:
  assumes "create_invoice_handler E b body w = (rep, w')" "w_tx w = None"
  shows "w_tx w' = None \<and> w_psp w' = w_psp w \<and>
    (w_db w' = w_db w \<and> (\<forall>s resp. rep \<noteq> Reply s resp)
     \<or> (\<exists>req iv rows new resp. body = Some req
         \<and> invoice_created b req iv rows new (w_db w) (w_db w')
         \<and> to_invoice_response E iv rows = Inr resp
         \<and> (rep = Reply 201 resp
            \<or> rep = fail_with 500 ''internal_error'' ''Failed to create invoice'')))"
  by (rule create_invoice_cases [OF assms])

section \<open>Reading\<close>

definition items_of :: "int64 \<Rightarrow> database \<Rightarrow> invoice_item list" where
  "items_of i d = sort_key (\<lambda>r. sint (itm_id r)) (filter (\<lambda>r. itm_invoice r = i) (invoice_items d))"

lemma items_by_invoice_filter:
  "items_by_invoice items i = filter (\<lambda>r. itm_invoice r = i) items"
proof -
  have "foldl (\<lambda>m itm. m(itm_invoice itm := m (itm_invoice itm) @ [itm])) m items i
      = m i @ filter (\<lambda>r. itm_invoice r = i) items" for m :: "int64 \<Rightarrow> invoice_item list"
    by (induction items arbitrary: m) auto
  then show ?thesis by (simp add: items_by_invoice_def)
qed

lemma reply_with_items_spec:
  assumes "reply_with_items E i iv w = (rep, w')"
  shows "same_data w w' \<and>
    (rep = fail_with 500 ''internal_error'' ''Failed to retrieve invoice items''
     \<or> (\<exists>resp. to_invoice_response E iv (items_of i (w_db w)) = Inr resp \<and> rep = Reply 200 resp))"
proof -
  obtain r1 w1 where q: "query E Pool (list_invoice_items_by_invoice_id i) w = (r1, w1)" by fastforce
  note s = select_many_pool [OF q [unfolded list_invoice_items_by_invoice_id_def]]
  show ?thesis
  proof (cases r1)
    case (Inr items)
    with s have items: "items = items_of i (w_db w)" by (simp add: items_of_def)
    obtain resp where "to_invoice_response E iv items = Inr resp"
      using to_invoice_response_total by blast
    with assms q s Inr items show ?thesis by (auto simp: reply_with_items_def)
  qed (use assms q s in \<open>auto simp: reply_with_items_def\<close>)
qed

text \<open>
  C21. Reading an invoice changes nothing and is confined to the business: a 200 answer shows the
  stored invoice of this business with the decoded id and all of its items; an invoice of another
  business, like a missing one, is a 404.
\<close>

theorem get_invoice_confined:
  assumes "get_invoice_handler E b raw w = (rep, w')"
  shows "w_db w' = w_db w \<and>
    (\<forall>s resp. rep = Reply s resp \<longrightarrow>
       s = 200 \<and> b \<noteq> 0 \<and>
       (\<exists>i iv. dec_id E prefix_invoice raw = Inr i \<and> lookup_invoice b i (w_db w) = Some iv
          \<and> to_invoice_response E iv (items_of i (w_db w)) = Inr resp))
    \<and> (\<forall>i. b \<noteq> 0 \<longrightarrow> dec_id E prefix_invoice raw = Inr i \<longrightarrow>
         lookup_invoice b i (w_db w) = None \<longrightarrow>
         rep \<in> {fail_with 404 ''not_found'' ''Invoice not found'',
                fail_with 500 ''internal_error'' ''Failed to retrieve invoice''})"
proof (cases "b = 0 \<or> isl (dec_id E prefix_invoice raw)")
  case True
  with assms show ?thesis
    by (cases "dec_id E prefix_invoice raw")
      (auto simp: get_invoice_handler_def fail_with_def split: if_splits)
next
  case False
  then obtain i where i: "dec_id E prefix_invoice raw = Inr i" and b: "b \<noteq> 0"
    by (cases "dec_id E prefix_invoice raw") auto
  obtain r1 w1 where q: "query E Pool (get_invoice_by_id i b) w = (r1, w1)" by fastforce
  note s = select_pool [OF q [unfolded get_invoice_by_id_def]]
  show ?thesis
  proof (cases r1)
    case (Inl e)
    with assms i b q s show ?thesis
      by (auto simp: get_invoice_handler_def fail_with_def same_data_def split: if_splits)
  next
    case (Inr iv)
    with assms i b q have run: "reply_with_items E i iv w1 = (rep, w')"
      by (simp add: get_invoice_handler_def)
    from s Inr have "lookup_invoice b i (w_db w) = Some iv" "w_db w1 = w_db w"
      by (simp_all add: lookup_invoice_def same_data_def)
    with reply_with_items_spec [OF run] i b show ?thesis
      by (auto simp: same_data_def fail_with_def)
  qed
qed

lemma to_invoice_responses_all:
  "to_invoice_responses E m ivs = Inr rs \<Longrightarrow>
   list_all2 (\<lambda>iv r. to_invoice_response E iv (m (inv_id iv)) = Inr r) ivs rs"
  by (induction ivs arbitrary: rs) (auto split: sum.splits)

lemma filter_items_of:
  assumes "iv \<in> set ivs"
  shows "items_by_invoice (sort_key (\<lambda>r. sint (itm_id r))
           (filter (\<lambda>r. itm_invoice r \<in> set (map inv_id ivs)) (invoice_items d))) (inv_id iv)
         = items_of (inv_id iv) d"
proof -
  have "filter (\<lambda>r. itm_invoice r = inv_id iv)
          (filter (\<lambda>r. itm_invoice r \<in> set (map inv_id ivs)) (invoice_items d))
        = filter (\<lambda>r. itm_invoice r = inv_id iv) (invoice_items d)"
    using assms by (auto intro!: filter_cong)
  then show ?thesis by (simp only: items_by_invoice_filter items_of_def filter_sort)
qed

text \<open>
  C22. Listing shows exactly the invoices of the business, newest first, each with exactly its
  own items in the order of their ids, although the items of all invoices are read by one query
  and grouped by a map.
\<close>

theorem list_invoices_complete:
  assumes "list_invoices_handler E b w = (Reply s rs, w')"
  shows "s = 200 \<and> w_db w' = w_db w \<and>
    list_all2 (\<lambda>iv r. to_invoice_response E iv (items_of (inv_id iv) (w_db w)) = Inr r)
      (sort_key (\<lambda>iv. - inv_created iv) (filter (\<lambda>iv. inv_business iv = b) (invoices (w_db w)))) rs"
proof -
  have b: "b \<noteq> 0" using assms by (auto simp: list_invoices_handler_def fail_with_def)
  obtain r1 w1 where q: "query E Pool (list_invoices_by_business_id b) w = (r1, w1)" by fastforce
  note s1 = select_many_pool [OF q [unfolded list_invoices_by_business_id_def]]
  obtain ivs where r1: "r1 = Inr ivs"
    using assms b q by (cases r1) (auto simp: list_invoices_handler_def fail_with_def)
  with s1 have ivs: "ivs = sort_key (\<lambda>iv. - inv_created iv)
      (filter (\<lambda>iv. inv_business iv = b) (invoices (w_db w)))" and w1: "w_db w1 = w_db w"
    by (auto simp: same_data_def)
  show ?thesis
  proof (cases "ivs = []")
    case True
    with assms b q r1 w1 show ?thesis unfolding ivs [symmetric]
      by (simp add: list_invoices_handler_def)
  next
    case False
    obtain r2 w2 where q2:
      "query E Pool (list_invoice_items_by_invoice_ids (map inv_id ivs)) w1 = (r2, w2)" by fastforce
    note s2 = select_many_pool [OF q2 [unfolded list_invoice_items_by_invoice_ids_def]]
    obtain items where r2: "r2 = Inr items"
      using assms b q r1 False q2 by (cases r2) (auto simp: list_invoices_handler_def fail_with_def)
    with s2 w1 have items: "items = sort_key (\<lambda>r. sint (itm_id r))
        (filter (\<lambda>r. itm_invoice r \<in> set (map inv_id ivs)) (invoice_items (w_db w)))"
      and w2: "w_db w2 = w_db w"
      by (auto simp: same_data_def)
    have "to_invoice_responses E (items_by_invoice items) ivs = Inr rs" "s = 200" "w' = w2"
      using assms b q r1 False q2 r2
      by (auto simp: list_invoices_handler_def fail_with_def split: sum.splits)
    with to_invoice_responses_all have
      "list_all2 (\<lambda>iv r. to_invoice_response E iv (items_by_invoice items (inv_id iv)) = Inr r) ivs rs"
      by blast
    then have "list_all2 (\<lambda>iv r. to_invoice_response E iv (items_of (inv_id iv) (w_db w)) = Inr r) ivs rs"
      by (rule list.rel_mono_strong) (simp add: items filter_items_of del: set_map)
    with \<open>s = 200\<close> \<open>w' = w2\<close> w2 show ?thesis unfolding ivs [symmetric] by simp
  qed
qed

section \<open>Voiding\<close>

definition void_row :: "instant \<Rightarrow> invoice \<Rightarrow> invoice" where
  "void_row now r = r\<lparr>inv_state := VOID, inv_updated := now\<rparr>"

lemma void_update:
  assumes "query E Pool (update_invoice_state now i b VOID) w = (r, w')"
  shows "w_tx w' = w_tx w \<and> w_psp w' = w_psp w \<and> (w_db w' = w_db w
    \<or> w_db w' = (w_db w)\<lparr>invoices :=
         map (\<lambda>r. if inv_id r = i \<and> inv_business r = b then void_row now r else r)
           (invoices (w_db w))\<rparr>)
    \<and> (\<forall>v. r = Inr v \<longrightarrow> inv_state v = VOID)"
proof -
  from assms have "run_pool E (update_invoice_state now i b VOID) w = (r, w')"
    by (simp add: query_def)
  then show ?thesis
    by (cases rule: run_poolE)
      (auto simp: update_invoice_state_def update_where_def void_row_def elim!: update_one_InrE)
qed

lemma void_response:
  "to_invoice_response E iv items = Inr resp \<Longrightarrow> inv_state iv = VOID \<Longrightarrow> ivp_state resp = ''VOID''"
  by (auto simp: to_invoice_response_def split: sum.splits)

lemma void_invoice_cases:
  assumes "void_invoice E b raw w = (rep, w')" "w_tx w = None"
  shows "w_tx w' = None \<and> w_psp w' = w_psp w \<and>
    (w_db w' = w_db w
     \<or> (\<exists>i iv. dec_id E prefix_invoice raw = Inr i \<and> lookup_invoice b i (w_db w) = Some iv
          \<and> inv_state iv \<in> {DRAFT, OPEN}
          \<and> w_db w' = (w_db w)\<lparr>invoices :=
              map (\<lambda>r. if inv_id r = i \<and> inv_business r = b then void_row (w_dbnow w) r else r)
                (invoices (w_db w))\<rparr>))
    \<and> (\<forall>s resp. rep = Reply s resp \<longrightarrow> s = 200 \<and> ivp_state resp = ''VOID'')
    \<and> (\<forall>i iv. dec_id E prefix_invoice raw = Inr i \<longrightarrow> lookup_invoice b i (w_db w) = Some iv \<longrightarrow>
         inv_state iv \<in> {PAID, UNCOLLECTIBLE} \<longrightarrow> w_db w' = w_db w \<and> (\<exists>e. rep = ErrorReply 400 e
           \<or> rep = ErrorReply 401 e \<or> rep = ErrorReply 500 e))"
proof (cases "b = 0 \<or> isl (dec_id E prefix_invoice raw)")
  case True
  with assms show ?thesis
    by (cases "dec_id E prefix_invoice raw")
      (auto simp: void_invoice_def fail_with_def split: if_splits)
next
  case False
  then obtain i where i: "dec_id E prefix_invoice raw = Inr i" and b: "b \<noteq> 0"
    by (cases "dec_id E prefix_invoice raw") auto
  obtain r1 w1 where q: "query E Pool (get_invoice_by_id i b) w = (r1, w1)" by fastforce
  note s = select_pool [OF q [unfolded get_invoice_by_id_def]]
  then have w1: "w_db w1 = w_db w" "w_tx w1 = None" "w_psp w1 = w_psp w" "w_dbnow w1 = w_dbnow w"
    using assms(2) by (auto simp: same_data_def)
  show ?thesis
  proof (cases r1)
    case (Inl e)
    with assms i b q s w1 show ?thesis
      by (auto simp: void_invoice_def fail_with_def lookup_invoice_def split: if_splits)
  next
    case (Inr iv)
    with s have look: "lookup_invoice b i (w_db w) = Some iv" by (simp add: lookup_invoice_def)
    consider (final) "inv_state iv \<in> {PAID, UNCOLLECTIBLE}" | (idle) "inv_state iv = VOID"
      | (go) "inv_state iv \<in> {DRAFT, OPEN}"
      by (cases "inv_state iv") auto
    then show ?thesis
    proof cases
      case final
      with assms i b q Inr w1 show ?thesis by (auto simp: void_invoice_def fail_with_def)
    next
      case idle
      with assms i b q Inr have "reply_with_items E i iv w1 = (rep, w')"
        by (simp add: void_invoice_def)
      from reply_with_items_spec [OF this] w1 look i idle show ?thesis
        by (auto simp: same_data_def fail_with_def void_response)
    next
      case go
      obtain r2 w2 where u: "query E Pool (update_invoice_state (w_dbnow w1) i b VOID) w1 = (r2, w2)"
        by fastforce
      let ?d = "(w_db w)\<lparr>invoices :=
              map (\<lambda>r. if inv_id r = i \<and> inv_business r = b then void_row (w_dbnow w) r else r)
                (invoices (w_db w))\<rparr>"
      have f: "w_tx w2 = None" "w_psp w2 = w_psp w" "w_db w2 = w_db w \<or> w_db w2 = ?d"
          "\<forall>v. r2 = Inr v \<longrightarrow> inv_state v = VOID"
        using void_update [OF u] w1 by auto
      have run: "(rep, w') = (case r2 of
           Inl e \<Rightarrow> (fail_with 500 ''internal_error'' ''Failed to void invoice'', w2)
         | Inr v \<Rightarrow> reply_with_items E i v w2)"
        using assms go i b q Inr u by (auto simp: void_invoice_def split: sum.split)
      show ?thesis
      proof (cases r2)
        case (Inl e)
        with run f i look go show ?thesis by (auto simp: fail_with_def)
      next
        case (Inr v)
        with run have "reply_with_items E i v w2 = (rep, w')" by simp
        from reply_with_items_spec [OF this] f Inr i look go show ?thesis
          by (auto simp: same_data_def fail_with_def void_response)
      qed
    qed
  qed
qed

text \<open>
  C20. Voiding follows the state machine when nothing else runs: only DRAFT and OPEN invoices of
  the business change, and only to VOID; voiding a VOID invoice succeeds and changes nothing;
  PAID and UNCOLLECTIBLE invoices are refused. A 200 answer shows a VOID invoice.
\<close>

theorem void_invoice_transition:
  assumes "void_invoice E b raw w = (rep, w')" "w_tx w = None"
  shows "w_tx w' = None \<and> w_psp w' = w_psp w \<and>
    (w_db w' = w_db w
     \<or> (\<exists>i iv. dec_id E prefix_invoice raw = Inr i \<and> lookup_invoice b i (w_db w) = Some iv
          \<and> inv_state iv \<in> {DRAFT, OPEN}
          \<and> w_db w' = (w_db w)\<lparr>invoices :=
              map (\<lambda>r. if inv_id r = i \<and> inv_business r = b then void_row (w_dbnow w) r else r)
                (invoices (w_db w))\<rparr>))
    \<and> (\<forall>s resp. rep = Reply s resp \<longrightarrow> s = 200 \<and> ivp_state resp = ''VOID'')
    \<and> (\<forall>i iv. dec_id E prefix_invoice raw = Inr i \<longrightarrow> lookup_invoice b i (w_db w) = Some iv \<longrightarrow>
         inv_state iv \<in> {PAID, UNCOLLECTIBLE} \<longrightarrow> w_db w' = w_db w \<and> (\<exists>e. rep = ErrorReply 400 e
           \<or> rep = ErrorReply 401 e \<or> rep = ErrorReply 500 e))"
  by (rule void_invoice_cases [OF assms])

text \<open>The two outcomes of a void, and of a creation, for the database.\<close>

lemma void_invoiceE:
  assumes "void_invoice E b raw w = (rep, w')" "w_tx w = None"
  obtains (same) "w_db w' = w_db w" "w_tx w' = None"
  | (voided) i iv where "w_tx w' = None" "lookup_invoice b i (w_db w) = Some iv"
      "inv_state iv \<in> {DRAFT, OPEN}"
      "w_db w' = (w_db w)\<lparr>invoices :=
         map (\<lambda>r. if inv_id r = i \<and> inv_business r = b then void_row (w_dbnow w) r else r)
           (invoices (w_db w))\<rparr>"
proof -
  note c = void_invoice_cases [OF assms]
  then have "w_tx w' = None" by simp
  moreover from c consider "w_db w' = w_db w" | "\<exists>i iv. lookup_invoice b i (w_db w) = Some iv
      \<and> inv_state iv \<in> {DRAFT, OPEN} \<and> w_db w' = (w_db w)\<lparr>invoices :=
         map (\<lambda>r. if inv_id r = i \<and> inv_business r = b then void_row (w_dbnow w) r else r)
           (invoices (w_db w))\<rparr>" by (elim conjE disjE exE) blast+
  ultimately show thesis using that by cases blast+
qed

lemma create_invoiceE:
  assumes "create_invoice_handler E b body w = (rep, w')" "w_tx w = None"
  obtains (same) "w_db w' = w_db w" "w_tx w' = None"
  | (created) req iv rows new where "w_tx w' = None"
      "invoice_created b req iv rows new (w_db w) (w_db w')"
  using create_invoice_cases [OF assms] by (elim conjE disjE exE) blast+

end
