(* ===== verification/Auth.thy ===== *)
theory Auth
  imports Session
begin

text \<open>
  Package \<open>internal/auth\<close>: parsing and checking of API keys, the middleware that scopes a request
  to a business, and the idempotent creation of the demo business and key at start-up.
\<close>

section \<open>API keys\<close>

datatype key_error = EmptyKey | InvalidKeyFormat

definition parse_api_key :: "string \<Rightarrow> key_error + string \<times> string" where
  "parse_api_key raw =
     (let token = trim_space raw in
      if token = [] then Inl EmptyKey
      else case last_index CHR ''_'' token of
        None \<Rightarrow> Inl InvalidKeyFormat
      | Some i \<Rightarrow>
          if i = 0 \<or> i \<ge> length token - 1 then Inl InvalidKeyFormat
          else
            let pfx = take i token; sec = drop (i + 1) token in
            if pfx = [] \<or> sec = [] then Inl InvalidKeyFormat else Inr (pfx, sec))"

definition hash_secret :: "(string \<Rightarrow> string) \<Rightarrow> string \<Rightarrow> string" where
  "hash_secret sha256 sec = hex_encode (sha256 sec)"

section \<open>The middleware\<close>

text \<open>
  What the middleware puts into the request context (business id, key id), or the message of the
  401 answer it aborts with. An absent \<open>Authorization\<close> header is the empty string.
\<close>

definition bad_header_message :: string where
  "bad_header_message =
     ''Invalid Authorization header format, expected '' @ CHR 0x27 # ''Bearer <api_key>'' @ [CHR 0x27]"

definition auth_middleware :: "env \<Rightarrow> string \<Rightarrow> world \<Rightarrow> (string + int64 \<times> int64) \<times> world" where
  "auth_middleware E header w =
     (if header = [] then (Inl ''Missing Authorization header'', w)
      else case split_n2 CHR '' '' header of
        [scheme, rest] \<Rightarrow>
          if \<not> equal_fold_ascii scheme ''Bearer'' then
            (Inl bad_header_message, w)
          else
            (case parse_api_key (trim_space rest) of
               Inl _ \<Rightarrow> (Inl ''Invalid API key format'', w)
             | Inr (pfx, sec) \<Rightarrow>
                 (case query E Pool (get_api_key_by_prefix pfx) w of
                    (Inl _, w1) \<Rightarrow> (Inl ''Invalid API key'', w1)
                  | (Inr key, w1) \<Rightarrow>
                      if key_revoked key \<noteq> None then (Inl ''API key has been revoked'', w1)
                      else if key_hash key \<noteq> hash_secret (env_sha256 E) sec then
                        (Inl ''Invalid API key'', w1)
                      else (Inr (key_business key, key_id key), w1)))
      | _ \<Rightarrow> (Inl bad_header_message, w))"

section \<open>Bootstrap\<close>

record demo_config =
  cfg_business :: string
  cfg_prefix :: string
  cfg_secret :: string

record bootstrap_result =
  boot_business :: int64
  boot_prefix :: string
  boot_full_key :: string

datatype bootstrap_error =
    RandomFailed
  | CreateBusinessFailed db_error
  | CheckBusinessFailed db_error
  | CreateKeyFailed db_error
  | CheckKeyFailed db_error

definition default_business :: string where "default_business = ''Dodo Demo Business''"
definition default_key_prefix :: string where "default_key_prefix = ''dp_test_demo''"

text \<open>\<open>cfg\<close> are the three environment variables; \<open>random\<close> is what \<open>rand.Read\<close> gives.\<close>

definition resolve_business ::
  "env \<Rightarrow> string \<Rightarrow> world \<Rightarrow> (bootstrap_error + business) \<times> world" where
  "resolve_business E nm w =
     (case query E Pool (get_business_by_name nm) w of
        (Inr biz, w1) \<Rightarrow> (Inr biz, w1)
      | (Inl e, w1) \<Rightarrow>
          if e = NoRows then
            (let (i, w2) = gen_id E w1 in
             case query E Pool (create_business (w_dbnow w2) i nm) w2 of
               (Inl e, w3) \<Rightarrow> (Inl (CreateBusinessFailed e), w3)
             | (Inr biz, w3) \<Rightarrow> (Inr biz, w3))
          else (Inl (CheckBusinessFailed e), w1))"

definition resolve_key ::
  "env \<Rightarrow> business \<Rightarrow> string \<Rightarrow> string \<Rightarrow> bool \<Rightarrow> world \<Rightarrow> (bootstrap_error + string) \<times> world" where
  "resolve_key E biz pfx sec generated w =
     (case query E Pool (get_api_key_by_prefix pfx) w of
        (Inr key, w1) \<Rightarrow> (Inr (if generated then [] else pfx @ ''_'' @ sec), w1)
      | (Inl e, w1) \<Rightarrow>
          if e = NoRows then
            (let (i, w2) = gen_id E w1 in
             case query E Pool (create_api_key (w_dbnow w2) i (biz_id biz) pfx
                                  (hash_secret (env_sha256 E) sec)) w2 of
               (Inl e, w3) \<Rightarrow> (Inl (CreateKeyFailed e), w3)
             | (Inr key, w3) \<Rightarrow> (Inr (pfx @ ''_'' @ sec), w3))
          else (Inl (CheckKeyFailed e), w1))"

definition bootstrap_demo_data ::
  "env \<Rightarrow> demo_config \<Rightarrow> string option \<Rightarrow> world \<Rightarrow> (bootstrap_error + bootstrap_result) \<times> world" where
  "bootstrap_demo_data E cfg random w =
     (let nm = (if cfg_business cfg = [] then default_business else cfg_business cfg);
          pfx = (if cfg_prefix cfg = [] then default_key_prefix else cfg_prefix cfg);
          generated = (cfg_secret cfg = [])
      in case (if generated then map_option hex_encode random else Some (cfg_secret cfg)) of
        None \<Rightarrow> (Inl RandomFailed, w)
      | Some sec \<Rightarrow>
          (case resolve_business E nm w of
             (Inl e, w1) \<Rightarrow> (Inl e, w1)
           | (Inr biz, w1) \<Rightarrow>
               (case resolve_key E biz pfx sec (generated \<and> sec \<noteq> []) w1 of
                  (Inl e, w2) \<Rightarrow> (Inl e, w2)
                | (Inr full, w2) \<Rightarrow>
                    (Inr \<lparr>boot_business = biz_id biz, boot_prefix = pfx, boot_full_key = full\<rparr>, w2))))"

section \<open>The middleware is sound and complete\<close>

text \<open>The parser splits at the last underscore, so a key of any prefix parses back.\<close>

lemma parse_api_key_compose:
  assumes "pfx \<noteq> []" "sec \<noteq> []" "CHR ''_'' \<notin> set sec" "trim_space (pfx @ ''_'' @ sec) = pfx @ ''_'' @ sec"
  shows "parse_api_key (pfx @ ''_'' @ sec) = Inr (pfx, sec)"
  using assms last_index_split [of "CHR ''_''" sec pfx]
  by (auto simp: parse_api_key_def Let_def)

lemma parse_api_key_Inr:
  assumes "parse_api_key raw = Inr (pfx, sec)"
  shows "pfx \<noteq> [] \<and> sec \<noteq> [] \<and> CHR ''_'' \<notin> set sec \<and> trim_space raw = pfx @ ''_'' @ sec"
proof -
  let ?t = "trim_space raw"
  obtain i where i: "last_index CHR ''_'' ?t = Some i" "pfx = take i ?t" "sec = drop (Suc i) ?t"
    and ne: "pfx \<noteq> []" "sec \<noteq> []"
    using assms by (auto simp: parse_api_key_def Let_def split: if_splits option.splits)
  from last_index_SomeD [OF i(1)] have "i < length ?t" "?t ! i = CHR ''_''"
      "CHR ''_'' \<notin> set (drop (Suc i) ?t)" by auto
  with id_take_nth_drop [of i ?t] i ne show ?thesis by simp
qed

lemma middleware_sound:
  assumes "auth_middleware E header w = (Inr (b, kid), w')"
  shows "w_db w' = w_db w \<and>
    (\<exists>scheme rest pfx sec key.
       header = scheme @ CHR '' '' # rest \<and> equal_fold_ascii scheme ''Bearer''
       \<and> trim_space (trim_space rest) = pfx @ ''_'' @ sec \<and> CHR ''_'' \<notin> set sec
       \<and> key \<in> set (api_keys (w_db w)) \<and> key_prefix key = pfx \<and> key_revoked key = None
       \<and> key_hash key = hash_secret (env_sha256 E) sec
       \<and> key_business key = b \<and> key_id key = kid)"
proof -
  have ne: "header \<noteq> []" using assms by (auto simp: auth_middleware_def)
  obtain scheme rest where split: "split_n2 CHR '' '' header = [scheme, rest]"
    and bearer: "equal_fold_ascii scheme ''Bearer''"
    using assms ne
    by (auto simp: auth_middleware_def simp del: split_n2.simps split: list.splits if_splits)
  have header: "header = scheme @ CHR '' '' # rest"
    using split_n2_pairD [OF split] by simp
  obtain pfx sec where p: "parse_api_key (trim_space rest) = Inr (pfx, sec)"
    using assms ne split bearer
    by (cases "parse_api_key (trim_space rest)") (auto simp: auth_middleware_def simp del: split_n2.simps)
  obtain r1 w1 where q: "query E Pool (get_api_key_by_prefix pfx) w = (r1, w1)" by fastforce
  note s = select_pool [OF q [unfolded get_api_key_by_prefix_def]]
  obtain key where r1: "r1 = Inr key"
    using assms ne split bearer p q
    by (cases r1) (auto simp: auth_middleware_def simp del: split_n2.simps)
  have "key_revoked key = None \<and> key_hash key = hash_secret (env_sha256 E) sec
      \<and> b = key_business key \<and> kid = key_id key \<and> w' = w1"
    using assms ne split bearer p q r1
    by (auto simp: auth_middleware_def simp del: split_n2.simps split: if_splits)
  moreover have "key \<in> set (api_keys (w_db w))" "key_prefix key = pfx" "w_db w1 = w_db w"
    using s r1 by (auto simp: same_data_def dest: find_Some_mem)
  ultimately show ?thesis
    using header bearer parse_api_key_Inr [OF p] by blast
qed

text \<open>
  C11. Authentication is sound: the middleware lets a request through only with the business of a
  stored, unrevoked key whose prefix and secret digest are those of the presented bearer token;
  and it changes nothing.
\<close>

theorem auth_sound:
  assumes "auth_middleware E header w = (Inr (b, kid), w')"
  shows "w_db w' = w_db w \<and>
    (\<exists>scheme rest pfx sec key.
       header = scheme @ CHR '' '' # rest \<and> equal_fold_ascii scheme ''Bearer''
       \<and> trim_space (trim_space rest) = pfx @ ''_'' @ sec \<and> CHR ''_'' \<notin> set sec
       \<and> key \<in> set (api_keys (w_db w)) \<and> key_prefix key = pfx \<and> key_revoked key = None
       \<and> key_hash key = hash_secret (env_sha256 E) sec
       \<and> key_business key = b \<and> key_id key = kid)"
  by (rule middleware_sound [OF assms])

lemma middleware_complete:
  assumes "env_outcome E (w_calls w) = Answered" "db_ok (w_db w)"
    and "key \<in> set (api_keys (w_db w))" "key_revoked key = None"
    and "key_hash key = hash_secret (env_sha256 E) sec"
    and "key_prefix key \<noteq> []" "sec \<noteq> []" "CHR ''_'' \<notin> set sec"
    and "trim_space (key_prefix key @ ''_'' @ sec) = key_prefix key @ ''_'' @ sec"
  shows "fst (auth_middleware E (''Bearer '' @ key_prefix key @ ''_'' @ sec) w)
    = Inr (key_business key, key_id key)"
proof -
  let ?rest = "key_prefix key @ ''_'' @ sec"
  have split: "split_n2 CHR '' '' (''Bearer '' @ ?rest) = [''Bearer'', ?rest]"
    using split_n2_two [of "CHR '' ''" "''Bearer''" ?rest] by (simp del: split_n2.simps)
  have bearer: "equal_fold_ascii ''Bearer'' ''Bearer''" by (simp add: equal_fold_ascii_def)
  have p: "parse_api_key (trim_space ?rest) = Inr (key_prefix key, sec)"
    using parse_api_key_compose [OF assms(6-9)] assms(9) by simp
  have "distinct (map key_prefix (api_keys (w_db w)))"
    using assms(2) by (simp add: db_ok_defs)
  from find_by_key [OF this assms(3)]
  have "fst (query E Pool (get_api_key_by_prefix (key_prefix key)) w) = Inr key"
    using assms(1)
    by (simp add: query_def run_pool_def get_api_key_by_prefix_def select_one_def Let_def)
  then obtain w1 where "query E Pool (get_api_key_by_prefix (key_prefix key)) w = (Inr key, w1)"
    by (metis fst_conv prod.collapse)
  with split bearer p assms(4,5) show ?thesis
    by (simp add: auth_middleware_def del: split_n2.simps)
qed

text \<open>
  C34. Authentication is complete: without faults, a request that presents the secret of a stored,
  unrevoked key with its prefix is let through with the key's business.
\<close>

theorem auth_complete:
  assumes "\<forall>n. env_outcome E n = Answered" "db_ok (w_db w)"
    and "key \<in> set (api_keys (w_db w))" "key_revoked key = None"
    and "key_hash key = hash_secret (env_sha256 E) sec"
    and "key_prefix key \<noteq> []" "sec \<noteq> []" "CHR ''_'' \<notin> set sec"
    and "trim_space (key_prefix key @ ''_'' @ sec) = key_prefix key @ ''_'' @ sec"
  shows "fst (auth_middleware E (''Bearer '' @ key_prefix key @ ''_'' @ sec) w)
    = Inr (key_business key, key_id key)"
  using assms by (intro middleware_complete) simp_all

section \<open>Bootstrap is idempotent\<close>

lemma insert_pool:
  assumes "query E Pool (\<lambda>d. insert_one (cs d) row table store d) w = (r, w')"
  shows "w_db w' = w_db w \<or> w_db w' = store (table (w_db w) @ [row]) (w_db w)"
    and "r = Inr x \<Longrightarrow> x = row \<and> w_db w' = store (table (w_db w) @ [row]) (w_db w)"
proof -
  from assms have "run_pool E (\<lambda>d. insert_one (cs d) row table store d) w = (r, w')" by (simp add: query_def)
  then show "w_db w' = w_db w \<or> w_db w' = store (table (w_db w) @ [row]) (w_db w)"
    by (cases rule: run_poolE) (auto elim!: insert_one_InrE)
  from \<open>run_pool E (\<lambda>d. insert_one (cs d) row table store d) w = (r, w')\<close>
  show "r = Inr x \<Longrightarrow> x = row \<and> w_db w' = store (table (w_db w) @ [row]) (w_db w)"
    by (cases rule: run_poolE) (auto elim!: insert_one_InrE)
qed

lemma resolve_business_spec:
  assumes "resolve_business E nm w = (Inr biz, w1)"
  shows "find (\<lambda>r. biz_name r = nm) (businesses (w_db w1)) = Some biz
    \<and> (find (\<lambda>r. biz_name r = nm) (businesses (w_db w)) \<noteq> None \<longrightarrow> w_db w1 = w_db w)"
proof -
  obtain r2 w2 where q: "query E Pool (get_business_by_name nm) w = (r2, w2)" by fastforce
  note s = select_pool [OF q [unfolded get_business_by_name_def]]
  show ?thesis
  proof (cases r2)
    case (Inr b2)
    with assms q s show ?thesis by (simp add: resolve_business_def same_data_def)
  next
    case (Inl e)
    have e: "e = NoRows"
      using assms q Inl by (auto simp: resolve_business_def split: if_splits)
    let ?w3 = "w2\<lparr>w_ids := Suc (w_ids w2)\<rparr>" and ?i = "env_ids E (w_ids w2)"
    obtain r4 w4 where q4: "query E Pool (create_business (w_dbnow w2) ?i nm) ?w3 = (r4, w4)"
      by fastforce
    have r4: "r4 = Inr biz" "w1 = w4"
      using assms q Inl e q4 by (auto simp: resolve_business_def gen_id_def split: sum.splits)
    from insert_pool(2) [OF q4 [unfolded create_business_def], of biz] r4 s Inl e
    show ?thesis
      by (auto simp: same_data_def find_append)
  qed
qed

lemma resolve_key_spec:
  assumes "resolve_key E biz pfx sec generated w = (Inr full, w1)"
  shows "businesses (w_db w1) = businesses (w_db w)
    \<and> find (\<lambda>r. key_prefix r = pfx) (api_keys (w_db w1)) \<noteq> None
    \<and> (find (\<lambda>r. key_prefix r = pfx) (api_keys (w_db w)) \<noteq> None \<longrightarrow> w_db w1 = w_db w)"
proof -
  obtain r2 w2 where q: "query E Pool (get_api_key_by_prefix pfx) w = (r2, w2)" by fastforce
  note s = select_pool [OF q [unfolded get_api_key_by_prefix_def]]
  show ?thesis
  proof (cases r2)
    case (Inr k)
    with assms q s show ?thesis by (simp add: resolve_key_def same_data_def)
  next
    case (Inl e)
    have e: "e = NoRows"
      using assms q Inl by (auto simp: resolve_key_def split: if_splits)
    let ?w3 = "w2\<lparr>w_ids := Suc (w_ids w2)\<rparr>" and ?i = "env_ids E (w_ids w2)"
    let ?st = "create_api_key (w_dbnow w2) ?i (biz_id biz) pfx (hash_secret (env_sha256 E) sec)"
    obtain r4 w4 where q4: "query E Pool ?st ?w3 = (r4, w4)" by fastforce
    obtain k where r4: "r4 = Inr k" "w1 = w4"
      using assms q Inl e q4 by (auto simp: resolve_key_def gen_id_def split: sum.splits)
    from s Inl e have none: "find (\<lambda>r. key_prefix r = pfx) (api_keys (w_db w)) = None"
      and db: "w_db w2 = w_db w"
      by (simp_all add: same_data_def)
    from insert_pool(2) [OF q4 [unfolded create_api_key_def] r4(1)] db
    have new: "api_keys (w_db w4) = api_keys (w_db w) @ [k]" "businesses (w_db w4) = businesses (w_db w)"
        "key_prefix k = pfx"
      by simp_all
    from new r4(2) none show ?thesis by (simp add: find_append)
  qed
qed

text \<open>
  C35. Starting the server again is harmless: once a bootstrap has succeeded, a second one with
  the same configuration leaves the database as it is and reports the same business, whatever
  random bytes it draws.
\<close>

theorem bootstrap_idempotent:
  assumes "bootstrap_demo_data E cfg random w = (Inr res, w1)"
    and "bootstrap_demo_data E cfg random2 v = (Inr res2, v1)" "w_db v = w_db w1"
  shows "w_db v1 = w_db v \<and> boot_business res2 = boot_business res
    \<and> boot_prefix res2 = boot_prefix res"
proof -
  let ?nm = "if cfg_business cfg = [] then default_business else cfg_business cfg"
  let ?pfx = "if cfg_prefix cfg = [] then default_key_prefix else cfg_prefix cfg"
  have run: "\<exists>biz sec g full u. resolve_business E ?nm w = (Inr biz, u)
      \<and> resolve_key E biz ?pfx sec g u = (Inr full, w1) \<and> boot_business res = biz_id biz
      \<and> boot_prefix res = ?pfx"
    if "bootstrap_demo_data E cfg random w = (Inr res, w1)" for random w res w1
    using that
    by (auto simp: bootstrap_demo_data_def Let_def split: option.splits sum.splits prod.splits
        split del: if_split)
  obtain biz sec g full u where 1: "resolve_business E ?nm w = (Inr biz, u)"
      "resolve_key E biz ?pfx sec g u = (Inr full, w1)" "boot_business res = biz_id biz"
      "boot_prefix res = ?pfx"
    using run [OF assms(1)] by blast
  obtain biz2 sec2 g2 full2 u2 where 2: "resolve_business E ?nm v = (Inr biz2, u2)"
      "resolve_key E biz2 ?pfx sec2 g2 u2 = (Inr full2, v1)" "boot_business res2 = biz_id biz2"
      "boot_prefix res2 = ?pfx"
    using run [OF assms(2)] by blast
  from resolve_business_spec [OF 1(1)] resolve_key_spec [OF 1(2)] assms(3)
  have have_both: "find (\<lambda>r. biz_name r = ?nm) (businesses (w_db v)) = Some biz"
      "find (\<lambda>r. key_prefix r = ?pfx) (api_keys (w_db v)) \<noteq> None"
    by simp_all
  from resolve_business_spec [OF 2(1)] have_both(1) have u2: "w_db u2 = w_db v" "biz2 = biz"
    by auto
  with resolve_key_spec [OF 2(2)] have_both(2) 1 2 show ?thesis by simp
qed

end
