(* ===== verification/Customer.thy ===== *)
theory Customer
  imports Session
begin

text \<open>
  Package \<open>internal/customer\<close>: creating, listing and reading the customers of a business.
\<close>

record create_customer_request =
  ccr_name :: string
  ccr_email :: string

record customer_response =
  crp_id :: string
  crp_name :: string
  crp_email :: string
  crp_created :: string
  crp_updated :: string

definition is_valid_email :: "env \<Rightarrow> string \<Rightarrow> bool" where
  "is_valid_email E email =
     (if length email = 0 \<or> length email > 320 then False
      else (case env_mail E email of
              None \<Rightarrow> False
            | Some address \<Rightarrow> address = email \<and> CHR ''@'' \<in> set email))"

definition to_customer_response :: "env \<Rightarrow> customer \<Rightarrow> publicid_error + customer_response" where
  "to_customer_response E c =
     (case enc_id E prefix_customer (cus_id c) of
        Inl e \<Rightarrow> Inl e
      | Inr pub \<Rightarrow>
          Inr \<lparr>crp_id = pub, crp_name = cus_name c, crp_email = cus_email c,
               crp_created = env_rfc3339 E (cus_created c),
               crp_updated = env_rfc3339 E (cus_updated c)\<rparr>)"

definition create_customer_handler ::
  "env \<Rightarrow> int64 \<Rightarrow> create_customer_request option \<Rightarrow> world \<Rightarrow> customer_response reply \<times> world"
where
  "create_customer_handler E b body w =
     (if b = 0 then (fail_with 401 ''unauthorized'' ''Authentication required'', w)
      else case body of
        None \<Rightarrow> (fail_with 400 ''bad_request'' ''Invalid request body'', w)
      | Some req \<Rightarrow>
          (let nm = trim_space (ccr_name req) in
           if nm = [] then (fail_with 400 ''bad_request'' ''Customer name is required'', w)
           else if length nm > 255 then
             (fail_with 400 ''bad_request'' ''Customer name cannot exceed 255 characters'', w)
           else
             (let email = trim_space (ccr_email req) in
              if \<not> is_valid_email E email then
                (fail_with 400 ''bad_request'' ''A valid email address is required'', w)
              else
                (let (i, w1) = gen_id E w in
                 case query E Pool (create_customer (w_dbnow w1) i b nm email) w1 of
                   (Inl e, w2) \<Rightarrow>
                     (fail_with 500 ''internal_error'' ''Failed to create customer'', w2)
                 | (Inr c, w2) \<Rightarrow>
                     ((case to_customer_response E c of
                         Inl _ \<Rightarrow> fail_with 500 ''internal_error'' ''Failed to encode customer ID''
                       | Inr resp \<Rightarrow> Reply 201 resp), w2)))))"

fun to_customer_responses ::
  "env \<Rightarrow> customer list \<Rightarrow> publicid_error + customer_response list" where
  "to_customer_responses E [] = Inr []"
| "to_customer_responses E (c # cs) =
     (case to_customer_response E c of
        Inl e \<Rightarrow> Inl e
      | Inr r \<Rightarrow> (case to_customer_responses E cs of Inl e \<Rightarrow> Inl e | Inr rs \<Rightarrow> Inr (r # rs)))"

definition list_customers_handler ::
  "env \<Rightarrow> int64 \<Rightarrow> world \<Rightarrow> customer_response list reply \<times> world" where
  "list_customers_handler E b w =
     (if b = 0 then (fail_with 401 ''unauthorized'' ''Authentication required'', w)
      else case query E Pool (list_customers_by_business_id b) w of
        (Inl e, w1) \<Rightarrow> (fail_with 500 ''internal_error'' ''Failed to retrieve customers'', w1)
      | (Inr cs, w1) \<Rightarrow>
          ((case to_customer_responses E cs of
              Inl _ \<Rightarrow> fail_with 500 ''internal_error'' ''Failed to encode customer ID''
            | Inr rs \<Rightarrow> Reply 200 rs), w1))"

definition get_customer_handler ::
  "env \<Rightarrow> int64 \<Rightarrow> string \<Rightarrow> world \<Rightarrow> customer_response reply \<times> world" where
  "get_customer_handler E b raw w =
     (if b = 0 then (fail_with 401 ''unauthorized'' ''Authentication required'', w)
      else case dec_id E prefix_customer raw of
        Inl _ \<Rightarrow> (fail_with 404 ''not_found'' ''Customer not found'', w)
      | Inr i \<Rightarrow>
          (case query E Pool (get_customer_by_id i b) w of
             (Inl e, w1) \<Rightarrow>
               (if e = NoRows then fail_with 404 ''not_found'' ''Customer not found''
                else fail_with 500 ''internal_error'' ''Failed to retrieve customer'', w1)
           | (Inr c, w1) \<Rightarrow>
               ((case to_customer_response E c of
                   Inl _ \<Rightarrow> fail_with 500 ''internal_error'' ''Failed to encode customer ID''
                 | Inr resp \<Rightarrow> Reply 200 resp), w1)))"

section \<open>What is created can be read, by its business only\<close>

lemma to_customer_response_total:
  "\<exists>s. enc_id E prefix_customer (cus_id c) = Inr s \<and>
     to_customer_response E c = Inr \<lparr>crp_id = s, crp_name = cus_name c, crp_email = cus_email c,
       crp_created = env_rfc3339 E (cus_created c), crp_updated = env_rfc3339 E (cus_updated c)\<rparr>"
  using pid.enc_total [of prefix_customer] by (fastforce simp: enc_id_def to_customer_response_def)

lemma create_customer_created:
  assumes "create_customer_handler E b body w = (Reply s resp, w1)"
  shows "\<exists>c. s = 201 \<and> to_customer_response E c = Inr resp \<and> cus_business c = b \<and> b \<noteq> 0
    \<and> \<not> occurs cus_id (cus_id c) (customers (w_db w))
    \<and> w_db w1 = (w_db w)\<lparr>customers := customers (w_db w) @ [c]\<rparr>"
proof -
  obtain nm email where q: "\<exists>r w2. query E Pool (create_customer (w_dbnow w) (env_ids E (w_ids w)) b nm email)
        (w\<lparr>w_ids := Suc (w_ids w)\<rparr>) = (Inr r, w2) \<and> s = 201 \<and> to_customer_response E r = Inr resp
        \<and> w1 = w2 \<and> b \<noteq> 0"
    using assms
    by (auto simp: create_customer_handler_def fail_with_def gen_id_def Let_def
        split: if_splits option.splits sum.splits prod.splits)
  then obtain r where run: "run_pool E (create_customer (w_dbnow w) (env_ids E (w_ids w)) b nm email)
        (w\<lparr>w_ids := Suc (w_ids w)\<rparr>) = (Inr r, w1)" and "s = 201" "to_customer_response E r = Inr resp"
      "b \<noteq> 0"
    by (auto simp: query_def)
  from run show ?thesis
    by (cases rule: run_poolE)
      (use \<open>s = 201\<close> \<open>to_customer_response E r = Inr resp\<close> \<open>b \<noteq> 0\<close> in
        \<open>auto simp: create_customer_def elim!: insert_one_InrE\<close>)
qed

text \<open>
  C36. A created customer can be read back under the id of the answer, with the same answer, by
  the business that created it; any other business gets a 404 for that id (or the internal error
  if the read fails).
\<close>

theorem created_customer_readable:
  assumes "create_customer_handler E b body w = (Reply s resp, w1)"
    and "w_db v = w_db w1" "get_customer_handler E b2 (crp_id resp) v = (rep, v1)" "b2 \<noteq> 0"
  shows "s = 201 \<and>
    (rep = fail_with 500 ''internal_error'' ''Failed to retrieve customer''
     \<or> (if b2 = b then rep = Reply 200 resp
        else rep = fail_with 404 ''not_found'' ''Customer not found''))"
proof -
  obtain c where s: "s = 201" and resp: "to_customer_response E c = Inr resp"
    and c: "cus_business c = b" "\<not> occurs cus_id (cus_id c) (customers (w_db w))"
      "customers (w_db v) = customers (w_db w) @ [c]"
    using create_customer_created [OF assms(1)] assms(2) by auto
  have "enc_id E prefix_customer (cus_id c) = Inr (crp_id resp)"
    using to_customer_response_total [of E c] resp by auto
  then have dec: "dec_id E prefix_customer (crp_id resp) = Inr (cus_id c)"
    using pid.dec_enc [of prefix_customer] by (simp add: enc_id_def dec_id_def)
  obtain r2 w2 where q: "query E Pool (get_customer_by_id (cus_id c) b2) v = (r2, w2)" by fastforce
  have look: "find (\<lambda>r. cus_id r = cus_id c \<and> cus_business r = b2) (customers (w_db v))
      = (if b2 = b then Some c else None)"
  proof -
    have none: "find (\<lambda>r. cus_id r = cus_id c \<and> cus_business r = b2) (customers (w_db w)) = None"
      using c(2) by (auto simp: find_None_iff occurs_iff image_iff)
    have "find P (xs @ [x]) = (if P x then Some x else None)" if "find P xs = None"
      for P :: "customer \<Rightarrow> bool" and xs x
      using that by (induction xs) (auto split: if_splits)
    from this [OF none, of c] c(1,3) show ?thesis by auto
  qed
  note sel = select_pool [OF q [unfolded get_customer_by_id_def], unfolded look]
  show ?thesis
  proof (cases r2)
    case (Inl e)
    with assms(3,4) dec q sel s show ?thesis
      by (auto simp: get_customer_handler_def split: if_splits)
  next
    case (Inr x)
    with sel have "x = c" "b2 = b" by (auto split: if_splits)
    with assms(3,4) dec q Inr s resp show ?thesis by (simp add: get_customer_handler_def)
  qed
qed

end
