(* ===== verification/Webhook.thy ===== *)
theory Webhook
  imports Session
begin

text \<open>
  The webhook endpoints of \<open>internal/webhook\<close> and the signature of deliveries. The endpoint
  handlers do not check the business id themselves; they rely on the middleware.
\<close>

section \<open>Endpoints\<close>

record endpoint_response =
  erp_id :: string
  erp_url :: string
  erp_secret :: string
  erp_active :: bool
  erp_created :: string
  erp_updated :: string

text \<open>\<open>random\<close> are the 32 bytes of \<open>rand.Read\<close>, \<open>None\<close> if it fails.\<close>

definition generate_secret :: "string option \<Rightarrow> string option" where
  "generate_secret random = map_option (\<lambda>b. ''whsec_'' @ hex_encode b) random"

definition to_endpoint_response :: "env \<Rightarrow> webhook_endpoint \<Rightarrow> publicid_error + endpoint_response"
where
  "to_endpoint_response E ep =
     (case enc_id E prefix_webhook_endpoint (whe_id ep) of
        Inl e \<Rightarrow> Inl e
      | Inr pub \<Rightarrow>
          Inr \<lparr>erp_id = pub, erp_url = whe_url ep, erp_secret = whe_secret ep,
               erp_active = whe_active ep, erp_created = env_rfc3339 E (whe_created ep),
               erp_updated = env_rfc3339 E (whe_updated ep)\<rparr>)"

text \<open>\<open>body\<close> is the URL of the decoded request, \<open>None\<close> if it does not decode.\<close>

definition create_endpoint ::
  "env \<Rightarrow> int64 \<Rightarrow> string option \<Rightarrow> string option \<Rightarrow> world \<Rightarrow> endpoint_response reply \<times> world"
where
  "create_endpoint E b body random w =
     (case body of
        None \<Rightarrow> (fail_with 400 ''bad_request'' ''Invalid request body'', w)
      | Some raw \<Rightarrow>
          (let u = trim_space raw in
           if u = [] then (fail_with 400 ''invalid_url'' ''url is required'', w)
           else if (case env_uri E u of None \<Rightarrow> True | Some (scheme, host) \<Rightarrow> scheme \<noteq> ''https'' \<or> host = [])
           then (fail_with 400 ''invalid_url'' ''url must be a valid http or https URL'', w)
           else
             (case generate_secret random of
                None \<Rightarrow>
                  (fail_with 500 ''internal_error'' ''Failed to generate signing secret'', w)
              | Some sec \<Rightarrow>
                  (let (i, w1) = gen_id E w in
                   case query E Pool (create_webhook_endpoint (w_dbnow w1) i b u sec) w1 of
                     (Inl e, w2) \<Rightarrow>
                       (fail_with 500 ''internal_error'' ''Failed to save webhook endpoint'', w2)
                   | (Inr ep, w2) \<Rightarrow>
                       ((case to_endpoint_response E ep of
                           Inl _ \<Rightarrow> fail_with 500 ''internal_error'' ''Failed to encode public ID''
                         | Inr resp \<Rightarrow> Reply 201 resp), w2)))))"

fun to_endpoint_responses ::
  "env \<Rightarrow> webhook_endpoint list \<Rightarrow> publicid_error + endpoint_response list" where
  "to_endpoint_responses E [] = Inr []"
| "to_endpoint_responses E (ep # eps) =
     (case to_endpoint_response E ep of
        Inl e \<Rightarrow> Inl e
      | Inr r \<Rightarrow> (case to_endpoint_responses E eps of Inl e \<Rightarrow> Inl e | Inr rs \<Rightarrow> Inr (r # rs)))"

definition list_endpoints :: "env \<Rightarrow> int64 \<Rightarrow> world \<Rightarrow> endpoint_response list reply \<times> world" where
  "list_endpoints E b w =
     (case query E Pool (list_webhook_endpoints_by_business_id b) w of
        (Inl e, w1) \<Rightarrow> (fail_with 500 ''internal_error'' ''Failed to fetch webhook endpoints'', w1)
      | (Inr eps, w1) \<Rightarrow>
          ((case to_endpoint_responses E eps of
              Inl _ \<Rightarrow> fail_with 500 ''internal_error'' ''Failed to encode public ID''
            | Inr rs \<Rightarrow> Reply 200 rs), w1))"

definition get_endpoint :: "env \<Rightarrow> int64 \<Rightarrow> string \<Rightarrow> world \<Rightarrow> endpoint_response reply \<times> world" where
  "get_endpoint E b raw w =
     (case dec_id E prefix_webhook_endpoint raw of
        Inl _ \<Rightarrow> (fail_with 404 ''not_found'' ''Webhook endpoint not found'', w)
      | Inr i \<Rightarrow>
          (case query E Pool (get_webhook_endpoint_by_id i b) w of
             (Inl e, w1) \<Rightarrow>
               (if e = NoRows then fail_with 404 ''not_found'' ''Webhook endpoint not found''
                else fail_with 500 ''internal_error'' ''Failed to retrieve webhook endpoint'', w1)
           | (Inr ep, w1) \<Rightarrow>
               ((case to_endpoint_response E ep of
                   Inl _ \<Rightarrow> fail_with 500 ''internal_error'' ''Failed to encode public ID''
                 | Inr resp \<Rightarrow> Reply 200 resp), w1)))"

section \<open>Signatures\<close>

definition compute_signature ::
  "(string \<Rightarrow> string \<Rightarrow> string) \<Rightarrow> string \<Rightarrow> string \<Rightarrow> string \<Rightarrow> string" where
  "compute_signature hmac sec timestamp payload = hex_encode (hmac sec (timestamp @ ''.'' @ payload))"

definition verify_signature ::
  "(string \<Rightarrow> string \<Rightarrow> string) \<Rightarrow> string \<Rightarrow> string \<Rightarrow> string \<Rightarrow> string \<Rightarrow> bool" where
  "verify_signature hmac sec timestamp payload signature =
     (compute_signature hmac sec timestamp payload = signature)"

text \<open>
  C29. What a signature binds, for any strings: it verifies exactly if the MACs of the two signed
  texts are equal. For a timestamp without a dot, against a signature of the worker, whose
  timestamps are decimal, this is the case for the signed timestamp and payload, and for others only
  if the MAC collides on two different texts: the separator makes the text determine both. A
  timestamp with a dot is ambiguous: a dot of the payload can be taken for the separator, and the
  signature still verifies.
\<close>

theorem signature_binds_message:
  "verify_signature hmac sec t' p' (compute_signature hmac sec t p)
     = (hmac sec (t' @ ''.'' @ p') = hmac sec (t @ ''.'' @ p))
   \<and> (CHR ''.'' \<notin> set t' \<longrightarrow>
      verify_signature hmac sec t' p' (compute_signature hmac sec (fmt_int n) p)
        = (if t' = fmt_int n \<and> p' = p then True
           else t' @ ''.'' @ p' \<noteq> fmt_int n @ ''.'' @ p
                \<and> hmac sec (t' @ ''.'' @ p') = hmac sec (fmt_int n @ ''.'' @ p)))
   \<and> verify_signature hmac sec (t @ ''.'' @ u) p (compute_signature hmac sec t (u @ ''.'' @ p))"
proof (intro conjI impI)
  show "verify_signature hmac sec t' p' (compute_signature hmac sec (fmt_int n) p)
        = (if t' = fmt_int n \<and> p' = p then True
           else t' @ ''.'' @ p' \<noteq> fmt_int n @ ''.'' @ p
                \<and> hmac sec (t' @ ''.'' @ p') = hmac sec (fmt_int n @ ''.'' @ p))"
    if "CHR ''.'' \<notin> set t'"
  proof -
    have "t' @ CHR ''.'' # p' = fmt_int n @ CHR ''.'' # p \<longleftrightarrow> t' = fmt_int n \<and> p' = p"
      using split_n2_two [OF fmt_int_no_dot, of n p] split_n2_two [OF that, of p']
      by (metis list.inject)
    then show ?thesis
      by (auto simp: verify_signature_def compute_signature_def hex_encode_inj)
  qed
qed (auto simp: verify_signature_def compute_signature_def hex_encode_inj)

theorem signature_binds_message_witness:
  "verify_signature (\<lambda>k m. k @ m) ''s'' ''12'' ''x'' (compute_signature (\<lambda>k m. k @ m) ''s'' (fmt_int 12) ''x'')
   \<and> \<not> verify_signature (\<lambda>k m. k @ m) ''s'' ''1'' ''2x'' (compute_signature (\<lambda>k m. k @ m) ''s'' (fmt_int 12) ''x'')"
proof -
  have "fmt_int 12 = ''12''" by code_simp
  with signature_binds_message [of "\<lambda>k m. k @ m" "''s''" "''12''" "''x''" "[]" "''x''" 12 "[]"]
    signature_binds_message [of "\<lambda>k m. k @ m" "''s''" "''1''" "''2x''" "[]" "''x''" 12 "[]"]
  show ?thesis by simp
qed

text \<open>
  Endpoints are confined to their business: a read is answered with the stored endpoint of
  this business under the decoded id, and nothing else is ever shown, the signing secret
  included.
\<close>

theorem get_endpoint_confined:
  assumes "get_endpoint E b raw w = (Reply s resp, w')"
  shows "w_db w' = w_db w \<and> s = 200 \<and>
    (\<exists>i ep. dec_id E prefix_webhook_endpoint raw = Inr i \<and> ep \<in> set (webhook_endpoints (w_db w))
      \<and> whe_id ep = i \<and> whe_business ep = b \<and> to_endpoint_response E ep = Inr resp)"
proof -
  obtain i where i: "dec_id E prefix_webhook_endpoint raw = Inr i"
    using assms by (cases "dec_id E prefix_webhook_endpoint raw") (auto simp: get_endpoint_def fail_with_def)
  obtain r1 w1 where q: "query E Pool (get_webhook_endpoint_by_id i b) w = (r1, w1)" by fastforce
  obtain ep where ep: "r1 = Inr ep"
    using assms i q by (cases r1) (auto simp: get_endpoint_def fail_with_def split: if_splits)
  from select_pool [OF q [unfolded get_webhook_endpoint_by_id_def]] ep
  have "ep \<in> set (webhook_endpoints (w_db w))" "whe_id ep = i" "whe_business ep = b" "w_db w1 = w_db w"
    by (auto simp: same_data_def dest: find_Some_mem)
  with assms i q ep show ?thesis
    by (auto simp: get_endpoint_def fail_with_def split: sum.splits)
qed

end
