(* ===== verification/Worker.thy ===== *)
theory Worker
  imports Webhook
begin

text \<open>
  The background worker of \<open>internal/webhook\<close>: claim a batch of due deliveries with a lease,
  send each as a signed HTTP request, and record success, a retry or exhaustion. Durations and
  instants are in microseconds.
\<close>

section \<open>The worker\<close>

record worker =
  wk_poll :: int
  wk_lease :: int
  wk_batch :: int32
  wk_timeout :: int

definition seconds :: "int \<Rightarrow> int" where
  "seconds n = n * 1000000"

text \<open>
  The client is its timeout, 0 for none; \<open>None\<close> is a nil client. What the timeout does to a request
  is the receiver's reply: no answer in time is a transport error.
\<close>

definition new_worker :: "int \<Rightarrow> int \<Rightarrow> int32 \<Rightarrow> int option \<Rightarrow> worker" where
  "new_worker poll lease batch client =
     \<lparr>wk_poll = (if poll \<le> 0 then seconds 1 else poll),
      wk_lease = (if lease \<le> 0 then seconds 30 else lease),
      wk_batch = (if batch \<le>s 0 then 10 else batch),
      wk_timeout = (case client of None \<Rightarrow> seconds 5 | Some t \<Rightarrow> t)\<rparr>"

definition retry_intervals :: "int list" where
  "retry_intervals =
     [seconds (1 * 60), seconds (5 * 60), seconds (30 * 60), seconds (2 * 3600), seconds (12 * 3600)]"

definition retry_delay :: "int32 \<Rightarrow> int" where
  "retry_delay attempts =
     (let i = sint attempts - 1;
          i = (if i < 0 then 0 else i);
          i = (if i \<ge> int (length retry_intervals) then int (length retry_intervals) - 1 else i)
      in retry_intervals ! nat i)"

text \<open>
  A batch takes time: each delivery reads the clock by itself, when it signs (reading 0) and when it
  fails (1), and the statement that marks it delivered reads the server's clock (2).
\<close>

definition time_now :: "env \<Rightarrow> nat \<Rightarrow> world \<Rightarrow> instant" where
  "time_now E k w = w_now w + env_elapsed E (w_calls w) k"

definition server_now :: "env \<Rightarrow> nat \<Rightarrow> world \<Rightarrow> instant" where
  "server_now E k w = w_dbnow w + env_elapsed E (w_calls w) k"

text \<open>The errors of the final statements are only logged.\<close>

definition handle_failure :: "env \<Rightarrow> webhook_delivery \<Rightarrow> string \<Rightarrow> world \<Rightarrow> world" where
  "handle_failure E d msg w =
     (if 6 \<le>s whd_attempts d then
        snd (query E Pool (mark_webhook_delivery_exhausted (whd_id d) msg) w)
      else
        snd (query E Pool (mark_webhook_delivery_retry (whd_id d)
               (time_now E 1 w + retry_delay (whd_attempts d)) msg) w))"

definition signed_request :: "env \<Rightarrow> instant \<Rightarrow> claimed_delivery \<Rightarrow> hook_request" where
  "signed_request E now cd =
     (let (d, u, sec) = cd;
          timestamp = fmt_int (now div 1000000);
          payload = env_render E (whd_payload d)
      in \<lparr>hk_url = u, hk_timestamp = timestamp,
          hk_signature = compute_signature (env_hmac E) sec timestamp payload,
          hk_payload = payload\<rparr>)"

definition deliver_one :: "env \<Rightarrow> claimed_delivery \<Rightarrow> world \<Rightarrow> world" where
  "deliver_one E cd w =
     (let d = fst cd; req = signed_request E (time_now E 0 w) cd;
          w1 = w\<lparr>w_hooks := w_hooks w @ [(whd_id d, req)]\<rparr>
      in case env_hook E (length (w_hooks w)) req of
        BadHookRequest e \<Rightarrow> handle_failure E d (''failed to create HTTP request: '' @ e) w
      | HookTransportError e \<Rightarrow> handle_failure E d (''transport error: '' @ e) w1
      | HookStatus s \<Rightarrow>
          if s < 200 \<or> s \<ge> 300 then handle_failure E d (''HTTP status '' @ fmt_nat s) w1
          else snd (query E Pool (mark_webhook_delivery_delivered (server_now E 2 w1) (whd_id d)) w1))"

definition process_batch :: "env \<Rightarrow> worker \<Rightarrow> world \<Rightarrow> nat \<times> world" where
  "process_batch E wk w =
     (case query E Pool (claim_due_webhook_deliveries (env_locked E (w_calls w)) (w_dbnow w)
             (wk_batch wk) (w_now w + wk_lease wk)) w of
        (Inl _, w1) \<Rightarrow> (0, w1)
      | (Inr ds, w1) \<Rightarrow> (length ds, fold (deliver_one E) ds w1))"

text \<open>
  The loop of \<open>Start\<close>: one batch per tick, until the context is cancelled. A tick comes with the
  readings of the server's and the process's clocks.
\<close>

fun start :: "env \<Rightarrow> worker \<Rightarrow> (instant \<times> instant) list \<Rightarrow> world \<Rightarrow> world" where
  "start E wk [] w = w"
| "start E wk ((dbnow, now) # ticks) w =
     start E wk ticks (snd (process_batch E wk (w\<lparr>w_dbnow := dbnow, w_now := now\<rparr>)))"

section \<open>Claims\<close>

lemma claim_result:
  assumes "claim_due_webhook_deliveries locked now limit lease d = Inr (ds, d')"
  shows "ds = concat (map (\<lambda>r. join_endpoint d (claim_delivery lease r)) (due_deliveries locked now limit d))"
    and "d' = d\<lparr>webhook_deliveries := update_where
           (\<lambda>r. whd_id r \<in> whd_id ` set (due_deliveries locked now limit d)
                \<and> occurs whe_id (whd_endpoint r) (webhook_endpoints d))
           (claim_delivery lease) (webhook_deliveries d)\<rparr>"
  using assms by (simp_all add: claim_due_webhook_deliveries_def Let_def split: if_splits)

lemma claimed_mem:
  assumes "db_ok d" "claim_due_webhook_deliveries locked now limit lease d = Inr (ds, d')"
    and "(x, u, sec) \<in> set ds"
  shows "\<exists>r \<in> set (due_deliveries locked now limit d). x = claim_delivery lease r
    \<and> x \<in> set (webhook_deliveries d')
    \<and> (\<exists>e \<in> set (webhook_endpoints d). whe_id e = whd_endpoint x \<and> whe_url e = u \<and> whe_secret e = sec)"
proof -
  obtain r where r: "r \<in> set (due_deliveries locked now limit d)"
    and j: "(x, u, sec) \<in> set (join_endpoint d (claim_delivery lease r))"
    using assms(3) claim_result(1) [OF assms(2)] by auto
  obtain e where e: "find (\<lambda>e. whe_id e = whd_endpoint r) (webhook_endpoints d) = Some e"
    using j by (cases "find (\<lambda>e. whe_id e = whd_endpoint r) (webhook_endpoints d)")
      (auto simp: join_endpoint_def claim_delivery_def)
  with j have x: "x = claim_delivery lease r" "u = whe_url e" "sec = whe_secret e"
    by (auto simp: join_endpoint_def claim_delivery_def)
  from find_Some_mem [OF e(1)] have ep: "e \<in> set (webhook_endpoints d)" "whe_id e = whd_endpoint r"
    by auto
  have "r \<in> set (webhook_deliveries d)" using due_deliveries_mem [OF r] by simp
  with r ep have "claim_delivery lease r \<in> set (webhook_deliveries d')"
    by (force simp: claim_result(2) [OF assms(2)] set_update_where occurs_iff)
  with r x ep show ?thesis by (auto simp: claim_delivery_def)
qed

lemma claimed_length:
  assumes "claim_due_webhook_deliveries locked now limit lease d = Inr (ds, d')"
  shows "length ds \<le> nat (sint limit)"
proof -
  have "length (concat (map (\<lambda>r. join_endpoint d (claim_delivery lease r)) rs)) \<le> length rs" for rs
    by (induction rs) (auto simp: join_endpoint_def split: option.split)
  then show ?thesis
    unfolding claim_result(1) [OF assms] by (rule order_trans) (simp add: due_deliveries_def)
qed

lemma claim_delivery_sel [simp]:
  "whd_id (claim_delivery lease r) = whd_id r" "whd_next (claim_delivery lease r) = lease"
  "whd_status (claim_delivery lease r) = DlvPROCESSING"
  "whd_attempts (claim_delivery lease r) = whd_attempts r + 1"
  "whd_endpoint (claim_delivery lease r) = whd_endpoint r"
  by (simp_all add: claim_delivery_def)

text \<open>
  C16. A claim is a lease: as long as the lease has not run out, no second claim, by whichever
  worker, gets a delivery that the first one got. Every claimed delivery was due, no worker gets
  more than its batch size, and each attempt is counted when it is claimed.
\<close>

theorem claim_exclusive:
  assumes "db_ok d" "claim_due_webhook_deliveries locked now limit lease d = Inr (ds, d1)"
    and "claim_due_webhook_deliveries locked2 now2 limit2 lease2 d1 = Inr (ds2, d2)" "now2 < lease"
  shows "(\<lambda>(x, u, sec). whd_id x) ` set ds \<inter> (\<lambda>(x, u, sec). whd_id x) ` set ds2 = {}
    \<and> length ds \<le> nat (sint limit)
    \<and> (\<forall>(x, u, sec) \<in> set ds. \<exists>r \<in> set (webhook_deliveries d). whd_id r = whd_id x
         \<and> delivery_due now r \<and> whd_attempts x = whd_attempts r + 1)"
proof (intro conjI)
  have ok1: "db_ok d1" using keeps_okD [OF keeps_ok_claim_due assms(1,2)] .
  show "(\<lambda>(x, u, sec). whd_id x) ` set ds \<inter> (\<lambda>(x, u, sec). whd_id x) ` set ds2 = {}"
  proof (rule equals0I)
    fix i assume "i \<in> (\<lambda>(x, u, sec). whd_id x) ` set ds \<inter> (\<lambda>(x, u, sec). whd_id x) ` set ds2"
    then obtain x u sec y u2 sec2 where x: "(x, u, sec) \<in> set ds" "whd_id x = i"
      and y: "(y, u2, sec2) \<in> set ds2" "whd_id y = i" by auto
    from claimed_mem [OF assms(1,2) x(1)] have x1: "x \<in> set (webhook_deliveries d1)"
        "whd_status x = DlvPROCESSING" "whd_next x = lease" by auto
    from claimed_mem [OF ok1 assms(3) y(1)] obtain r where
      "r \<in> set (due_deliveries locked2 now2 limit2 d1)" "y = claim_delivery lease2 r" by auto
    then have r: "r \<in> set (webhook_deliveries d1)" "delivery_due now2 r" "whd_id r = i"
      using due_deliveries_mem y(2) by auto
    have "distinct (map whd_id (webhook_deliveries d1))" using ok1 by (simp add: db_ok_defs)
    from distinct_map_eqD [OF this r(1) x1(1)] r(3) x(2) have "r = x" by simp
    with r(2) x1 assms(4) show False by (simp add: delivery_due_def)
  qed
  show "length ds \<le> nat (sint limit)" by (rule claimed_length [OF assms(2)])
  show "\<forall>(x, u, sec) \<in> set ds. \<exists>r \<in> set (webhook_deliveries d). whd_id r = whd_id x
         \<and> delivery_due now r \<and> whd_attempts x = whd_attempts r + 1"
  proof (clarify)
    fix x u sec assume "(x, u, sec) \<in> set ds"
    from claimed_mem [OF assms(1,2) this] obtain r where
      r: "r \<in> set (due_deliveries locked now limit d)" "x = claim_delivery lease r" by auto
    from due_deliveries_mem [OF r(1)] r(2)
    show "\<exists>r \<in> set (webhook_deliveries d). whd_id r = whd_id x \<and> delivery_due now r
        \<and> whd_attempts x = whd_attempts r + 1"
      by auto
  qed
qed

section \<open>Outcomes\<close>

lemma retry_delay_schedule:
  assumes "1 \<le> sint n" "sint n < 6"
  shows "retry_delay n = 60000000 * ([1, 5, 30, 120, 720] ! nat (sint n - 1))"
proof -
  have "sint n \<in> {1, 2, 3, 4, 5}" using assms by auto
  then show ?thesis
    by (auto simp: retry_delay_def retry_intervals_def seconds_def Let_def)
qed

lemma six_le: "6 \<le>s (n :: int32) \<longleftrightarrow> 6 \<le> sint n"
  by (simp add: word_sle_eq)

lemma mark_pool:
  assumes "env_outcome E (w_calls w) = Answered" "r \<in> set (webhook_deliveries (w_db w))" "P r"
  shows "w_db (snd (query E Pool (update_one P f webhook_deliveries
      (\<lambda>t d. d\<lparr>webhook_deliveries := t\<rparr>)) w))
    = (w_db w)\<lparr>webhook_deliveries := update_where P f (webhook_deliveries (w_db w))\<rparr>"
proof -
  obtain x where "find P (webhook_deliveries (w_db w)) = Some x"
    using assms(2,3) by (cases "find P (webhook_deliveries (w_db w))") (auto simp: find_None_iff)
  with assms(1) show ?thesis by (simp add: query_def run_pool_def update_one_def Let_def)
qed

text \<open>
  C28. The retry schedule: a failed attempt is retried after 1 minute, 5 minutes, 30 minutes, 2
  hours and 12 hours, for the first to the fifth attempt; the sixth failure, or any later one,
  exhausts the delivery. This is what a failure writes, if its statement is executed; the delay
  counts from the reading of the clock at the failure.
\<close>

theorem failure_schedule:
  assumes "env_outcome E (w_calls w) = Answered"
    and "r \<in> set (webhook_deliveries (w_db w))" "whd_id r = whd_id x"
    and "1 \<le> sint (whd_attempts x)"
  shows "\<exists>r' \<in> set (webhook_deliveries (w_db (handle_failure E x msg w))).
    whd_id r' = whd_id r \<and> whd_error r' = Some msg \<and> whd_attempts r' = whd_attempts r
    \<and> (if sint (whd_attempts x) \<ge> 6 then whd_status r' = DlvEXHAUSTED \<and> whd_next r' = whd_next r
       else whd_status r' = DlvPENDING
         \<and> whd_next r' = time_now E 1 w + 60000000 * ([1, 5, 30, 120, 720] ! nat (sint (whd_attempts x) - 1)))"
proof (cases "6 \<le> sint (whd_attempts x)")
  case True
  then have "w_db (handle_failure E x msg w) = (w_db w)\<lparr>webhook_deliveries :=
      update_where (\<lambda>r. whd_id r = whd_id x)
       (\<lambda>r. r\<lparr>whd_status := DlvEXHAUSTED, whd_error := Some msg\<rparr>) (webhook_deliveries (w_db w))\<rparr>"
    using assms(1-3)
    by (simp add: handle_failure_def six_le mark_webhook_delivery_exhausted_def mark_pool)
  with True assms(2,3) show ?thesis
    by (intro bexI [of _ "r\<lparr>whd_status := DlvEXHAUSTED, whd_error := Some msg\<rparr>"])
      (auto simp: set_update_where)
next
  case False
  then have "w_db (handle_failure E x msg w) = (w_db w)\<lparr>webhook_deliveries :=
      update_where (\<lambda>r. whd_id r = whd_id x)
       (\<lambda>r. r\<lparr>whd_status := DlvPENDING, whd_next := time_now E 1 w + retry_delay (whd_attempts x),
             whd_error := Some msg\<rparr>) (webhook_deliveries (w_db w))\<rparr>"
    using assms(1-3)
    by (simp add: handle_failure_def six_le mark_webhook_delivery_retry_def mark_pool)
  with False assms(2-4) show ?thesis
    by (intro bexI [of _ "r\<lparr>whd_status := DlvPENDING,
          whd_next := time_now E 1 w + retry_delay (whd_attempts x), whd_error := Some msg\<rparr>"])
      (auto simp: set_update_where retry_delay_schedule)
qed

section \<open>What one delivery touches\<close>

text \<open>Marking a delivery, in whatever way, leaves every other row as it is.\<close>

definition others_kept :: "int64 set \<Rightarrow> database \<Rightarrow> database \<Rightarrow> bool" where
  "others_kept is d d' \<longleftrightarrow>
     (\<forall>r. whd_id r \<notin> is \<longrightarrow> (r \<in> set (webhook_deliveries d') \<longleftrightarrow> r \<in> set (webhook_deliveries d)))"

lemma others_kept_trans:
  "others_kept is d d' \<Longrightarrow> others_kept js d' d'' \<Longrightarrow> others_kept (is \<union> js) d d''"
  by (auto simp: others_kept_def)

lemma mark_others:
  assumes "\<And>r. whd_id (f r) = whd_id r"
  shows "others_kept {i} (w_db w) (w_db (snd (query E Pool (update_one (\<lambda>r. whd_id r = i) f
    webhook_deliveries (\<lambda>t d. d\<lparr>webhook_deliveries := t\<rparr>)) w)))"
proof -
  let ?st = "update_one (\<lambda>r. whd_id r = i) f webhook_deliveries (\<lambda>t d. d\<lparr>webhook_deliveries := t\<rparr>)"
  obtain q w' where run: "run_pool E ?st w = (q, w')" by fastforce
  then have "others_kept {i} (w_db w) (w_db w')"
    by (cases rule: run_poolE)
      (auto simp: others_kept_def set_update_where assms elim!: update_one_InrE)
  with run show ?thesis by (simp add: query_def)
qed

lemma handle_failure_others: "others_kept {whd_id x} (w_db w) (w_db (handle_failure E x msg w))"
  by (simp add: handle_failure_def mark_webhook_delivery_exhausted_def
      mark_webhook_delivery_retry_def mark_others)

lemma deliver_one_others: "others_kept {whd_id (fst cd)} (w_db w) (w_db (deliver_one E cd w))"
proof -
  let ?w1 = "w\<lparr>w_hooks := w_hooks w @ [(whd_id (fst cd), signed_request E (time_now E 0 w) cd)]\<rparr>"
  have "others_kept {whd_id (fst cd)} (w_db w) (w_db (handle_failure E (fst cd) msg ?w1))"
    "others_kept {whd_id (fst cd)} (w_db w) (w_db (handle_failure E (fst cd) msg w))" for msg
    using handle_failure_others [of "fst cd" ?w1] handle_failure_others [of "fst cd" w] by simp_all
  moreover have "others_kept {whd_id (fst cd)} (w_db w)
      (w_db (snd (query E Pool (mark_webhook_delivery_delivered t (whd_id (fst cd))) ?w1)))"
    for t using mark_others [of _ "whd_id (fst cd)" ?w1] by (simp add: mark_webhook_delivery_delivered_def)
  ultimately show ?thesis
    by (cases "env_hook E (length (w_hooks w)) (signed_request E (time_now E 0 w) cd)")
      (simp_all add: deliver_one_def Let_def)
qed

lemma deliver_all_others:
  "others_kept ((\<lambda>cd. whd_id (fst cd)) ` set ds) (w_db w) (w_db (fold (deliver_one E) ds w))"
proof (induction ds arbitrary: w)
  case (Cons cd ds)
  show ?case
    using others_kept_trans [OF deliver_one_others [of cd w E] Cons [of "deliver_one E cd w"]]
    by simp
qed (simp add: others_kept_def)

end
