(* ===== verification/Service_Examples.thy ===== *)
theory Service_Examples
  imports Scenario Invoice_Effect Auth Customer Worker
begin

text \<open>
  The theorems about invoices, authentication, customers, webhook endpoints and the worker at
  concrete inputs.
\<close>

section \<open>Invoices\<close>

definition demo_request :: create_invoice_request where
  "demo_request =
     \<lparr>cir_customer = ''cus_CuxQG8tirxq'', cir_currency = ''usd'', cir_due = ''2030-01-31'',
      cir_items = [\<lparr>inp_description = ''a'', inp_quantity = 2, inp_unit = 150\<rparr>],
      cir_state = None\<rparr>"

definition demo_created :: world where
  "demo_created = snd (create_invoice_handler demo_env 1 (Some demo_request) demo_world)"

lemma demo_world_plain: "w_tx demo_world = None" "w_db demo_world = demo_db"
  by (simp_all add: demo_world_def)

lemma demo_created_rows:
  "length (invoices (w_db demo_created)) = 2"
  by code_simp

theorem create_invoice_atomic_witness:
  "\<exists>req iv rows new. invoice_created 1 req iv rows new demo_db (w_db demo_created)"
proof -
  have "w_db demo_created \<noteq> demo_db"
    using demo_created_rows by (auto simp: demo_db_def)
  with create_invoice_atomic [OF prod.collapse [symmetric], of demo_world demo_env 1 "Some demo_request"]
  show ?thesis by (auto simp: demo_world_plain demo_created_def)
qed

definition reply_ok :: "'a reply \<Rightarrow> bool" where
  "reply_ok r = (case r of Reply _ _ \<Rightarrow> True | ErrorReply _ _ \<Rightarrow> False)"

lemma reply_okE: "reply_ok r \<Longrightarrow> (\<And>s x. r = Reply s x \<Longrightarrow> P) \<Longrightarrow> P"
  by (cases r) (auto simp: reply_ok_def)

theorem get_invoice_confined_witness:
  "\<exists>resp iv. fst (get_invoice_handler demo_env 1 demo_id demo_world) = Reply 200 resp
     \<and> lookup_invoice 1 3 demo_db = Some iv
     \<and> to_invoice_response demo_env iv (items_of 3 demo_db) = Inr resp"
proof -
  have "reply_ok (fst (get_invoice_handler demo_env 1 demo_id demo_world))" by code_simp
  then obtain s resp where r: "fst (get_invoice_handler demo_env 1 demo_id demo_world) = Reply s resp"
    by (rule reply_okE)
  show ?thesis
    using get_invoice_confined [OF prod.collapse [symmetric], of demo_env 1 demo_id demo_world] r
      demo_id_decodes
    by (auto simp: demo_world_plain)
qed

theorem list_invoices_complete_witness:
  "\<exists>r. fst (list_invoices_handler demo_env 1 demo_world) = Reply 200 [r]
     \<and> to_invoice_response demo_env demo_invoice (items_of 3 demo_db) = Inr r"
proof -
  have "reply_ok (fst (list_invoices_handler demo_env 1 demo_world))" by code_simp
  then obtain s rs where r: "fst (list_invoices_handler demo_env 1 demo_world) = Reply s rs"
    by (rule reply_okE)
  then have run: "list_invoices_handler demo_env 1 demo_world
      = (Reply s rs, snd (list_invoices_handler demo_env 1 demo_world))" by (simp add: prod_eq_iff)
  have one: "invoices demo_db = [demo_invoice]" "inv_business demo_invoice = 1" "inv_id demo_invoice = 3"
    by (simp_all add: demo_db_def demo_invoice_def)
  show ?thesis
    using list_invoices_complete [OF run] r
    by (auto simp: demo_world_plain one list_all2_Cons1)
qed

theorem void_invoice_transition_witness:
  "invoices (w_db (snd (void_invoice demo_env 1 demo_id demo_world)))
     = [demo_invoice\<lparr>inv_state := VOID, inv_updated := 10\<rparr>]
   \<and> w_tx (snd (void_invoice demo_env 1 demo_id demo_world)) = None"
proof -
  have "map inv_state (invoices (w_db (snd (void_invoice demo_env 1 demo_id demo_world)))) = [VOID]"
    by code_simp
  then have "w_db (snd (void_invoice demo_env 1 demo_id demo_world)) \<noteq> demo_db"
    by (auto simp: demo_db_def demo_invoice_def)
  then show ?thesis
    using void_invoice_transition [OF prod.collapse [symmetric], of demo_world demo_env 1 demo_id]
      demo_id_decodes
    by (auto simp: demo_world_plain demo_db_def demo_invoice_def void_row_def demo_world_def
        lookup_invoice_def)
qed

section \<open>Authentication\<close>

definition demo_key :: api_key where
  "demo_key = \<lparr>key_id = 7, key_business = 1, key_prefix = ''dp'', key_hash = hex_encode ''s'',
               key_created = 0, key_revoked = None\<rparr>"

definition keyed_world :: world where
  "keyed_world = demo_world\<lparr>w_db := demo_db\<lparr>api_keys := [demo_key]\<rparr>\<rparr>"

lemma keyed_login: "fst (auth_middleware demo_env ''Bearer dp_s'' keyed_world) = Inr (1, 7)"
proof -
  have "split_n2 CHR '' '' ''Bearer dp_s'' = [''Bearer'', ''dp_s'']"
    "equal_fold_ascii ''Bearer'' ''Bearer''" "parse_api_key (trim_space ''dp_s'') = Inr (''dp'', ''s'')"
    by code_simp+
  moreover have "fst (query demo_env Pool (get_api_key_by_prefix ''dp'') keyed_world) = Inr demo_key"
    by code_simp
  then obtain w1 where "query demo_env Pool (get_api_key_by_prefix ''dp'') keyed_world = (Inr demo_key, w1)"
    by (metis fst_conv prod.collapse)
  ultimately show ?thesis
    by (simp add: auth_middleware_def demo_key_def hash_secret_def demo_env_def
        del: split_n2.simps hex_encode.simps)
qed

theorem auth_sound_witness:
  "\<exists>key \<in> set (api_keys (w_db keyed_world)). key_revoked key = None \<and> key_business key = 1"
proof -
  have "auth_middleware demo_env ''Bearer dp_s'' keyed_world
      = (Inr (1, 7), snd (auth_middleware demo_env ''Bearer dp_s'' keyed_world))"
    using keyed_login by (simp add: prod_eq_iff)
  from auth_sound [OF this] show ?thesis by auto
qed

theorem auth_complete_witness:
  "fst (auth_middleware demo_env (''Bearer '' @ key_prefix demo_key @ ''_'' @ ''s'') keyed_world) = Inr (1, 7)"
proof -
  have ok: "db_ok (w_db keyed_world)" by code_simp
  have trim: "trim_space (key_prefix demo_key @ ''_'' @ ''s'') = key_prefix demo_key @ ''_'' @ ''s''"
    by code_simp
  have "\<forall>n. env_outcome demo_env n = Answered" by (simp add: demo_env_def)
  from auth_complete [OF this ok, of demo_key "''s''"] trim show ?thesis
    by (simp add: keyed_world_def demo_key_def demo_env_def hash_secret_def)
qed

definition boot_config :: demo_config where
  "boot_config = \<lparr>cfg_business = [], cfg_prefix = [], cfg_secret = []\<rparr>"

definition booted :: "string \<Rightarrow> world \<Rightarrow> (bootstrap_error + bootstrap_result) \<times> world" where
  "booted random w = bootstrap_demo_data demo_env boot_config (Some random) w"

definition boot_ok :: "bootstrap_error + bootstrap_result \<Rightarrow> bool" where
  "boot_ok r = (case r of Inl _ \<Rightarrow> False | Inr _ \<Rightarrow> True)"

theorem bootstrap_idempotent_witness:
  "w_db (snd (booted ''y'' (snd (booted ''x'' demo_world)))) = w_db (snd (booted ''x'' demo_world))
   \<and> length (api_keys (w_db (snd (booted ''x'' demo_world)))) = 1"
proof -
  let ?w = "snd (booted ''x'' demo_world)"
  have "boot_ok (fst (booted ''x'' demo_world))" "boot_ok (fst (booted ''y'' ?w))"
    "length (api_keys (w_db ?w)) = 1"
    by code_simp+
  moreover from this obtain r r2 where "booted ''x'' demo_world = (Inr r, ?w)"
      "booted ''y'' ?w = (Inr r2, snd (booted ''y'' ?w))"
    by (auto simp: boot_ok_def prod_eq_iff split: sum.splits)
  ultimately show ?thesis
    using bootstrap_idempotent [of demo_env boot_config "Some ''x''" demo_world r ?w "Some ''y''" ?w r2]
    by (simp add: booted_def)
qed

section \<open>Customers and endpoints\<close>

definition new_customer :: create_customer_request where
  "new_customer = \<lparr>ccr_name = '' n '', ccr_email = ''a@b''\<rparr>"

definition joined :: "customer_response reply \<times> world" where
  "joined = create_customer_handler demo_env 1 (Some new_customer) demo_world"

definition joined_response :: customer_response where
  "joined_response = \<lparr>crp_id = ''cus_DCOCTmurkO4'', crp_name = ''n'', crp_email = ''a@b'',
     crp_created = ''10'', crp_updated = ''10''\<rparr>"

theorem created_customer_readable_witness:
  "fst (get_customer_handler demo_env 1 ''cus_DCOCTmurkO4'' (snd joined)) = Reply 200 joined_response
   \<and> fst (get_customer_handler demo_env 5 ''cus_DCOCTmurkO4'' (snd joined))
       \<noteq> Reply 200 joined_response"
proof -
  have run: "create_customer_handler demo_env 1 (Some new_customer) demo_world
      = (Reply 201 joined_response, snd joined)"
  proof -
    have "fst joined = Reply 201 joined_response" by code_simp
    then show ?thesis by (simp add: prod_eq_iff joined_def)
  qed
  have id: "crp_id joined_response = ''cus_DCOCTmurkO4''" by (simp add: joined_response_def)
  have ok: "reply_ok (fst (get_customer_handler demo_env 1 ''cus_DCOCTmurkO4'' (snd joined)))"
    by code_simp
  from created_customer_readable [OF run refl prod.collapse [symmetric], of 1] id ok
  have "fst (get_customer_handler demo_env 1 ''cus_DCOCTmurkO4'' (snd joined)) = Reply 200 joined_response"
    by (auto simp: fail_with_def reply_ok_def)
  moreover from created_customer_readable [OF run refl prod.collapse [symmetric], of 5] id
  have "fst (get_customer_handler demo_env 5 ''cus_DCOCTmurkO4'' (snd joined)) \<noteq> Reply 200 joined_response"
    by (auto simp: fail_with_def)
  ultimately show ?thesis ..
qed

theorem get_endpoint_confined_witness:
  "\<exists>resp ep. fst (get_endpoint demo_env 1 ''whe_3rEYwC0cDBM'' demo_world) = Reply 200 resp
     \<and> ep \<in> set (webhook_endpoints demo_db) \<and> whe_business ep = 1
     \<and> to_endpoint_response demo_env ep = Inr resp"
proof -
  have "reply_ok (fst (get_endpoint demo_env 1 ''whe_3rEYwC0cDBM'' demo_world))" by code_simp
  then obtain s resp where r: "fst (get_endpoint demo_env 1 ''whe_3rEYwC0cDBM'' demo_world) = Reply s resp"
    by (rule reply_okE)
  then have run: "get_endpoint demo_env 1 ''whe_3rEYwC0cDBM'' demo_world
      = (Reply s resp, snd (get_endpoint demo_env 1 ''whe_3rEYwC0cDBM'' demo_world))"
    by (simp add: prod_eq_iff)
  from get_endpoint_confined [OF run] r show ?thesis by (auto simp: demo_world_plain)
qed

section \<open>The worker\<close>

definition due_row :: webhook_delivery where
  "due_row = \<lparr>whd_id = 9, whd_endpoint = 4, whd_invoice = 3, whd_event = INVOICE_PAID,
     whd_payload = JObject [], whd_status = DlvPENDING, whd_attempts = 0, whd_next = 5,
     whd_error = None, whd_created = 1, whd_delivered = None\<rparr>"

definition due_db :: database where
  "due_db = demo_db\<lparr>webhook_deliveries := [due_row]\<rparr>"

definition claimed_once :: "database" where
  "claimed_once = due_db\<lparr>webhook_deliveries :=
     [due_row\<lparr>whd_status := DlvPROCESSING, whd_attempts := 1, whd_next := 40\<rparr>]\<rparr>"

definition claim_at :: "instant \<Rightarrow> instant \<Rightarrow> (claimed_delivery list) stmt" where
  "claim_at now lease = claim_due_webhook_deliveries (\<lambda>i. False) now 10 lease"

lemma due_db_ok: "db_ok due_db"
  by code_simp

lemma first_claim: "claim_at 10 40 due_db
    = Inr ([(due_row\<lparr>whd_status := DlvPROCESSING, whd_attempts := 1, whd_next := 40\<rparr>, ''u'', ''k'')],
           claimed_once)"
  by (simp add: claim_at_def claim_due_webhook_deliveries_def due_deliveries_def delivery_due_def
      due_db_def claimed_once_def due_row_def demo_db_def claim_delivery_def join_endpoint_def
      update_where_def occurs_def Let_def)

lemma second_claim: "claim_at 30 60 claimed_once = Inr ([], claimed_once)"
  by (simp add: claim_at_def claim_due_webhook_deliveries_def due_deliveries_def delivery_due_def
      due_db_def claimed_once_def due_row_def demo_db_def claim_delivery_def join_endpoint_def
      update_where_def occurs_def Let_def)

theorem claim_exclusive_witness:
  "\<exists>r \<in> set (webhook_deliveries due_db). whd_id r = 9 \<and> delivery_due 10 r"
  using claim_exclusive [OF due_db_ok first_claim [unfolded claim_at_def]
      second_claim [unfolded claim_at_def]]
  by (auto simp: due_row_def)

definition failed_row :: webhook_delivery where
  "failed_row = due_row\<lparr>whd_status := DlvPROCESSING, whd_attempts := 2, whd_next := 40\<rparr>"

definition failed_world :: world where
  "failed_world = demo_world\<lparr>w_db := due_db\<lparr>webhook_deliveries := [failed_row]\<rparr>\<rparr>"

theorem failure_schedule_witness:
  "\<exists>r' \<in> set (webhook_deliveries (w_db (handle_failure demo_env failed_row ''m'' failed_world))).
     whd_id r' = 9 \<and> whd_status r' = DlvPENDING \<and> whd_next r' = 300000010"
proof -
  have "env_outcome demo_env (w_calls failed_world) = Answered"
    "failed_row \<in> set (webhook_deliveries (w_db failed_world))" "1 \<le> sint (whd_attempts failed_row)"
    by (simp_all add: demo_env_def failed_world_def failed_row_def)
  from failure_schedule [OF this(1,2) refl this(3), of "''m''"] show ?thesis
    by (auto simp: failed_row_def failed_world_def due_row_def demo_world_def time_now_def demo_env_def)
qed

end
