(* ===== verification/Middleware.thy ===== *)
theory Middleware
  imports Session
begin

text \<open>
  Package \<open>internal/middleware\<close>: request ids and the answer to a panic. The request context
  is a map from keys to strings.
\<close>

section \<open>Request ids\<close>

definition request_id_key :: string where "request_id_key = ''request_id''"

text \<open>\<open>random\<close> are the 16 bytes of \<open>rand.Read\<close>, \<open>None\<close> if it fails.\<close>

definition generate_request_id :: "string option \<Rightarrow> string" where
  "generate_request_id random =
     (case random of None \<Rightarrow> ''req_fallback'' | Some b \<Rightarrow> ''req_'' @ hex_encode b)"

text \<open>
  The middleware: the id of the request header (the empty string if it is absent) or a new one
  goes into the context and into the answer's \<open>X-Request-ID\<close> header.
\<close>

definition request_id ::
  "string \<Rightarrow> string option \<Rightarrow> (string \<rightharpoonup> string) \<Rightarrow> (string \<rightharpoonup> string) \<times> string" where
  "request_id header random ctx =
     (let i = (if header = [] then generate_request_id random else header)
      in (ctx(request_id_key \<mapsto> i), i))"

definition get_request_id :: "(string \<rightharpoonup> string) \<Rightarrow> string" where
  "get_request_id ctx = (case ctx request_id_key of None \<Rightarrow> [] | Some i \<Rightarrow> i)"

text \<open>
  The logger and the client see the same request id: what \<open>GetRequestID\<close> reads behind the
  middleware is what the answer carries. It is the client's own id if there was one, and otherwise
  36 characters that determine the random bytes, or the fallback.
\<close>

theorem request_id_consistent:
  "(case request_id header random ctx of (ctx', i) \<Rightarrow>
      get_request_id ctx' = i \<and> i \<noteq> []
      \<and> i = (if header \<noteq> [] then header
             else case random of None \<Rightarrow> ''req_fallback'' | Some b \<Rightarrow> ''req_'' @ hex_encode b))
   \<and> (length b = 16 \<longrightarrow> length (generate_request_id (Some b)) = 36)
   \<and> (generate_request_id (Some b) = generate_request_id (Some b') \<longleftrightarrow> b = b')"
  by (auto simp: request_id_def get_request_id_def generate_request_id_def Let_def
      length_hex_encode hex_encode_inj split: option.split)

theorem request_id_consistent_witness:
  "length (generate_request_id (Some (replicate 16 CHR ''a''))) = 36"
  using request_id_consistent [of "[]" None Map.empty "replicate 16 CHR ''a''" "[]"]
  by simp

section \<open>Recovery\<close>

text \<open>What the client gets from a handler that may panic (\<open>None\<close>) before it has answered.\<close>

definition recovery :: "'a reply option \<Rightarrow> 'a reply" where
  "recovery outcome =
     (case outcome of
        None \<Rightarrow> fail_with 500 ''internal_error'' ''An unexpected error occurred''
      | Some rep \<Rightarrow> rep)"

end
