(* ===== verification/Concurrent.thy ===== *)
theory Concurrent
  imports Payment_Live Invoice_Effect
begin

text \<open>
  Payments and voids as concurrent jobs. The server runs many requests at once; what is atomic
  is a committed transaction, a single statement on the pool, and a call to the provider. A job is
  the rest of one request's work at such a point; any job may take its next step at any time,
  stop for ever (a crash), or be overtaken by the rest of the service.

  That a transaction is one step rests on the locks the statements take: \<open>claim\<close> locks the
  invoice row (\<open>FOR UPDATE\<close>), and \<open>finalize\<close> updates the attempt and the invoice, so two of
  them on one invoice run one after the other or one of them fails as a whole.
\<close>

section \<open>Jobs\<close>

datatype job =
    PayClaim int64 int64 string string
  | PayCharge int64 string idempotency_key payment_attempt invoice
  | PayFinalize int64 idempotency_key payment_attempt invoice "psp_error + charge_result"
  | PayDone "json option reply"
  | VoidRead int64 int64
  | VoidWrite int64 int64
  | VoidItems int64 invoice
  | VoidDone "invoice_response reply"
  | Crashed

fun advance :: "env \<Rightarrow> job \<Rightarrow> world \<Rightarrow> job \<times> world" where
  "advance E (PayClaim b ivc key token) w =
     (case claim E b ivc key (fingerprint (env_sha256 E) ivc token) w of
        (Inl e, w1) \<Rightarrow> (PayDone (claim_failure e), w1)
      | (Inr (Replay idem), w1) \<Rightarrow> (PayDone (replay_reply idem), w1)
      | (Inr (Claimed idem att iv), w1) \<Rightarrow> (PayCharge b token idem att iv, w1))"
| "advance E (PayCharge b token idem att iv) w =
     (case charge_card E (card_request token att iv) w of
        (result, w1) \<Rightarrow> (PayFinalize b idem att iv result, w1))"
| "advance E (PayFinalize b idem att iv result) w =
     (case finalize E idem att iv result b w of
        (Inl e, w1) \<Rightarrow>
          (PayDone (fail_with 500 ''internal_error'' ''Failed to finalize payment''), w1)
      | (Inr (status, body), w1) \<Rightarrow> (PayDone (Reply status (Some body)), w1))"
| "advance E (VoidRead b i) w =
     (case query E Pool (get_invoice_by_id i b) w of
        (Inl e, w1) \<Rightarrow>
          (VoidDone (if e = NoRows then fail_with 404 ''not_found'' ''Invoice not found''
                     else fail_with 500 ''internal_error'' ''Failed to retrieve invoice''), w1)
      | (Inr iv, w1) \<Rightarrow>
          (case inv_state iv of
             PAID \<Rightarrow>
               (VoidDone (fail_with 400 ''invalid_state_transition'' ''Cannot void a paid invoice''), w1)
           | UNCOLLECTIBLE \<Rightarrow>
               (VoidDone (fail_with 400 ''invalid_state_transition''
                            ''Cannot void an uncollectible invoice''), w1)
           | VOID \<Rightarrow> (VoidItems i iv, w1)
           | _ \<Rightarrow> (VoidWrite b i, w1)))"
| "advance E (VoidWrite b i) w =
     (case query E Pool (update_invoice_state (w_dbnow w) i b VOID) w of
        (Inl e, w1) \<Rightarrow>
          (VoidDone (fail_with 500 ''internal_error'' ''Failed to void invoice''), w1)
      | (Inr iv, w1) \<Rightarrow> (VoidItems i iv, w1))"
| "advance E (VoidItems i iv) w =
     (case reply_with_items E i iv w of (rep, w1) \<Rightarrow> (VoidDone rep, w1))"
| "advance E j w = (j, w)"

fun advance_n :: "env \<Rightarrow> nat \<Rightarrow> job \<Rightarrow> world \<Rightarrow> job \<times> world" where
  "advance_n E 0 j w = (j, w)"
| "advance_n E (Suc n) j w = (case advance E j w of (j1, w1) \<Rightarrow> advance_n E n j1 w1)"

text \<open>
  A payment or void job that runs three steps without interruption gives the answer and the state
  of the handler it was cut from.
\<close>

lemma jobs_are_handlers:
  "(pay_request E header id_param body key ivc token \<longrightarrow>
      advance_n E 3 (PayClaim b ivc key token) w
        = map_prod PayDone id (pay_invoice E b header id_param body w))
   \<and> (b \<noteq> 0 \<longrightarrow> dec_id E prefix_invoice raw = Inr i \<longrightarrow>
      advance_n E 3 (VoidRead b i) w = map_prod VoidDone id (void_invoice E b raw w))"
proof (intro conjI impI)
  assume "pay_request E header id_param body key ivc token"
  from pay_invoice_valid [OF this] show
    "advance_n E 3 (PayClaim b ivc key token) w
        = map_prod PayDone id (pay_invoice E b header id_param body w)"
    by (auto simp: numeral_3_eq_3 pay_claimed_def card_request_def
        split: prod.split sum.split claimed.split)
next
  assume "b \<noteq> 0" "dec_id E prefix_invoice raw = Inr i"
  then show "advance_n E 3 (VoidRead b i) w = map_prod VoidDone id (void_invoice E b raw w)"
    by (auto simp: numeral_3_eq_3 void_invoice_def split: prod.split sum.split invoice_state.split)
qed

section \<open>Interleavings\<close>

type_synonym system = "job list \<times> world"

text \<open>
  The rest of the service, between two steps of the jobs: it may draw ids, let time pass and
  change the database, as long as it leaves payment attempts alone, keeps the constraints, and
  neither deletes nor reopens an invoice.
\<close>

definition untouched :: "database \<Rightarrow> database \<Rightarrow> bool" where
  "untouched d d' \<longleftrightarrow>
     payment_attempts d' = payment_attempts d \<and> (db_ok d \<longrightarrow> db_ok d')
     \<and> inv_id ` set (invoices d) \<subseteq> inv_id ` set (invoices d')
     \<and> (\<forall>iv \<in> set (invoices d'). inv_state iv = OPEN \<longrightarrow> inv_id iv \<in> inv_id ` set (invoices d) \<longrightarrow>
          (\<exists>iv0 \<in> set (invoices d). inv_id iv0 = inv_id iv \<and> inv_state iv0 = OPEN))"

definition elsewhere :: "world \<Rightarrow> world \<Rightarrow> bool" where
  "elsewhere w w' \<longleftrightarrow> w_tx w' = w_tx w \<and> w_psp w' = w_psp w \<and> untouched (w_db w) (w_db w')"

fun starting :: "job \<Rightarrow> bool" where
  "starting (PayClaim b ivc key token) = True"
| "starting (VoidRead b i) = True"
| "starting j = False"

inductive moves :: "env \<Rightarrow> system \<Rightarrow> system \<Rightarrow> bool" for E :: env where
  run: "i < length js \<Longrightarrow> advance E (js ! i) w = (j, w') \<Longrightarrow> moves E (js, w) (js[i := j], w')"
| crash: "i < length js \<Longrightarrow> moves E (js, w) (js[i := Crashed], w)"
| arrive: "starting j \<Longrightarrow> moves E (js, w) (js @ [j], w)"
| rest: "elsewhere w w' \<Longrightarrow> moves E (js, w) (js, w')"

inductive_cases movesE: "moves E s s'"

inductive reachable :: "env \<Rightarrow> system \<Rightarrow> system \<Rightarrow> bool" for E :: env and s0 :: system where
  start: "reachable E s0 s0"
| step: "reachable E s0 s \<Longrightarrow> moves E s s' \<Longrightarrow> reachable E s0 s'"

section \<open>The invariant\<close>

text \<open>An attempt is live unless it is known to have failed.\<close>

definition live :: "payment_attempt \<Rightarrow> bool" where
  "live a \<longleftrightarrow> att_status a \<noteq> FAILED"

text \<open>
  Attempts and invoices belong together: an invoice has at most one live attempt, and if that has
  succeeded, the invoice is not OPEN any more.
\<close>

definition attempts_ok :: "database \<Rightarrow> bool" where
  "attempts_ok d \<longleftrightarrow>
     (\<forall>a \<in> set (payment_attempts d). \<forall>a' \<in> set (payment_attempts d).
        live a \<longrightarrow> live a' \<longrightarrow> att_invoice a = att_invoice a' \<longrightarrow> a = a')
     \<and> (\<forall>a \<in> set (payment_attempts d). \<forall>iv \<in> set (invoices d).
        att_status a = SUCCEEDED \<longrightarrow> inv_id iv = att_invoice a \<longrightarrow> inv_state iv \<noteq> OPEN)"

text \<open>The verdict of the provider on the k-th request sent to it.\<close>

definition psp_verdict :: "env \<Rightarrow> world \<Rightarrow> nat \<Rightarrow> psp_error + charge_result" where
  "psp_verdict E w k = charge (env_psp_client E) (env_psp E k) (w_psp w ! k)"

definition declined :: "psp_error + charge_result \<Rightarrow> bool" where
  "declined result = (case result of Inl _ \<Rightarrow> False | Inr res \<Rightarrow> cr_status res = ''failed'')"

text \<open>The attempt a job holds.\<close>

fun job_attempt :: "job \<Rightarrow> payment_attempt option" where
  "job_attempt (PayCharge b token idem att iv) = Some att"
| "job_attempt (PayFinalize b idem att iv result) = Some att"
| "job_attempt j = None"

definition apart :: "job list \<Rightarrow> bool" where
  "apart js \<longleftrightarrow>
     (\<forall>i < length js. \<forall>k < length js. \<forall>a a'. i \<noteq> k \<longrightarrow> job_attempt (js ! i) = Some a \<longrightarrow>
        job_attempt (js ! k) = Some a' \<longrightarrow> att_id a \<noteq> att_id a')"

fun job_ok :: "env \<Rightarrow> world \<Rightarrow> job \<Rightarrow> bool" where
  "job_ok E w (PayCharge b token idem att iv) \<longleftrightarrow>
     att \<in> set (payment_attempts (w_db w)) \<and> att_status att = PROCESSING
     \<and> inv_id iv = att_invoice att
     \<and> att_psp_request att \<notin> crq_psp_request ` set (w_psp w)"
| "job_ok E w (PayFinalize b idem att iv result) \<longleftrightarrow>
     att \<in> set (payment_attempts (w_db w)) \<and> att_status att = PROCESSING
     \<and> inv_id iv = att_invoice att
     \<and> (\<exists>k < length (w_psp w). crq_psp_request (w_psp w ! k) = att_psp_request att
          \<and> psp_verdict E w k = result)"
| "job_ok E w j \<longleftrightarrow> True"

definition sent_ok :: "env \<Rightarrow> world \<Rightarrow> bool" where
  "sent_ok E w \<longleftrightarrow>
     distinct (map crq_psp_request (w_psp w))
     \<and> (\<forall>k < length (w_psp w). \<exists>a \<in> set (payment_attempts (w_db w)).
          att_psp_request a = crq_psp_request (w_psp w ! k)
          \<and> (\<not> declined (psp_verdict E w k) \<longrightarrow> live a))"

definition system_ok :: "env \<Rightarrow> system \<Rightarrow> bool" where
  "system_ok E s \<longleftrightarrow>
     w_tx (snd s) = None \<and> db_ok (w_db (snd s)) \<and> attempts_ok (w_db (snd s))
     \<and> sent_ok E (snd s) \<and> apart (fst s) \<and> (\<forall>j \<in> set (fst s). job_ok E (snd s) j)"

lemma sent_attempt:
  "sent_ok E w \<Longrightarrow> k < length (w_psp w) \<Longrightarrow>
   \<exists>a \<in> set (payment_attempts (w_db w)). att_psp_request a = crq_psp_request (w_psp w ! k)
     \<and> (\<not> declined (psp_verdict E w k) \<longrightarrow> live a)"
  by (simp add: sent_ok_def)

lemma apartD:
  "apart js \<Longrightarrow> i < length js \<Longrightarrow> k < length js \<Longrightarrow> i \<noteq> k \<Longrightarrow> job_attempt (js ! i) = Some a \<Longrightarrow>
   job_attempt (js ! k) = Some a' \<Longrightarrow> att_id a \<noteq> att_id a'"
  by (auto simp: apart_def)

lemma job_attempt_mem:
  "job_ok E w j \<Longrightarrow> job_attempt j = Some a \<Longrightarrow>
   a \<in> set (payment_attempts (w_db w)) \<and> att_status a = PROCESSING"
  by (cases j) auto

lemma system_ok_jobs: "system_ok E (js, w) \<Longrightarrow> k < length js \<Longrightarrow> job_ok E w (js ! k)"
  by (simp add: system_ok_def)

lemma system_ok_apart: "system_ok E (js, w) \<Longrightarrow> apart js"
  by (simp add: system_ok_def)

lemma system_ok_update:
  assumes ok: "system_ok E (js, w)" and i: "i < length js"
    and w': "w_tx w' = None" "db_ok (w_db w')" "attempts_ok (w_db w')" "sent_ok E w'"
    and new: "job_ok E w' j"
    and keep: "\<And>k. k < length js \<Longrightarrow> k \<noteq> i \<Longrightarrow> job_ok E w' (js ! k)"
    and fresh: "\<And>k a a'. k < length js \<Longrightarrow> k \<noteq> i \<Longrightarrow> job_attempt (js ! k) = Some a \<Longrightarrow>
                  job_attempt j = Some a' \<Longrightarrow> att_id a \<noteq> att_id a'"
  shows "system_ok E (js[i := j], w')"
proof -
  have "apart (js[i := j])"
    using ok i fresh by (fastforce simp: system_ok_def apart_def nth_list_update)
  moreover have "\<forall>j' \<in> set (js[i := j]). job_ok E w' j'"
    using new keep i by (auto simp: in_set_conv_nth nth_list_update)
  ultimately show ?thesis using w' by (simp add: system_ok_def)
qed

lemma job_ok_mono:
  assumes "job_ok E w j" "set (payment_attempts (w_db w)) \<subseteq> set (payment_attempts (w_db w'))"
    and "w_psp w' = w_psp w"
  shows "job_ok E w' j"
  using assms by (cases j) (auto simp: psp_verdict_def)

lemma sent_ok_mono:
  assumes "sent_ok E w" "set (payment_attempts (w_db w)) \<subseteq> set (payment_attempts (w_db w'))"
    and "w_psp w' = w_psp w"
  shows "sent_ok E w'"
  using assms by (fastforce simp: sent_ok_def psp_verdict_def)

text \<open>A step that leaves attempts and the provider alone.\<close>

lemma system_ok_quiet:
  assumes "system_ok E (js, w)" "w_tx w' = None" "w_psp w' = w_psp w"
    and "db_ok (w_db w')" "attempts_ok (w_db w')" "payment_attempts (w_db w') = payment_attempts (w_db w)"
    and "i < length js" "job_attempt j = None" "job_ok E w' j"
  shows "system_ok E (js[i := j], w')"
proof (rule system_ok_update [OF assms(1,7,2,4,5)])
  show "sent_ok E w'"
    by (rule sent_ok_mono [of E w]) (use assms(1) in \<open>simp_all add: system_ok_def assms(3,6)\<close>)
  show "job_ok E w' (js ! k)" if "k < length js" for k
    by (rule job_ok_mono [of E w]) (use assms(1) that in \<open>simp_all add: system_ok_def assms(3,6)\<close>)
qed (use assms(8,9) in simp_all)

section \<open>Claiming\<close>

lemma claim_step:
  assumes "claim E b ivc key hash w = (r, w')" "w_tx w = None" "db_ok (w_db w)"
  shows "w_tx w' = None \<and> w_psp w' = w_psp w \<and> db_ok (w_db w') \<and>
    ((w_db w' = w_db w \<and> (\<forall>idem att iv. r \<noteq> Inr (Claimed idem att iv)))
     \<or> (\<exists>idem att iv. claim_granted E (w_dbnow w) (w_ids w) b ivc key hash (w_db w)
            (Claimed idem att iv) (w_db w')
          \<and> (r = Inr (Claimed idem att iv) \<or> r = Inl (PayDb Unavailable))))"
proof -
  have "ok_rel.pool_step w (snd (claim E b ivc key hash w))"
    unfolding claim_def by (intro step_intros claim_body_keeps)
  then have "db_ok (w_db w')" using assms by (simp add: ok_rel.pool_step_def)
  show ?thesis
  proof (cases r)
    case (Inl e)
    with claim_spec [OF assms(1,2)] consider "w_db w' = w_db w"
      | cl where "e = PayDb Unavailable"
        "claim_granted E (w_dbnow w) (w_ids w) b ivc key hash (w_db w) cl (w_db w')"
      by auto
    then show ?thesis
    proof cases
      case 1
      with claim_spec [OF assms(1,2)] \<open>db_ok (w_db w')\<close> Inl show ?thesis by simp
    next
      case (2 cl)
      with claim_spec [OF assms(1,2)] \<open>db_ok (w_db w')\<close> Inl show ?thesis
        by (cases cl) (auto simp: claim_granted_def)
    qed
  next
    case (Inr cl)
    with claim_spec [OF assms(1,2)] \<open>db_ok (w_db w')\<close> show ?thesis
      by (cases cl) (auto simp: claim_granted_def)
  qed
qed

lemma granted_attempts:
  assumes "attempts_ok d" "claim_granted E now k b ivc key hash d (Claimed idem att iv) d1"
  shows "attempts_ok d1"
proof -
  have att: "att_invoice att = ivc" "att_status att = PROCESSING"
    and d1: "payment_attempts d1 = payment_attempts d @ [att]" "invoices d1 = invoices d"
    and iv: "iv \<in> set (invoices d)" "inv_id iv = ivc" "inv_state iv = OPEN"
    and free: "\<not> has_unresolved ivc d"
    using assms(2) by (auto simp: claim_granted_def lookup_invoice_def dest!: find_Some_mem)
  have none: "\<not> live a" if "a \<in> set (payment_attempts d)" "att_invoice a = ivc" for a
  proof
    assume "live a"
    then consider "att_status a = SUCCEEDED" | "unresolved a"
      by (cases "att_status a") (auto simp: live_def unresolved_def)
    then show False
    proof cases
      case 1
      with assms(1) iv that show False by (auto simp: attempts_ok_def)
    next
      case 2
      with free that show False by (auto simp: has_unresolved_def occurs_iff)
    qed
  qed
  from assms(1) att none show ?thesis
    by (auto simp: attempts_ok_def d1)
qed

lemma lookup_row:
  assumes "claim_granted E now k b ivc key hash d (Claimed idem att iv) d1"
  shows "inv_id iv = ivc \<and> att_invoice att = ivc \<and> att_status att = PROCESSING
    \<and> payment_attempts d1 = payment_attempts d @ [att]
    \<and> \<not> occurs att_id (att_id att) (payment_attempts d)
    \<and> \<not> occurs att_psp_request (att_psp_request att) (payment_attempts d)"
  using assms by (auto simp: claim_granted_def lookup_invoice_def dest!: find_Some_mem)

lemma claim_moves:
  assumes ok: "system_ok E (js, w)" and i: "i < length js" "js ! i = PayClaim b ivc key token"
    and adv: "advance E (PayClaim b ivc key token) w = (j, w')"
  shows "system_ok E (js[i := j], w')"
proof -
  obtain r w1 where c: "claim E b ivc key (fp E ivc token) w = (r, w1)" by fastforce
  have w: "w_tx w = None" "db_ok (w_db w)" "attempts_ok (w_db w)" "sent_ok E w"
    using ok by (simp_all add: system_ok_def)
  note s = claim_step [OF c w(1,2)]
  have w': "w' = w1" and j: "j = (case r of
        Inl e \<Rightarrow> PayDone (claim_failure e)
      | Inr (Replay idem) \<Rightarrow> PayDone (replay_reply idem)
      | Inr (Claimed idem att iv) \<Rightarrow> PayCharge b token idem att iv)"
    using adv c by (auto split: sum.splits claimed.splits)
  show ?thesis
  proof (cases "w_db w1 = w_db w \<and> (\<forall>idem att iv. r \<noteq> Inr (Claimed idem att iv))")
    case True
    have "job_attempt j = None \<and> job_ok E w1 j"
      using True by (auto simp: j split: sum.split claimed.split)
    with True s w i ok show ?thesis unfolding w' by (intro system_ok_quiet [OF ok]) auto
  next
    case False
    with s obtain idem att iv where g: "claim_granted E (w_dbnow w) (w_ids w) b ivc key
          (fp E ivc token) (w_db w) (Claimed idem att iv) (w_db w1)"
      and r: "r = Inr (Claimed idem att iv) \<or> r = Inl (PayDb Unavailable)" by auto
    note row = lookup_row [OF g]
    have more: "set (payment_attempts (w_db w)) \<subseteq> set (payment_attempts (w_db w1))"
      using row by auto
    have psp: "w_psp w1 = w_psp w" using s by simp
    have unsent: "att_psp_request att \<notin> crq_psp_request ` set (w_psp w)"
    proof
      assume "att_psp_request att \<in> crq_psp_request ` set (w_psp w)"
      then obtain k where "k < length (w_psp w)" "crq_psp_request (w_psp w ! k) = att_psp_request att"
        by (auto simp: in_set_conv_nth)
      with sent_attempt [OF w(4)] obtain a where "a \<in> set (payment_attempts (w_db w))"
          "att_psp_request a = att_psp_request att"
        by metis
      with row show False by (metis occurs_iff rev_image_eqI)
    qed
    show ?thesis
      unfolding w'
    proof (rule system_ok_update [OF ok i(1)])
      show "job_ok E w1 j"
        using r row unsent by (auto simp: j psp)
      show "job_ok E w1 (js ! k)" if "k < length js" for k
        by (rule job_ok_mono [of E w]) (use ok that more psp in \<open>simp_all add: system_ok_def\<close>)
      show "att_id a \<noteq> att_id a'"
        if "k < length js" "job_attempt (js ! k) = Some a" "job_attempt j = Some a'" for k a a'
      proof -
        have "a \<in> set (payment_attempts (w_db w))"
          using job_attempt_mem [OF system_ok_jobs [OF ok that(1)] that(2)] by simp
        moreover have "a' = att" using that(3) r by (auto simp: j)
        ultimately show ?thesis using row by (metis occurs_iff rev_image_eqI)
      qed
    qed (use s granted_attempts [OF w(3) g] sent_ok_mono [OF w(4) more psp] in simp_all)
  qed
qed

section \<open>Charging\<close>

lemma charge_moves:
  assumes ok: "system_ok E (js, w)" and i: "i < length js" "js ! i = PayCharge b token idem att iv"
    and adv: "advance E (PayCharge b token idem att iv) w = (j, w')"
  shows "system_ok E (js[i := j], w')"
proof -
  let ?req = "card_request token att iv"
  have w': "w' = w\<lparr>w_psp := w_psp w @ [?req]\<rparr>"
    and j: "j = PayFinalize b idem att iv (psp_verdict E w' (length (w_psp w)))"
    using adv by (auto simp: charge_card_def psp_verdict_def)
  note jobs = system_ok_jobs [OF ok]
  have att: "att \<in> set (payment_attempts (w_db w))" "att_status att = PROCESSING"
      "inv_id iv = att_invoice att" "att_psp_request att \<notin> crq_psp_request ` set (w_psp w)"
    using jobs [OF i(1)] i(2) by simp_all
  have old: "psp_verdict E w' k = psp_verdict E w k" "w_psp w' ! k = w_psp w ! k"
    if "k < length (w_psp w)" for k
    using that by (simp_all add: w' psp_verdict_def nth_append)
  have req: "crq_psp_request ?req = att_psp_request att" by (simp add: card_request_def)
  have sent: "sent_ok E w"
    using ok by (simp add: system_ok_def)
  show ?thesis
  proof (rule system_ok_update [OF ok i(1)])
    have "\<exists>a \<in> set (payment_attempts (w_db w)). att_psp_request a = crq_psp_request (w_psp w' ! k)
          \<and> (\<not> declined (psp_verdict E w' k) \<longrightarrow> live a)" if "k < Suc (length (w_psp w))" for k
    proof (cases "k < length (w_psp w)")
      case True
      with sent old show ?thesis by (simp add: sent_ok_def)
    next
      case False
      with that have "w_psp w' ! k = ?req" by (simp add: w' nth_append less_Suc_eq)
      with att req show ?thesis by (auto simp: live_def)
    qed
    with sent att(4) req show "sent_ok E w'"
      by (simp add: sent_ok_def w')
    show "job_ok E w' j"
    proof -
      have "crq_psp_request (w_psp w' ! length (w_psp w)) = att_psp_request att"
        using req by (simp add: w')
      moreover have "length (w_psp w) < length (w_psp w')" by (simp add: w')
      ultimately show ?thesis using att(1-3) j by (auto simp: w')
    qed
    show "job_ok E w' (js ! k)" if "k < length js" "k \<noteq> i" for k
    proof (cases "js ! k")
      case (PayCharge b2 token2 idem2 att2 iv2)
      have "att_id att2 \<noteq> att_id att"
        by (rule apartD [OF system_ok_apart [OF ok] that(1) i(1) that(2)]) (simp_all add: i PayCharge)
      then have "att2 \<noteq> att" by auto
      moreover have "distinct (map att_psp_request (payment_attempts (w_db w)))"
        using ok by (simp add: system_ok_def db_ok_defs)
      ultimately have "att_psp_request att2 \<noteq> att_psp_request att"
        using jobs [OF that(1)] PayCharge att(1) by (auto dest: distinct_map_eqD)
      with jobs [OF that(1)] PayCharge req show ?thesis by (simp add: w')
    next
      case (PayFinalize b2 idem2 att2 iv2 result)
      with jobs [OF that(1)] obtain l where "l < length (w_psp w)"
        "crq_psp_request (w_psp w ! l) = att_psp_request att2" "psp_verdict E w l = result" by auto
      moreover from this(1) have "l < length (w_psp w')" by (simp add: w')
      moreover have "w_db w' = w_db w" by (simp add: w')
      ultimately show ?thesis
        using old [of l] jobs [OF that(1)] by (auto simp: PayFinalize)
    qed simp_all
    show "att_id a \<noteq> att_id a'"
      if "k < length js" "k \<noteq> i" "job_attempt (js ! k) = Some a" "job_attempt j = Some a'" for k a a'
      by (rule apartD [OF system_ok_apart [OF ok] that(1) i(1) that(2,3)]) (use that(4) i j in simp)
  qed (use ok in \<open>simp_all add: system_ok_def w'\<close>)
qed

section \<open>Finalizing\<close>

lemma finalize_step:
  assumes "finalize E idem att iv result b w = (r, w')" "w_tx w = None" "db_ok (w_db w)"
  shows "w_tx w' = None \<and> w_psp w' = w_psp w \<and> db_ok (w_db w') \<and>
    (w_db w' = w_db w
     \<or> settleable b att iv result (w_db w)
       \<and> w_db w' = finalized_db E (w_dbnow w) (w_ids w) b idem att iv result (w_db w))"
proof -
  have "ok_rel.pool_step w (snd (finalize E idem att iv result b w))"
    unfolding finalize_def by (intro step_intros finalize_body_keeps)
  then have "db_ok (w_db w')" using assms by (simp add: ok_rel.pool_step_def)
  with finalize_spec [OF assms(1,2)] show ?thesis by auto
qed

lemma finalized_sel:
  "payment_attempts (finalized_db E now k b idem att iv result d)
     = update_where (processing_attempt (att_id att)) (settled_attempt now result) (payment_attempts d)"
  "invoices (finalized_db E now k b idem att iv result d)
     = (if charged result
        then update_where (open_invoice (inv_id iv) b)
               (\<lambda>r. r\<lparr>inv_state := PAID, inv_updated := now\<rparr>) (invoices d)
        else invoices d)"
  by (simp_all add: finalized_db_def settled_db_def case_prod_unfold Let_def)

text \<open>Finalizing moves one row, the attempt it is about.\<close>

lemma finalized_attempts:
  assumes "db_ok d" "att \<in> set (payment_attempts d)" "att_status att = PROCESSING"
  shows "set (payment_attempts (finalized_db E now k b idem att iv result d))
    = (\<lambda>a. if a = att then settled_attempt now result a else a) ` set (payment_attempts d)"
proof -
  have "processing_attempt (att_id att) a \<longleftrightarrow> a = att" if "a \<in> set (payment_attempts d)" for a
    using assms that distinct_map_eqD [of att_id "payment_attempts d" a att]
    by (auto simp: processing_attempt_def db_ok_defs)
  then show ?thesis by (auto simp: finalized_sel update_where_def image_image)
qed

lemma settled_attempt_cases:
  "att_status (settled_attempt now result a)
     = (if declined result then FAILED else if charged result then SUCCEEDED else UNKNOWN)"
  by (auto simp: settled_attempt_def declined_def charged_def split: sum.split)

lemma finalized_attempts_ok:
  assumes ok: "db_ok d" "attempts_ok d" and att: "att \<in> set (payment_attempts d)"
      "att_status att = PROCESSING" "inv_id iv = att_invoice att"
    and can: "settleable b att iv result d"
  shows "attempts_ok (finalized_db E now k b idem att iv result d)"
proof -
  let ?d' = "finalized_db E now k b idem att iv result d"
  let ?f = "\<lambda>a. if a = att then settled_attempt now result a else a"
  note rows = finalized_attempts [OF ok(1) att(1,2), of E now k b idem iv result]
  have live: "live (?f a) \<Longrightarrow> live a" "att_invoice (?f a) = att_invoice a" for a
    using att(2) by (auto simp: live_def split: if_splits)
  have once: "\<And>a a'. a \<in> set (payment_attempts d) \<Longrightarrow> a' \<in> set (payment_attempts d) \<Longrightarrow> live a \<Longrightarrow>
      live a' \<Longrightarrow> att_invoice a = att_invoice a' \<Longrightarrow> a = a'"
    using ok(2) by (simp add: attempts_ok_def)
  have s1: "?f a = ?f a'" if "a \<in> set (payment_attempts d)" "a' \<in> set (payment_attempts d)"
      "live (?f a)" "live (?f a')" "att_invoice (?f a) = att_invoice (?f a')" for a a'
  proof -
    have "a = a'"
      by (rule once [OF that(1,2) live(1) [OF that(3)] live(1) [OF that(4)]])
        (use that(5) in \<open>simp only: live(2)\<close>)
    then show ?thesis by simp
  qed
  have s2: "inv_state v \<noteq> OPEN"
    if a: "a \<in> set (payment_attempts d)" "att_status (?f a) = SUCCEEDED"
      and v: "v \<in> set (invoices ?d')" "inv_id v = att_invoice (?f a)" for a v
  proof
    assume op: "inv_state v = OPEN"
    have v0: "v \<in> set (invoices d) \<and> (charged result \<longrightarrow> \<not> open_invoice (inv_id iv) b v)"
    proof (cases "charged result")
      case True
      then have "v \<in> set (update_where (open_invoice (inv_id iv) b)
          (\<lambda>r. r\<lparr>inv_state := PAID, inv_updated := now\<rparr>) (invoices d))"
        using v(1) by (simp add: finalized_sel)
      then obtain x where x: "x \<in> set (invoices d)" "v = (if open_invoice (inv_id iv) b x
          then x\<lparr>inv_state := PAID, inv_updated := now\<rparr> else x)"
        unfolding set_update_where by blast
      with op have "\<not> open_invoice (inv_id iv) b x" by (cases "open_invoice (inv_id iv) b x") simp_all
      with x show ?thesis by simp
    qed (use v(1) in \<open>simp add: finalized_sel\<close>)
    show False
    proof (cases "a = att")
      case True
      from a(2) have ch: "charged result"
        unfolding True by (simp add: settled_attempt_cases split: if_splits)
      with can obtain v1 where v1: "v1 \<in> set (invoices d)" "open_invoice (inv_id iv) b v1"
        by (auto simp: settleable_def list_ex_iff)
      have "inv_id v = att_invoice att" using v(2) unfolding True by simp
      then have "inv_id v1 = inv_id v"
        using v1(2) att(3) by (simp add: open_invoice_def)
      with ok(1) v1(1) v0 have "v1 = v"
        by (auto simp: db_ok_defs dest: distinct_map_eqD)
      with v0 ch v1(2) show False by simp
    next
      case False
      with a v(2) v0 ok(2) op show False by (auto simp: attempts_ok_def)
    qed
  qed
  show ?thesis
    unfolding attempts_ok_def rows
  proof (intro conjI ballI impI)
    fix x y assume xy: "x \<in> ?f ` set (payment_attempts d)" "y \<in> ?f ` set (payment_attempts d)"
      and l: "live x" "live y" "att_invoice x = att_invoice y"
    from xy(1) obtain a where a: "a \<in> set (payment_attempts d)" "x = ?f a" by (rule imageE)
    from xy(2) obtain a' where a': "a' \<in> set (payment_attempts d)" "y = ?f a'" by (rule imageE)
    from l show "x = y" unfolding a(2) a'(2) by (rule s1 [OF a(1) a'(1)])
  next
    fix x v assume x: "x \<in> ?f ` set (payment_attempts d)" "att_status x = SUCCEEDED"
      and v: "v \<in> set (invoices ?d')" "inv_id v = att_invoice x"
    from x(1) obtain a where a: "a \<in> set (payment_attempts d)" "x = ?f a" by (rule imageE)
    from x(2) v(2) show "inv_state v \<noteq> OPEN" unfolding a(2) by (rule s2 [OF a(1) _ v(1)])
  qed
qed

lemma finalize_moves:
  assumes ok: "system_ok E (js, w)"
    and i: "i < length js" "js ! i = PayFinalize b idem att iv result"
    and adv: "advance E (PayFinalize b idem att iv result) w = (j, w')"
  shows "system_ok E (js[i := j], w')"
proof -
  obtain r w1 where f: "finalize E idem att iv result b w = (r, w1)" by fastforce
  have w: "w_tx w = None" "db_ok (w_db w)" "attempts_ok (w_db w)" "sent_ok E w"
    using ok by (simp_all add: system_ok_def)
  note s = finalize_step [OF f w(1,2)]
  have w': "w' = w1" and j: "job_attempt j = None" "job_ok E w1 j"
    using adv f by (auto split: sum.splits)
  show ?thesis
  proof (cases "w_db w1 = w_db w")
    case True
    with s w j i show ?thesis unfolding w' by (intro system_ok_quiet [OF ok]) auto
  next
    case False
    then have d1: "w_db w1 = finalized_db E (w_dbnow w) (w_ids w) b idem att iv result (w_db w)"
      and can: "settleable b att iv result (w_db w)" and psp: "w_psp w1 = w_psp w"
      using s by auto
    note job = system_ok_jobs [OF ok i(1), unfolded i(2)]
    have att: "att \<in> set (payment_attempts (w_db w))" "att_status att = PROCESSING"
        "inv_id iv = att_invoice att" using job by simp_all
    note rows = finalized_attempts [OF w(2) att(1,2), of E "w_dbnow w" "w_ids w" b idem iv result,
        folded d1]
    have v: "psp_verdict E w1 k = psp_verdict E w k" for k by (simp add: psp_verdict_def psp)
    have others: "a \<in> set (payment_attempts (w_db w1))"
      if "a \<in> set (payment_attempts (w_db w))" "a \<noteq> att" for a
      using that by (force simp: rows)
    have sent: "\<exists>a \<in> set (payment_attempts (w_db w1)). att_psp_request a = crq_psp_request (w_psp w ! k)
          \<and> (\<not> declined (psp_verdict E w k) \<longrightarrow> live a)" if k: "k < length (w_psp w)" for k
    proof -
      from sent_attempt [OF w(4) k] obtain a where a: "a \<in> set (payment_attempts (w_db w))"
        "att_psp_request a = crq_psp_request (w_psp w ! k)" "\<not> declined (psp_verdict E w k) \<longrightarrow> live a"
        by blast
      show ?thesis
      proof (cases "a = att")
        case True
        from job obtain l where l: "l < length (w_psp w)" "crq_psp_request (w_psp w ! l) = att_psp_request att"
          "psp_verdict E w l = result" by auto
        have "distinct (map crq_psp_request (w_psp w))" using w(4) by (simp add: sent_ok_def)
        from nth_eq_iff_index_eq [OF this, of l k] l k a(2) True have "l = k" by simp
        with l(3) have "\<not> declined (psp_verdict E w k) \<Longrightarrow> live (settled_attempt (w_dbnow w) result att)"
          by (simp add: live_def settled_attempt_cases)
        moreover have "settled_attempt (w_dbnow w) result att \<in> set (payment_attempts (w_db w1))"
          using att(1) by (force simp: rows)
        ultimately show ?thesis using a(2) True by (intro bexI) simp_all
      qed (use a others in blast)
    qed
    have jobs: "job_ok E w1 (js ! k)" if "k < length js" "k \<noteq> i" for k
    proof -
      have "a \<in> set (payment_attempts (w_db w1))" if "job_attempt (js ! k) = Some a" for a
      proof -
        have "att_id a \<noteq> att_id att"
          by (rule apartD [OF system_ok_apart [OF ok] \<open>k < length js\<close> i(1) \<open>k \<noteq> i\<close> that])
            (simp add: i(2))
        then have "a \<noteq> att" by auto
        moreover note job_attempt_mem [OF system_ok_jobs [OF ok \<open>k < length js\<close>] that]
        ultimately show ?thesis using others by blast
      qed
      with system_ok_jobs [OF ok that(1)] show ?thesis by (cases "js ! k") (auto simp: psp v)
    qed
    show ?thesis
      unfolding w'
    proof (rule system_ok_update [OF ok i(1)])
      show "attempts_ok (w_db w1)"
        unfolding d1 by (rule finalized_attempts_ok [OF w(2,3) att can])
      show "sent_ok E w1" using w(4) sent by (simp add: sent_ok_def psp v)
    qed (use s j jobs in simp_all)
  qed
qed

section \<open>Voiding and the rest of the service\<close>

lemma void_attempts_ok:
  assumes "attempts_ok d"
  shows "attempts_ok (d\<lparr>invoices := map (\<lambda>r. if P r then void_row now r else r) (invoices d)\<rparr>)"
  using assms by (auto simp: attempts_ok_def void_row_def)

lemma untouched_attempts_ok:
  assumes "untouched d d'" "attempts_ok d" "db_ok d"
  shows "attempts_ok d'"
  unfolding attempts_ok_def
proof (intro conjI ballI impI)
  fix a iv assume a: "a \<in> set (payment_attempts d')" "att_status a = SUCCEEDED"
    and iv: "iv \<in> set (invoices d')" "inv_id iv = att_invoice a"
  have a0: "a \<in> set (payment_attempts d)" using assms(1) a by (simp add: untouched_def)
  then have "att_invoice a \<in> inv_id ` set (invoices d)" using assms(3) by (simp add: db_ok_defs)
  with a a0 iv assms(1,2) show "inv_state iv \<noteq> OPEN"
    unfolding untouched_def attempts_ok_def by metis
qed (use assms(1,2) in \<open>auto simp: untouched_def attempts_ok_def\<close>)

text \<open>The steps of a void job leave attempts and the provider alone.\<close>

fun aside :: "job \<Rightarrow> bool" where
  "aside (PayClaim b ivc key token) = False"
| "aside (PayCharge b token idem att iv) = False"
| "aside (PayFinalize b idem att iv result) = False"
| "aside j = True"

lemma quiet_moves:
  assumes ok: "system_ok E (js, w)" and i: "i < length js"
    and j: "aside (js ! i)"
    and adv: "advance E (js ! i) w = (j', w')"
  shows "system_ok E (js[i := j'], w')"
proof -
  have w: "w_tx w = None" "db_ok (w_db w)" "attempts_ok (w_db w)"
    using ok by (simp_all add: system_ok_def)
  have jo: "job_attempt j' = None \<and> job_ok E w' j'"
  proof -
    have "aside jb \<Longrightarrow> advance E jb w = (j', w') \<Longrightarrow> job_attempt j' = None \<and> job_ok E w' j'" for jb
      by (cases jb) (auto split: sum.splits prod.splits invoice_state.splits)
    from this [OF j adv] show ?thesis .
  qed
  have "w_tx w' = None \<and> w_psp w' = w_psp w \<and> db_ok (w_db w') \<and> attempts_ok (w_db w')
    \<and> payment_attempts (w_db w') = payment_attempts (w_db w)"
  proof (cases "js ! i")
    case (VoidRead b k)
    obtain r w1 where q: "query E Pool (get_invoice_by_id k b) w = (r, w1)" by fastforce
    have "w' = w1" using adv VoidRead q by (auto split: sum.splits invoice_state.splits)
    with select_pool [OF q [unfolded get_invoice_by_id_def]] w show ?thesis
      by (simp add: same_data_def)
  next
    case (VoidWrite b k)
    obtain r w1 where q: "query E Pool (update_invoice_state (w_dbnow w) k b VOID) w = (r, w1)"
      by fastforce
    have w': "w' = w1" using adv VoidWrite q by (auto split: sum.splits)
    have "ok_rel.pool_step w (snd (query E Pool (update_invoice_state (w_dbnow w) k b VOID) w))"
      by (intro step_intros keeps_ok_intros)
    then have "db_ok (w_db w1)" using q w by (simp add: ok_rel.pool_step_def)
    with void_update [OF q] w show ?thesis
      unfolding w' by (auto intro: void_attempts_ok)
  next
    case (VoidItems k iv)
    then have "reply_with_items E k iv w = (fst (reply_with_items E k iv w), w')"
      using adv by (auto split: prod.splits)
    from reply_with_items_spec [OF this] w show ?thesis by (simp add: same_data_def)
  qed (use j adv w in auto)
  with jo i show ?thesis by (intro system_ok_quiet [OF ok]) auto
qed

lemma apart_snoc:
  assumes "apart js" "job_attempt j = None"
  shows "apart (js @ [j])"
  unfolding apart_def
proof (intro allI impI)
  fix i k a a'
  assume "i < length (js @ [j])" "k < length (js @ [j])" "i \<noteq> k"
    and i: "job_attempt ((js @ [j]) ! i) = Some a" and k: "job_attempt ((js @ [j]) ! k) = Some a'"
  then have "i < length js" "k < length js"
    using assms(2) by (auto simp: nth_append less_Suc_eq)
  with i k show "att_id a \<noteq> att_id a'"
    using apartD [OF assms(1) _ _ \<open>i \<noteq> k\<close>] by (simp add: nth_append)
qed

lemma moves_ok:
  assumes "system_ok E s" "moves E s s'"
  shows "system_ok E s'"
  using assms(2,1)
proof (cases rule: moves.cases)
  case (run i js w j w')
  show ?thesis
  proof (cases "js ! i")
    case (PayClaim b ivc key token)
    with run assms(1) show ?thesis by (auto intro: claim_moves)
  next
    case (PayCharge b token idem att iv)
    with run assms(1) show ?thesis by (auto intro: charge_moves simp del: advance.simps)
  next
    case (PayFinalize b idem att iv result)
    with run assms(1) show ?thesis by (auto intro: finalize_moves simp del: advance.simps)
  qed (use run assms(1) in \<open>auto intro!: quiet_moves simp del: advance.simps\<close>)
next
  case (crash i js w)
  with assms(1) have ok: "system_ok E (js, w)" by simp
  then have "w_tx w = None" "db_ok (w_db w)" "attempts_ok (w_db w)" by (simp_all add: system_ok_def)
  then have "system_ok E (js[i := Crashed], w)"
    using crash(3) by (intro system_ok_quiet [OF ok]) simp_all
  with crash show ?thesis by simp
next
  case (arrive j js w)
  then have "job_attempt j = None \<and> job_ok E w j" by (cases j) auto
  with arrive assms(1) show ?thesis
    by (auto simp: system_ok_def intro: apart_snoc)
next
  case (rest w w' js)
  have "psp_verdict E w' k = psp_verdict E w k" for k
    using rest by (simp add: psp_verdict_def elsewhere_def)
  moreover have "job_ok E w' j" if "job_ok E w j" for j
    by (rule job_ok_mono [OF that]) (use rest in \<open>auto simp: elsewhere_def untouched_def\<close>)
  moreover have "attempts_ok (w_db w')"
    by (rule untouched_attempts_ok [of "w_db w"])
      (use rest assms(1) in \<open>auto simp: elsewhere_def system_ok_def\<close>)
  ultimately show ?thesis
    using rest assms(1)
    by (auto simp: elsewhere_def untouched_def system_ok_def sent_ok_def)
qed

lemma reachable_ok: "reachable E s0 s \<Longrightarrow> system_ok E s0 \<Longrightarrow> system_ok E s"
  by (induction rule: reachable.induct) (auto intro: moves_ok)

lemma system_ok_initial:
  "w_tx w = None \<Longrightarrow> db_ok (w_db w) \<Longrightarrow> attempts_ok (w_db w) \<Longrightarrow> w_psp w = [] \<Longrightarrow> system_ok E ([], w)"
  by (simp add: system_ok_def sent_ok_def apart_def)

section \<open>No double charge\<close>

text \<open>
  No double charge, under any interleaving of payments and voids, with crashes between any two
  steps, faults at any statement and an arbitrary rest of the service: every request sent to the
  provider belongs to an attempt of its own; of two requests for the same invoice, at least one
  was declined by the provider; and an invoice has at most one attempt that is not FAILED, and it
  is not OPEN any more if that attempt has succeeded.
\<close>

lemma charged_once:
  assumes "reachable E ([], w0) (js, w)" "w_tx w0 = None" "db_ok (w_db w0)"
    and "attempts_ok (w_db w0)" "w_psp w0 = []"
  shows "distinct (map crq_psp_request (w_psp w)) \<and> attempts_ok (w_db w) \<and> db_ok (w_db w) \<and>
    (\<forall>k < length (w_psp w). \<forall>l < length (w_psp w).
       \<forall>a \<in> set (payment_attempts (w_db w)). \<forall>a' \<in> set (payment_attempts (w_db w)).
         att_psp_request a = crq_psp_request (w_psp w ! k) \<longrightarrow>
         att_psp_request a' = crq_psp_request (w_psp w ! l) \<longrightarrow> att_invoice a = att_invoice a' \<longrightarrow>
         k = l \<or> declined (psp_verdict E w k) \<or> declined (psp_verdict E w l))"
proof -
  have ok: "system_ok E (js, w)"
    using reachable_ok [OF assms(1)] system_ok_initial assms(2-) by blast
  then have s: "sent_ok E w" "attempts_ok (w_db w)" "db_ok (w_db w)" by (simp_all add: system_ok_def)
  then have d: "distinct (map crq_psp_request (w_psp w))" by (simp add: sent_ok_def)
  have live: "live a" if k: "k < length (w_psp w)" "\<not> declined (psp_verdict E w k)"
    and a: "a \<in> set (payment_attempts (w_db w))" "att_psp_request a = crq_psp_request (w_psp w ! k)"
    for k a
  proof -
    from sent_attempt [OF s(1) k(1)] k(2) obtain a0 where a0: "a0 \<in> set (payment_attempts (w_db w))"
      "att_psp_request a0 = att_psp_request a" "live a0" using a(2) by auto
    have "distinct (map att_psp_request (payment_attempts (w_db w)))"
      using s(3) by (simp add: db_ok_defs)
    from distinct_map_eqD [OF this a0(1) a(1) a0(2)] a0(3) show ?thesis by simp
  qed
  have "k = l \<or> declined (psp_verdict E w k) \<or> declined (psp_verdict E w l)"
    if k: "k < length (w_psp w)" "l < length (w_psp w)"
      and a: "a \<in> set (payment_attempts (w_db w))" "att_psp_request a = crq_psp_request (w_psp w ! k)"
      and a': "a' \<in> set (payment_attempts (w_db w))" "att_psp_request a' = crq_psp_request (w_psp w ! l)"
      and same: "att_invoice a = att_invoice a'" for k l a a'
  proof (rule ccontr)
    assume n: "\<not> ?thesis"
    with live [OF k(1) _ a] live [OF k(2) _ a'] have "live a" "live a'" by simp_all
    with s(2) a(1) a'(1) same have "a = a'" by (simp add: attempts_ok_def)
    with a(2) a'(2) k nth_eq_iff_index_eq [OF d, of k l] n show False by simp
  qed
  with d s(2,3) show ?thesis by blast
qed

text \<open>A schedule: which job moves, in order.\<close>

fun run_schedule :: "env \<Rightarrow> nat list \<Rightarrow> system \<Rightarrow> system" where
  "run_schedule E [] s = s"
| "run_schedule E (i # is) (js, w) =
     (if i < length js
      then (case advance E (js ! i) w of (j, w') \<Rightarrow> run_schedule E is (js[i := j], w'))
      else (js, w))"

end
