(* ===== verification/Service.thy ===== *)
theory Service
  imports Payment_Effect Payment_Live Invoice_Effect Auth Customer Worker Middleware Concurrent
begin

text \<open>
  The whole service: the routes of \<open>setupRouter\<close>, every request through the authentication
  middleware to its handler, and the background worker between requests. One request runs after
  the other here; concurrent payments and voids are treated in the theory on concurrency.
\<close>

section \<open>Routes\<close>

text \<open>A request as the handler reads it: path parameter, headers, and the decoded body.\<close>

datatype request =
    Health
  | PostCustomer "create_customer_request option"
  | GetCustomers
  | GetCustomer string
  | PostInvoice "create_invoice_request option"
  | GetInvoices
  | GetInvoice string
  | PostVoid string
  | PostPay string string "string option"
  | PostEndpoint "string option" "string option"
  | GetEndpoints
  | GetEndpoint string

datatype answer =
    HealthAnswer nat json
  | CustomerAnswer "customer_response reply"
  | CustomersAnswer "customer_response list reply"
  | InvoiceAnswer "invoice_response reply"
  | InvoicesAnswer "invoice_response list reply"
  | PayAnswer "json option reply"
  | EndpointAnswer "endpoint_response reply"
  | EndpointsAnswer "endpoint_response list reply"
  | Aborted nat api_error

text \<open>
  The health check pings the pool, if the router has one; a router without one has only this route.
\<close>

definition health_ok :: answer where
  "health_ok = HealthAnswer 200 (JObject
     [(''status'', JString ''ok''), (''message'', JString ''dodo-payments backend is up and running.'')])"

definition health_error :: answer where
  "health_error = HealthAnswer 503 (JObject
     [(''status'', JString ''error''), (''database'', JString ''unreachable'')])"

definition health :: "env \<Rightarrow> bool \<Rightarrow> world \<Rightarrow> answer \<times> world" where
  "health E pool w =
     (if \<not> pool then (health_ok, w)
      else
        (let w1 = w\<lparr>w_calls := Suc (w_calls w)\<rparr> in
         if env_outcome E (w_calls w) = Answered then (health_ok, w1) else (health_error, w1)))"

text \<open>The handlers behind the routes; \<open>b\<close> is the business id in the request context.\<close>

definition dispatch :: "env \<Rightarrow> int64 \<Rightarrow> request \<Rightarrow> world \<Rightarrow> answer \<times> world" where
  "dispatch E b req w =
     (case req of
        Health \<Rightarrow> health E True w
      | PostCustomer body \<Rightarrow> map_prod CustomerAnswer id (create_customer_handler E b body w)
      | GetCustomers \<Rightarrow> map_prod CustomersAnswer id (list_customers_handler E b w)
      | GetCustomer i \<Rightarrow> map_prod CustomerAnswer id (get_customer_handler E b i w)
      | PostInvoice body \<Rightarrow> map_prod InvoiceAnswer id (create_invoice_handler E b body w)
      | GetInvoices \<Rightarrow> map_prod InvoicesAnswer id (list_invoices_handler E b w)
      | GetInvoice i \<Rightarrow> map_prod InvoiceAnswer id (get_invoice_handler E b i w)
      | PostVoid i \<Rightarrow> map_prod InvoiceAnswer id (void_invoice E b i w)
      | PostPay key i body \<Rightarrow> map_prod PayAnswer id (pay_invoice E b key i body w)
      | PostEndpoint body random \<Rightarrow> map_prod EndpointAnswer id (create_endpoint E b body random w)
      | GetEndpoints \<Rightarrow> map_prod EndpointsAnswer id (list_endpoints E b w)
      | GetEndpoint i \<Rightarrow> map_prod EndpointAnswer id (get_endpoint E b i w))"

text \<open>
  All routes but the health check stand behind the authentication middleware. The server is started
  with a pool.
\<close>

definition serve :: "env \<Rightarrow> string \<Rightarrow> request \<Rightarrow> world \<Rightarrow> answer \<times> world" where
  "serve E header req w =
     (case req of
        Health \<Rightarrow> health E True w
      | _ \<Rightarrow>
          (case auth_middleware E header w of
             (Inl msg, w1) \<Rightarrow> (Aborted 401 (new_error_response ''unauthorized'' msg), w1)
           | (Inr (b, _), w1) \<Rightarrow> dispatch E b req w1))"

text \<open>
  What happens to a running server: a request arrives, or the worker's ticker fires; each comes
  with the readings of the server's and the process's clocks.
\<close>

datatype event = Request string request | Tick worker

definition handle :: "env \<Rightarrow> instant \<times> instant \<times> event \<Rightarrow> world \<Rightarrow> world" where
  "handle E ev w =
     (let (dbnow, now, e) = ev; w1 = w\<lparr>w_dbnow := dbnow, w_now := now\<rparr> in
      case e of
        Request header req \<Rightarrow> snd (serve E header req w1)
      | Tick wk \<Rightarrow> snd (process_batch E wk w1))"

definition run_events :: "env \<Rightarrow> (instant \<times> instant \<times> event) list \<Rightarrow> world \<Rightarrow> world" where
  "run_events E evs w = fold (handle E) evs w"

section \<open>Handlers and relations between databases\<close>

text \<open>
  Which handlers respect a relation, in terms of the statements that do. Reading respects every
  relation; so does a handler with one writing statement if that statement does.
\<close>

context db_relation
begin

lemma reply_with_items_step [step_intros]: "pool_step w (snd (reply_with_items E i iv w))"
  unfolding reply_with_items_def list_invoice_items_by_invoice_id_def
  by (intro step_intros within_select_many)

lemma get_customer_step: "pool_step w (snd (get_customer_handler E b i w))"
  unfolding get_customer_handler_def get_customer_by_id_def by (intro step_intros within_select_one)

lemma list_customers_step: "pool_step w (snd (list_customers_handler E b w))"
  unfolding list_customers_handler_def list_customers_by_business_id_def
  by (intro step_intros within_select_many)

lemma get_invoice_step: "pool_step w (snd (get_invoice_handler E b i w))"
  unfolding get_invoice_handler_def get_invoice_by_id_def by (intro step_intros within_select_one)

lemma list_invoices_step: "pool_step w (snd (list_invoices_handler E b w))"
  unfolding list_invoices_handler_def list_invoices_by_business_id_def
    list_invoice_items_by_invoice_ids_def
  by (intro step_intros within_select_many)

lemma get_endpoint_step: "pool_step w (snd (get_endpoint E b i w))"
  unfolding get_endpoint_def get_webhook_endpoint_by_id_def by (intro step_intros within_select_one)

lemma list_endpoints_step: "pool_step w (snd (list_endpoints E b w))"
  unfolding list_endpoints_def list_webhook_endpoints_by_business_id_def
  by (intro step_intros within_select_many)

lemmas read_steps = get_customer_step list_customers_step get_invoice_step list_invoices_step
  get_endpoint_step list_endpoints_step

lemma create_customer_step:
  "(\<And>now i nm em. within (create_customer now i b nm em)) \<Longrightarrow>
   pool_step w (snd (create_customer_handler E b body w))"
  unfolding create_customer_handler_def Let_def by (intro step_intros)

lemma create_endpoint_step:
  "(\<And>now i u sec. within (create_webhook_endpoint now i b u sec)) \<Longrightarrow>
   pool_step w (snd (create_endpoint E b body random w))"
  unfolding create_endpoint_def Let_def by (intro step_intros)

lemma void_step:
  "(\<And>now i. within (update_invoice_state now i b VOID)) \<Longrightarrow>
   pool_step w (snd (void_invoice E b raw w))"
  unfolding void_invoice_def get_invoice_by_id_def by (intro step_intros within_select_one)

text \<open>The handlers with transactions, statement by statement.\<close>

lemma create_items_step:
  assumes "\<And>now i v ds q u. within (Queries.create_invoice_item now i v ds q u)"
  shows "tx_step w (snd (create_items E ivc items w))"
proof (induction items arbitrary: w)
  case (Cons itm items)
  show ?case
    unfolding create_items.simps Let_def by (intro step_intros assms Cons)
qed (simp add: tx.refl)

lemma create_invoice_step:
  assumes "\<And>now i c t s due. within (Queries.create_invoice now i b c t ''USD'' s due)"
    and "\<And>now i v ds q u. within (Queries.create_invoice_item now i v ds q u)"
    and "\<And>now i ep v ev p. within (create_webhook_delivery (env_jsonb E) now i ep v ev p)"
  shows "pool_step w (snd (create_invoice_handler E b body w))"
proof -
  have "tx_step w (snd (create_body E b ivc cust amount st due req w))" for ivc cust amount st due req w
    unfolding create_body_def Let_def
    by (intro step_intros assms create_items_step tx.andThen)
  then show ?thesis
    unfolding create_invoice_handler_def Let_def get_customer_by_id_def
    by (intro step_intros within_select_one)
qed

lemma pay_step:
  assumes "\<And>now i key hash. within (create_idempotency_key now i b key hash)"
    and "\<And>now a v i p. within (create_payment_attempt now a v i p)"
    and "\<And>now a why. within (mark_payment_attempt_unknown now a why)"
    and "\<And>now a c why. within (mark_payment_attempt_failed now a c why)"
    and "\<And>now a ref. within (mark_payment_attempt_succeeded now a ref)"
    and "\<And>now v. within (mark_invoice_paid now v b)"
    and "\<And>now i s doc. within (complete_idempotency_key (env_jsonb E) now i s doc)"
    and "\<And>now i ep v ev p. within (create_webhook_delivery (env_jsonb E) now i ep v ev p)"
  shows "pool_step w (snd (pay_invoice E b header raw body w))"
proof -
  have claim: "tx_step w (snd (claim_body E b ivc key hash w))" for ivc key hash w
    unfolding claim_body_def claim_new_def Let_def get_idempotency_key_def get_invoice_for_payment_def
    by (intro step_intros within_select_one assms)
  have settle: "tx_step w (snd (settle E att iv result b w))" for att iv result w
    unfolding settle_def Let_def by (intro step_intros assms tx.andThen)
  have finalize: "tx_step w (snd (finalize_body E idem att iv result b w))" for idem att iv result w
    unfolding finalize_body_def Let_def by (intro step_intros assms settle)
  have card: "pool_step w (snd (charge_card E req w))" for req w
    by (simp add: charge_card_def pool_step_def R_refl)
  have "pool_step w (snd (pay_claimed E b token cl w))" for token cl w
    by (cases cl)
      (simp_all add: pay_claimed_def pool.refl, intro step_intros pool.andThen card,
       unfold finalize_def, intro step_intros finalize)
  then show ?thesis
    unfolding pay_invoice_def Let_def claim_def by (intro step_intros claim)
qed

lemma middleware_step: "pool_step w (snd (auth_middleware E header w))"
  unfolding auth_middleware_def get_api_key_by_prefix_def
  by (intro step_intros within_select_one)

lemma health_step: "pool_step w (snd (health E pool w))"
  by (simp add: health_def Let_def pool_step_def R_refl)

text \<open>The worker.\<close>

lemma handle_failure_step:
  assumes "\<And>i m. within (mark_webhook_delivery_exhausted i m)"
    and "\<And>i t m. within (mark_webhook_delivery_retry i t m)"
  shows "pool_step w (handle_failure E x m w)"
  using assms by (simp add: handle_failure_def pool_query)

lemma deliver_one_step:
  assumes "\<And>i m. within (mark_webhook_delivery_exhausted i m)"
    and "\<And>i t m. within (mark_webhook_delivery_retry i t m)"
    and "\<And>t i. within (mark_webhook_delivery_delivered t i)"
  shows "pool_step w (deliver_one E cd w)"
proof -
  let ?w1 = "w\<lparr>w_hooks := w_hooks w @ [(whd_id (fst cd), signed_request E (time_now E 0 w) cd)]\<rparr>"
  have w1: "pool_step w ?w1" by (simp add: pool_step_def R_refl)
  have "pool_step ?w1 (handle_failure E x m ?w1)" "pool_step w (handle_failure E x m w)" for x m
    by (rule handle_failure_step [OF assms(1,2)])+
  moreover have "pool_step ?w1 (snd (query E Pool (mark_webhook_delivery_delivered t i) ?w1))" for t i
    by (rule pool_query [OF assms(3)])
  ultimately show ?thesis
    using pool.trans [OF w1]
    by (cases "env_hook E (length (w_hooks w)) (signed_request E (time_now E 0 w) cd)")
      (simp_all add: deliver_one_def Let_def)
qed

lemma process_batch_step:
  assumes "\<And>i m. within (mark_webhook_delivery_exhausted i m)"
    and "\<And>i t m. within (mark_webhook_delivery_retry i t m)"
    and "\<And>t i. within (mark_webhook_delivery_delivered t i)"
    and "\<And>l n k t. within (claim_due_webhook_deliveries l n k t)"
  shows "pool_step w (snd (process_batch E wk w))"
proof -
  obtain r w1 where q: "query E Pool (claim_due_webhook_deliveries (env_locked E (w_calls w)) (w_dbnow w)
      (wk_batch wk) (w_now w + wk_lease wk)) w = (r, w1)" by fastforce
  have "pool_step v (fold (deliver_one E) ds v)" for ds v
  proof (induction ds arbitrary: v)
    case (Cons d ds)
    show ?case
      using pool.trans [OF deliver_one_step [OF assms(1-3)] Cons] by simp
  qed (simp add: pool.refl)
  moreover have "pool_step w w1"
    using pool_query [OF assms(4), of w E] q by (metis snd_conv)
  ultimately show ?thesis
    using q by (cases r) (auto simp: process_batch_def intro: pool.trans)
qed

end

section \<open>Every request keeps the constraints of the schema\<close>

lemma keeps_create_invoice: "ok_rel.pool_step w (snd (create_invoice_handler E b body w))"
  by (intro ok_rel.create_invoice_step ok_rel_within keeps_ok_intros)

lemma keeps_void: "ok_rel.pool_step w (snd (void_invoice E b i w))"
  by (intro ok_rel.void_step ok_rel_within keeps_ok_intros)

lemma keeps_pay: "ok_rel.pool_step w (snd (pay_invoice E b header i body w))"
  by (intro ok_rel.pay_step ok_rel_within keeps_ok_intros)

lemma keeps_dispatch: "ok_rel.pool_step w (snd (dispatch E b req w))"
  by (cases req)
    (simp_all add: dispatch_def ok_rel.health_step ok_rel.read_steps keeps_create_invoice keeps_void
      keeps_pay ok_rel.create_customer_step ok_rel.create_endpoint_step ok_rel_within keeps_ok_intros)

lemma keeps_batch: "ok_rel.pool_step w (snd (process_batch E wk w))"
  by (intro ok_rel.process_batch_step ok_rel_within keeps_ok_intros)

text \<open>A request: health, refused by the middleware, or handled for the business of the key.\<close>

interpretation same: step_relation same_data
  by unfold_locales (auto intro: same_data_refl same_data_trans)

lemma same_data_select [step_intros]: "same_data w (snd (query E Pool (select_one P table) w))"
  using select_pool [of E P table w] by (metis prod.collapse)

lemma middleware_same: "same_data w (snd (auth_middleware E header w))"
  unfolding auth_middleware_def get_api_key_by_prefix_def by (intro step_intros)

lemma serve_authenticated:
  "req \<noteq> Health \<Longrightarrow> serve E header req w =
     (case auth_middleware E header w of
        (Inl msg, w1) \<Rightarrow> (Aborted 401 (new_error_response ''unauthorized'' msg), w1)
      | (Inr (b, _), w1) \<Rightarrow> dispatch E b req w1)"
  by (cases req; hypsubst) (simp_all add: serve_def)

lemma serveE:
  assumes "serve E header req w = (ans, w')"
  obtains (idle) "same_data w w'"
  | (handled) b kid w1 where "auth_middleware E header w = (Inr (b, kid), w1)" "same_data w w1"
      "dispatch E b req w1 = (ans, w')" "req \<noteq> Health"
proof (cases "req = Health")
  case True
  with assms idle show ?thesis by (auto simp: serve_def health_def same_data_def Let_def split: if_splits)
next
  case False
  note run = assms [unfolded serve_authenticated [OF False]]
  obtain r w1 where a: "auth_middleware E header w = (r, w1)" by fastforce
  with middleware_same [of w E header] have "same_data w w1" by simp
  with run a False idle handled show ?thesis by (cases r) auto
qed

text \<open>What the handlers and the worker respect, every run of the service respects.\<close>

context db_relation
begin

lemma serve_step:
  assumes "\<And>b req w. pool_step w (snd (dispatch E b req w))"
  shows "pool_step w (snd (serve E header req w))"
proof -
  obtain ans w' where run: "serve E header req w = (ans, w')" by fastforce
  then have "pool_step w w'"
  proof (cases rule: serveE)
    case idle
    then show ?thesis by (simp add: same_data_def pool_step_def R_refl)
  next
    case (handled b kid w1)
    with assms [of w1 b req] show ?thesis by (simp add: same_data_def pool_step_def)
  qed
  with run show ?thesis by simp
qed

lemma handle_step:
  assumes "\<And>b req w. pool_step w (snd (dispatch E b req w))"
    and "\<And>wk w. pool_step w (snd (process_batch E wk w))"
  shows "pool_step w (handle E ev w)"
proof -
  obtain dbnow now e where ev: "ev = (dbnow, now, e)" by (cases ev)
  have "pool_step (w\<lparr>w_dbnow := dbnow, w_now := now\<rparr>) (handle E ev w)"
    by (cases e) (simp_all add: handle_def ev Let_def assms serve_step)
  then show ?thesis by (simp add: pool_step_def)
qed

lemma run_step:
  assumes "\<And>b req w. pool_step w (snd (dispatch E b req w))"
    and "\<And>wk w. pool_step w (snd (process_batch E wk w))"
  shows "pool_step w (run_events E evs w)"
proof (induction evs arbitrary: w)
  case (Cons ev evs)
  from pool.trans [OF handle_step [OF assms] Cons] show ?case by (simp add: run_events_def)
qed (simp add: run_events_def pool.refl)

end

lemmas keeps_serve = ok_rel.serve_step [OF keeps_dispatch]
lemmas keeps_run = ok_rel.run_step [OF keeps_dispatch keeps_batch]

end
