(* ===== verification/Field_Frame.thy ===== *)
theory Field_Frame
  imports Service
begin

text \<open>
  Fields of the state that no statement, transaction or id generator touches: the requests sent to
  the provider, the requests sent to webhook receivers, the clocks. The locale carries such a field
  once through every handler and through the worker; it is instantiated at each of the fields.
\<close>

locale kept_field =
  fixes f :: "world \<Rightarrow> 'a"
  assumes f_calls: "f (w\<lparr>w_calls := k\<rparr>) = f w"
    and f_db: "f (w\<lparr>w_db := d\<rparr>) = f w"
    and f_tx: "f (w\<lparr>w_tx := t\<rparr>) = f w"
    and f_ids: "f (w\<lparr>w_ids := k\<rparr>) = f w"
begin

definition kept :: "world \<Rightarrow> world \<Rightarrow> bool" where
  "kept w w' \<longleftrightarrow> f w' = f w"

lemma kept_relation: "step_relation kept"
  by unfold_locales (simp_all add: kept_def)

end

sublocale kept_field \<subseteq> kept: step_relation kept
  by (rule kept_relation)

section \<open>Requests\<close>

context kept_field
begin

lemma kept_query [step_intros]: "kept w (snd (query E c st w))"
  by (auto simp: kept_def query_def run_pool_def run_tx_def Let_def f_calls f_db f_tx
      split: conn.split outcome.split sum.split option.split prod.split bool.split db_error.split)

lemma kept_gen_id [step_intros]:
  assumes "\<And>i w1. kept w1 (snd (g i w1))"
  shows "kept w (snd (case gen_id E w of (i, w1) \<Rightarrow> g i w1))"
  using assms [of "w\<lparr>w_ids := Suc (w_ids w)\<rparr>" "env_ids E (w_ids w)"]
  by (simp add: gen_id_def kept_def f_ids)

lemma kept_with_tx [step_intros]:
  assumes "\<And>w1. kept w1 (snd (body w1))"
  shows "kept w (snd (with_tx E emb body w))"
proof -
  have "f w2 = f w1" if "body w1 = (q, w2)" for w1 q w2
    using assms [of w1] that by (simp add: kept_def)
  moreover have "f w1 = f w" if "begin_tx E w = (r, w1)" for w w1 r
    using that by (auto simp: begin_tx_def Let_def f_calls f_tx split: if_splits)
  moreover have "f w1 = f w" if "commit E w = (r, w1)" for w w1 r
    using that by (auto simp: commit_def Let_def f_calls f_tx f_db
        split: outcome.splits option.splits prod.splits bool.splits)
  moreover have "f (rollback w) = f w" for w by (simp add: rollback_def f_tx)
  ultimately show ?thesis
    by (auto simp: kept_def with_tx_def split: prod.split sum.split)
qed

lemma kept_queue [step_intros]: "kept w (snd (queue_deliveries E c b v ev payload w))"
proof -
  have "kept w (snd (queue_loop E c v ev payload eps w))" for eps w
    by (induction eps arbitrary: w) (auto simp: Let_def kept.refl intro!: step_intros)
  then show ?thesis unfolding queue_deliveries_def by (intro step_intros)
qed

lemma kept_items [step_intros]: "kept w (snd (reply_with_items E i iv w))"
  unfolding reply_with_items_def by (intro step_intros)

lemma kept_reads:
  "kept w (snd (get_customer_handler E b i w))" "kept w (snd (list_customers_handler E b w))"
  "kept w (snd (get_invoice_handler E b i w))" "kept w (snd (list_invoices_handler E b w))"
  "kept w (snd (get_endpoint E b i w))" "kept w (snd (list_endpoints E b w))"
  unfolding get_customer_handler_def list_customers_handler_def get_invoice_handler_def
    list_invoices_handler_def get_endpoint_def list_endpoints_def
  by (intro step_intros)+

lemma kept_writes:
  "kept w (snd (create_customer_handler E b body w))" "kept w (snd (create_endpoint E b u random w))"
  "kept w (snd (void_invoice E b i w))"
  unfolding create_customer_handler_def create_endpoint_def void_invoice_def Let_def
  by (intro step_intros)+

lemma kept_create_invoice: "kept w (snd (create_invoice_handler E b req w))"
proof -
  have "kept w (snd (create_items E ivc items w))" for ivc items w
  proof (induction items arbitrary: w)
    case (Cons itm items)
    show ?case unfolding create_items.simps Let_def by (intro step_intros Cons)
  qed (simp add: kept.refl)
  then have "kept w (snd (create_body E b ivc cust amount st due r w))" for ivc cust amount st due r w
    unfolding create_body_def Let_def by (intro step_intros kept.andThen)
  then show ?thesis unfolding create_invoice_handler_def Let_def by (intro step_intros)
qed

lemma kept_health: "kept w (snd (health E pool w))"
  by (simp add: kept_def health_def Let_def f_calls)

lemma kept_middleware: "kept w (snd (auth_middleware E header w))"
  unfolding auth_middleware_def by (intro step_intros)

text \<open>A payment keeps what the request to the provider does not touch.\<close>

lemma kept_pay:
  assumes psp: "\<And>w p. f (w\<lparr>w_psp := p\<rparr>) = f w"
  shows "kept w (snd (pay_invoice E b header raw body w))"
proof -
  have claim: "kept w (snd (claim_body E b ivc key hash w))" for ivc key hash w
    unfolding claim_body_def claim_new_def Let_def by (intro step_intros)
  have settle: "kept w (snd (settle E att iv result b w))" for att iv result w
    unfolding settle_def Let_def by (intro step_intros kept.andThen)
  have finalize: "kept w (snd (finalize_body E idem att iv result b w))" for idem att iv result w
    unfolding finalize_body_def Let_def by (intro step_intros settle)
  have card: "kept w (snd (charge_card E req w))" for req w
    by (simp add: charge_card_def kept_def psp)
  have "kept w (snd (pay_claimed E b token cl w))" for token cl w
    by (cases cl)
      (simp_all add: pay_claimed_def kept.refl, intro step_intros kept.andThen card,
       unfold finalize_def, intro step_intros finalize)
  then show ?thesis
    unfolding pay_invoice_def Let_def claim_def by (intro step_intros claim)
qed

lemma kept_dispatch:
  assumes "(\<exists>key i body. req = PostPay key i body) \<Longrightarrow> (\<And>w p. f (w\<lparr>w_psp := p\<rparr>) = f w)"
  shows "kept w (snd (dispatch E b req w))"
  using assms
  by (cases req) (simp_all add: dispatch_def kept_health kept_reads kept_writes kept_create_invoice
      kept_pay)

lemma kept_serve:
  assumes "\<And>w p. f (w\<lparr>w_psp := p\<rparr>) = f w"
  shows "kept w (snd (serve E header req w))"
proof (cases "req = Health")
  case True
  then show ?thesis by (simp add: serve_def kept_health)
next
  case False
  note [step_intros] = kept_middleware kept_dispatch [OF assms]
  show ?thesis unfolding serve_authenticated [OF False] by (intro step_intros)
qed

section \<open>The worker\<close>

lemma kept_failure: "kept w (handle_failure E d m w)"
  by (simp add: handle_failure_def kept_query)

text \<open>A batch keeps what the requests to the receivers do not touch.\<close>

lemma kept_deliver:
  assumes "\<And>w h. f (w\<lparr>w_hooks := h\<rparr>) = f w"
  shows "kept w (deliver_one E cd w)"
proof -
  have sent: "kept w v" if "kept (w\<lparr>w_hooks := hs\<rparr>) v" for w v hs
    using that by (simp add: kept_def assms)
  show ?thesis
    by (cases "env_hook E (length (w_hooks w)) (signed_request E (time_now E 0 w) cd)")
      (auto simp: deliver_one_def Let_def intro: kept_failure sent kept_query)
qed

lemma kept_batch:
  assumes "\<And>w h. f (w\<lparr>w_hooks := h\<rparr>) = f w"
  shows "kept w (snd (process_batch E wk w))"
proof -
  have "kept w (fold (deliver_one E) ds w)" for ds w
    by (induction ds arbitrary: w) (auto simp: kept.refl intro: kept.trans kept_deliver [OF assms])
  then show ?thesis
    unfolding process_batch_def
    using kept_query [of w E Pool "claim_due_webhook_deliveries (env_locked E (w_calls w)) (w_dbnow w)
        (wk_batch wk) (w_now w + wk_lease wk)"]
    by (auto split: prod.split sum.split intro: kept.trans)
qed

end

section \<open>The fields\<close>

interpretation psp_log: kept_field w_psp
  by unfold_locales simp_all

interpretation hook_log: kept_field w_hooks
  by unfold_locales simp_all

interpretation clocks: kept_field "\<lambda>w. (w_dbnow w, w_now w)"
  by unfold_locales simp_all

end
