(* ===== verification/Concurrent_Service.thy ===== *)
theory Concurrent_Service
  imports Field_Frame
begin

text \<open>
  Payments and voids that interleave step by step with each other and, between their steps, with
  every other event of the running service: the other requests and the batches of the worker. All
  of these leave payments alone, so the theory of interleavings applies to the actual service.
\<close>

section \<open>The other events leave payments alone\<close>

lemma untouched_trans:
  assumes "untouched d d'" "untouched d' d''"
  shows "untouched d d''"
  unfolding untouched_def
proof (intro conjI ballI impI)
  fix iv assume iv: "iv \<in> set (invoices d'')" "inv_state iv = OPEN" "inv_id iv \<in> inv_id ` set (invoices d)"
  with assms(1) have "inv_id iv \<in> inv_id ` set (invoices d')" by (auto simp: untouched_def)
  with iv(1,2) assms(2) obtain v where v: "v \<in> set (invoices d')" "inv_id v = inv_id iv" "inv_state v = OPEN"
    unfolding untouched_def by blast
  with assms(1) iv(3) obtain u where "u \<in> set (invoices d)" "inv_id u = inv_id v" "inv_state u = OPEN"
    unfolding untouched_def by metis
  with v(2) show "\<exists>iv0 \<in> set (invoices d). inv_id iv0 = inv_id iv \<and> inv_state iv0 = OPEN" by auto
next
  show "payment_attempts d'' = payment_attempts d" using assms by (simp add: untouched_def)
  show "db_ok d''" if "db_ok d" using that assms by (simp add: untouched_def)
  have "inv_id ` set (invoices d) \<subseteq> inv_id ` set (invoices d')"
    "inv_id ` set (invoices d') \<subseteq> inv_id ` set (invoices d'')"
    using assms by (simp_all add: untouched_def)
  then show "inv_id ` set (invoices d) \<subseteq> inv_id ` set (invoices d'')" by (rule order_trans)
qed

interpretation apart_from: db_relation untouched
  by unfold_locales (simp add: untouched_def, blast, rule untouched_trans)

lemma untouched_same:
  assumes "keeps_ok st" "\<And>d x d'. st d = Inr (x, d') \<Longrightarrow>
    invoices d' = invoices d \<and> payment_attempts d' = payment_attempts d"
  shows "apart_from.within st"
  unfolding apart_from.within_def
proof (intro allI impI)
  fix d x d' assume run: "st d = Inr (x, d')"
  have "db_ok d \<Longrightarrow> db_ok d'" using keeps_okD [OF assms(1) _ run] .
  with assms(2) [OF run] show "untouched d d'" by (auto simp: untouched_def)
qed

lemma untouched_inserts:
  "apart_from.within (create_customer now i b nm em)"
  "apart_from.within (create_webhook_endpoint now i b u sec)"
  "apart_from.within (Queries.create_invoice_item now i v ds q price)"
  "apart_from.within (create_webhook_delivery jb now i ep v ev p)"
  by (intro untouched_same keeps_ok_intros, (auto simp: stmt_defs elim!: insert_one_InrE)[1])+

lemma untouched_worker:
  "apart_from.within (mark_webhook_delivery_exhausted i m)"
  "apart_from.within (mark_webhook_delivery_retry i t m)"
  "apart_from.within (mark_webhook_delivery_delivered t i)"
  "apart_from.within (claim_due_webhook_deliveries l n k t)"
  by (intro untouched_same keeps_ok_intros,
      (auto simp: stmt_defs Let_def split: if_splits elim!: update_one_InrE)[1])+

lemma untouched_invoice: "apart_from.within (Queries.create_invoice now i b c t cur s due)"
  unfolding apart_from.within_def
proof (intro allI impI)
  fix d x d' assume run: "Queries.create_invoice now i b c t cur s due d = Inr (x, d')"
  have "db_ok d \<Longrightarrow> db_ok d'"
    using keeps_okD [OF keeps_ok_create_invoice _ run] .
  with run show "untouched d d'"
    by (auto simp: untouched_def stmt_defs occurs_iff elim!: insert_one_InrE)
qed

lemma untouched_void: "apart_from.within (update_invoice_state now i b VOID)"
  unfolding apart_from.within_def
proof (intro allI impI)
  fix d x d' assume run: "update_invoice_state now i b VOID d = Inr (x, d')"
  have "db_ok d \<Longrightarrow> db_ok d'"
    using keeps_okD [OF keeps_ok_updates(1) _ run] .
  moreover have "inv_id ` set (invoices d') = inv_id ` set (invoices d)"
    using run unfolding update_invoice_state_def
    by (elim update_one_InrE) (simp add: image_update_where)
  moreover have "iv \<in> set (invoices d)" if "iv \<in> set (invoices d')" "inv_state iv = OPEN" for iv
    using run that by (auto simp: stmt_defs set_update_where split: if_splits elim!: update_one_InrE)
  moreover have "payment_attempts d' = payment_attempts d"
    using run by (auto simp: stmt_defs elim!: update_one_InrE)
  ultimately show "untouched d d'" unfolding untouched_def by blast
qed

section \<open>The concurrent service\<close>

text \<open>The events that run between the steps of payments and voids: all but payments.\<close>

fun calm :: "instant \<times> instant \<times> event \<Rightarrow> bool" where
  "calm (dbnow, now, Request header (PostPay key i body)) = False"
| "calm ev = True"

lemma elsewhere_iff:
  "w_tx w = None \<Longrightarrow> elsewhere w w' \<longleftrightarrow> psp_log.kept w w' \<and> apart_from.pool_step w w'"
  by (auto simp: elsewhere_def psp_log.kept_def apart_from.pool_step_def)

lemma calm_dispatch:
  assumes "\<And>key i body. req \<noteq> PostPay key i body"
  shows "psp_log.kept w (snd (dispatch E b req w)) \<and> apart_from.pool_step w (snd (dispatch E b req w))"
proof
  show "psp_log.kept w (snd (dispatch E b req w))"
    by (rule psp_log.kept_dispatch) (use assms in blast)
  show "apart_from.pool_step w (snd (dispatch E b req w))"
  proof (cases req)
    case (PostPay key i body)
    with assms show ?thesis by blast
  qed (simp_all add: dispatch_def apart_from.health_step
      apart_from.read_steps apart_from.create_customer_step apart_from.create_endpoint_step
      apart_from.create_invoice_step apart_from.void_step untouched_inserts untouched_invoice
      untouched_void)
qed

lemma calm_elsewhere:
  assumes "calm ev" "w_tx w = None"
  shows "elsewhere w (handle E ev w)"
proof -
  obtain dbnow now e where ev: "ev = (dbnow, now, e)" by (cases ev)
  let ?w = "w\<lparr>w_dbnow := dbnow, w_now := now\<rparr>"
  have "psp_log.kept ?w (handle E ev w) \<and> apart_from.pool_step ?w (handle E ev w)"
  proof (cases e)
    case (Tick wk)
    have "apart_from.pool_step ?w (snd (process_batch E wk ?w))"
      by (intro apart_from.process_batch_step untouched_worker)
    with psp_log.kept_batch show ?thesis by (simp add: handle_def ev Tick Let_def)
  next
    case (Request header req)
    with assms(1) ev have req: "\<And>key i body. req \<noteq> PostPay key i body" by (cases req) auto
    obtain ans w' where run: "serve E header req ?w = (ans, w')" by fastforce
    then have "psp_log.kept ?w w' \<and> apart_from.pool_step ?w w'"
    proof (cases rule: serveE)
      case idle
      then show ?thesis
        by (simp add: same_data_def psp_log.kept_def apart_from.pool_step_def apart_from.R_refl)
    next
      case (handled b kid w1)
      with calm_dispatch [OF req, where w = w1 and E = E and b = b] show ?thesis
        by (simp add: same_data_def psp_log.kept_def apart_from.pool_step_def)
    qed
    with run show ?thesis by (simp add: handle_def ev Request Let_def)
  qed
  with assms(2) show ?thesis
    by (simp add: elsewhere_def psp_log.kept_def apart_from.pool_step_def)
qed

text \<open>
  One step of the concurrent service: a payment or void in progress makes its next step, is cut
  off for good by a crash, or arrives; or another event is handled.
\<close>

inductive service_moves :: "env \<Rightarrow> system \<Rightarrow> system \<Rightarrow> bool" for E :: env where
  run: "i < length js \<Longrightarrow> advance E (js ! i) w = (j, w') \<Longrightarrow> service_moves E (js, w) (js[i := j], w')"
| crash: "i < length js \<Longrightarrow> service_moves E (js, w) (js[i := Crashed], w)"
| arrive: "starting j \<Longrightarrow> service_moves E (js, w) (js @ [j], w)"
| other: "calm ev \<Longrightarrow> service_moves E (js, w) (js, handle E ev w)"

lemma service_moves_refine:
  assumes "service_moves E s s'" "w_tx (snd s) = None"
  shows "moves E s s'"
  using assms by (cases rule: service_moves.cases) (auto intro: moves.intros calm_elsewhere)

lemma service_reachable:
  assumes "(service_moves E)\<^sup>*\<^sup>* s0 s" "system_ok E s0"
  shows "reachable E s0 s"
  using assms(1)
proof (induction rule: rtranclp_induct)
  case (step s s')
  have "w_tx (snd s) = None"
    using reachable_ok [OF step.IH assms(2)] by (simp add: system_ok_def)
  with step show ?case by (blast intro: reachable.step service_moves_refine)
qed (rule reachable.start)

text \<open>A schedule of the jobs is such a run.\<close>

lemma schedule_runs: "(service_moves E)\<^sup>*\<^sup>* s (run_schedule E is s)"
proof (induction E "is" s rule: run_schedule.induct)
  case (2 E i "is" js w)
  show ?case
  proof (cases "i < length js")
    case True
    obtain j w' where a: "advance E (js ! i) w = (j, w')" by fastforce
    from converse_rtranclp_into_rtranclp [of "service_moves E", OF service_moves.run [OF True a]
        2 [OF True a [symmetric]]] True a
    show ?thesis by simp
  qed simp
qed simp

lemma jobs_start: "list_all starting js \<Longrightarrow> (service_moves E)\<^sup>*\<^sup>* ([], w) (js, w)"
proof (induction js rule: rev_induct)
  case (snoc j js)
  then have "(service_moves E)\<^sup>*\<^sup>* ([], w) (js, w)" "service_moves E (js, w) (js @ [j], w)"
    by (auto intro: service_moves.arrive)
  then show ?case by (rule rtranclp.rtrancl_into_rtrancl)
qed simp

lemma schedule_run: "list_all starting js \<Longrightarrow> (service_moves E)\<^sup>*\<^sup>* ([], w) (run_schedule E is (js, w))"
  by (rule rtranclp_trans [OF jobs_start schedule_runs])

section \<open>No double charge\<close>

text \<open>
  C1. No double charge in the concurrent service: however the steps of any number of payments and
  voids interleave with each other, with every other request, with the batches of the worker and
  with crashes, and whatever statements fail, every request sent to the provider belongs to an
  attempt of its own; of two requests for the same invoice at least one was declined by the
  provider; an invoice has at most one attempt that is not FAILED, and it is not OPEN any more if
  that attempt has succeeded; and the constraints of the schema hold.
\<close>

theorem no_double_charge:
  assumes "(service_moves E)\<^sup>*\<^sup>* ([], w0) (js, w)" "w_tx w0 = None" "db_ok (w_db w0)"
    and "attempts_ok (w_db w0)" "w_psp w0 = []"
  shows "distinct (map crq_psp_request (w_psp w)) \<and> attempts_ok (w_db w) \<and> db_ok (w_db w) \<and>
    (\<forall>k < length (w_psp w). \<forall>l < length (w_psp w).
       \<forall>a \<in> set (payment_attempts (w_db w)). \<forall>a' \<in> set (payment_attempts (w_db w)).
         att_psp_request a = crq_psp_request (w_psp w ! k) \<longrightarrow>
         att_psp_request a' = crq_psp_request (w_psp w ! l) \<longrightarrow> att_invoice a = att_invoice a' \<longrightarrow>
         k = l \<or> declined (psp_verdict E w k) \<or> declined (psp_verdict E w l))"
  by (rule charged_once [OF service_reachable [OF assms(1) system_ok_initial [OF assms(2-)]] assms(2-)])

end
