(* ===== verification/Concurrent_Examples.thy ===== *)
theory Concurrent_Examples
  imports Concurrent_Service Scenario
begin

text \<open>
  Two interleavings of a payment and a void of the same invoice that the code allows, and the
  theorem on double charges at one of them.
\<close>

definition rivals :: "job list" where
  "rivals = [PayClaim 1 3 ''k1'' ''tok_success'', VoidRead 1 3]"

definition overtaken :: system where
  "overtaken = run_schedule demo_env [1, 0, 0, 0, 1] (rivals, demo_world)"

definition stranded :: system where
  "stranded = run_schedule demo_env [0, 0, 1, 1, 0] (rivals, demo_world)"

lemma rivals_reachable: "(service_moves demo_env)\<^sup>*\<^sup>* ([], demo_world) (run_schedule demo_env is (rivals, demo_world))"
  by (rule schedule_run) (simp add: rivals_def)

text \<open>An invoice that is VOID although an attempt on it has the given status.\<close>

definition void_with :: "payment_status \<Rightarrow> database \<Rightarrow> bool" where
  "void_with st d =
     list_ex (\<lambda>iv. inv_state iv = VOID
        \<and> list_ex (\<lambda>a. att_invoice a = inv_id iv \<and> att_status a = st) (payment_attempts d)) (invoices d)"

lemma void_with_iff:
  "void_with st d \<longleftrightarrow> (\<exists>iv \<in> set (invoices d). inv_state iv = VOID
     \<and> (\<exists>a \<in> set (payment_attempts d). att_invoice a = inv_id iv \<and> att_status a = st))"
  by (simp add: void_with_def list_ex_iff)

lemma overtaken_rows: "void_with SUCCEEDED (w_db (snd overtaken))"
  by code_simp

text \<open>
  C30. A void can overtake a payment: if it reads the invoice before the payment is recorded and
  writes after it, the invoice ends VOID although its attempt has SUCCEEDED. The update of the
  state is not conditional on the state that was read.
\<close>

theorem void_overtakes_payment:
  "\<exists>js w. (service_moves demo_env)\<^sup>*\<^sup>* ([], demo_world) (js, w)
     \<and> (\<exists>iv \<in> set (invoices (w_db w)). inv_state iv = VOID
        \<and> (\<exists>a \<in> set (payment_attempts (w_db w)). att_invoice a = inv_id iv \<and> att_status a = SUCCEEDED))"
  using rivals_reachable [of "[1, 0, 0, 0, 1]"] overtaken_rows
  unfolding void_with_iff by (cases overtaken) (auto simp: overtaken_def)

definition succeeded :: "psp_error + charge_result \<Rightarrow> bool" where
  "succeeded result = (case result of Inl _ \<Rightarrow> False | Inr res \<Rightarrow> cr_status res = ''succeeded'')"

lemma stranded_rows:
  "void_with PROCESSING (w_db (snd stranded)) \<and> length (w_psp (snd stranded)) = 1
   \<and> succeeded (psp_verdict demo_env (snd stranded) 0)"
  by code_simp

lemma stranded_answer:
  "fst stranded ! 0 = PayDone (fail_with 500 ''internal_error'' ''Failed to finalize payment'')"
  by code_simp

text \<open>
  C31. A void can strand a payment: if the invoice is voided between the claim and the recording,
  the provider has charged the card, the payer is answered with the internal error, and the
  attempt stays PROCESSING on a VOID invoice.
\<close>

theorem void_strands_payment:
  "\<exists>js w. (service_moves demo_env)\<^sup>*\<^sup>* ([], demo_world) (js, w)
     \<and> js ! 0 = PayDone (fail_with 500 ''internal_error'' ''Failed to finalize payment'')
     \<and> length (w_psp w) = 1
     \<and> (\<exists>res. psp_verdict demo_env w 0 = Inr res \<and> cr_status res = ''succeeded'')
     \<and> (\<exists>iv \<in> set (invoices (w_db w)). inv_state iv = VOID
        \<and> (\<exists>a \<in> set (payment_attempts (w_db w)). att_invoice a = inv_id iv \<and> att_status a = PROCESSING))"
proof -
  obtain js w where s: "stranded = (js, w)" by fastforce
  note rows = stranded_rows [unfolded s snd_conv void_with_iff]
  have "\<exists>res. psp_verdict demo_env w 0 = Inr res \<and> cr_status res = ''succeeded''"
    using rows by (auto simp: succeeded_def split: sum.splits)
  moreover have "(service_moves demo_env)\<^sup>*\<^sup>* ([], demo_world) (js, w)"
    using rivals_reachable [of "[0, 0, 1, 1, 0]"] s by (simp add: stranded_def)
  ultimately show ?thesis
    using rows stranded_answer [unfolded s fst_conv] by blast
qed

theorem no_double_charge_witness:
  "\<exists>js w. (service_moves demo_env)\<^sup>*\<^sup>* ([], demo_world) (js, w) \<and> length (w_psp w) = 1
     \<and> attempts_ok (w_db w) \<and> db_ok (w_db w)"
proof -
  obtain js w where s: "stranded = (js, w)" by fastforce
  have r: "(service_moves demo_env)\<^sup>*\<^sup>* ([], demo_world) (js, w)"
    using rivals_reachable [of "[0, 0, 1, 1, 0]"] s by (simp add: stranded_def)
  have start: "w_tx demo_world = None" "db_ok (w_db demo_world)" "w_psp demo_world = []"
      "attempts_ok (w_db demo_world)"
    by (simp_all add: demo_world_def demo_db_ok attempts_ok_def) (simp add: demo_db_def empty_db_def)
  from no_double_charge [OF r start(1,2,4,3)] r stranded_rows [unfolded s snd_conv]
  show ?thesis by blast
qed

end
