(* ===== verification/Ledger.thy ===== *)
theory Ledger
  imports Service
begin

text \<open>
  The invariant of the books: every invoice's total is the exact sum of its items, an invoice is
  PAID exactly if a payment attempt on it has succeeded, and it has at most one attempt that has
  not failed. Every request and every run of the worker keeps it, one after the other; what is
  left of it when they interleave is in the theory on the shared ledger.
\<close>

section \<open>The invariant\<close>

definition rows_of :: "int64 \<Rightarrow> database \<Rightarrow> invoice_item list" where
  "rows_of i d = filter (\<lambda>r. itm_invoice r = i) (invoice_items d)"

definition totals_ok :: "database \<Rightarrow> bool" where
  "totals_ok d \<longleftrightarrow>
     (\<forall>iv \<in> set (invoices d). sint (inv_total iv) = items_total (rows_of (inv_id iv) d))"

definition has_succeeded :: "database \<Rightarrow> int64 \<Rightarrow> bool" where
  "has_succeeded d i \<longleftrightarrow>
     (\<exists>a \<in> set (payment_attempts d). att_invoice a = i \<and> att_status a = SUCCEEDED)"

definition paid_ok :: "database \<Rightarrow> bool" where
  "paid_ok d \<longleftrightarrow>
     (\<forall>iv \<in> set (invoices d). inv_state iv = PAID \<longleftrightarrow> has_succeeded d (inv_id iv))"

definition books_ok :: "database \<Rightarrow> bool" where
  "books_ok d \<longleftrightarrow> db_ok d \<and> totals_ok d \<and> paid_ok d \<and> attempts_ok d"

lemmas books_defs = books_ok_def totals_ok_def paid_ok_def has_succeeded_def rows_of_def

section \<open>Statements that leave the books alone\<close>

definition same_books :: "database \<Rightarrow> database \<Rightarrow> bool" where
  "same_books d d' \<longleftrightarrow>
     invoices d' = invoices d \<and> invoice_items d' = invoice_items d
     \<and> payment_attempts d' = payment_attempts d \<and> (db_ok d \<longrightarrow> db_ok d')"

interpretation same_books: db_relation same_books
  by unfold_locales (auto simp: same_books_def)

lemma same_books_ok: "same_books d d' \<Longrightarrow> books_ok d \<Longrightarrow> books_ok d'"
  by (simp add: same_books_def books_defs attempts_ok_def)

lemma same_books_within:
  "keeps_ok st \<Longrightarrow>
   (\<And>d x d'. st d = Inr (x, d') \<Longrightarrow> invoices d' = invoices d \<and> invoice_items d' = invoice_items d
      \<and> payment_attempts d' = payment_attempts d) \<Longrightarrow> same_books.within st"
  by (auto simp: same_books.within_def same_books_def dest: keeps_okD)

lemma same_books_inserts:
  "same_books.within (create_customer now i b nm em)
   \<and> same_books.within (create_webhook_endpoint now i b u sec)"
  by (intro conjI same_books_within keeps_ok_intros)
    (auto simp: stmt_defs elim!: insert_one_InrE)

lemma same_books_marks:
  "same_books.within (mark_webhook_delivery_exhausted i m)
   \<and> same_books.within (mark_webhook_delivery_retry i t m)
   \<and> same_books.within (mark_webhook_delivery_delivered t i)"
  by (intro conjI same_books_within keeps_ok_intros)
    (auto simp: stmt_defs elim!: update_one_InrE)

lemma same_books_claim: "same_books.within (claim_due_webhook_deliveries l n k t)"
  by (intro same_books_within keeps_ok_intros) (auto simp: stmt_defs Let_def split: if_splits)

lemmas same_books_writes = same_books_inserts [THEN conjunct1] same_books_inserts [THEN conjunct2]
  same_books_marks [THEN conjunct1] same_books_marks [THEN conjunct2, THEN conjunct1]
  same_books_marks [THEN conjunct2, THEN conjunct2] same_books_claim

section \<open>Creating, paying and voiding\<close>

lemma attempt_invoice:
  "db_ok d \<Longrightarrow> a \<in> set (payment_attempts d) \<Longrightarrow> att_invoice a \<in> inv_id ` set (invoices d)"
  by (simp add: db_ok_defs)

lemma fresh_invoice:
  assumes "db_ok d" "i \<notin> inv_id ` set (invoices d)"
  shows "rows_of i d = []" "\<not> has_succeeded d i"
  using assms by (auto simp: rows_of_def has_succeeded_def db_ok_defs filter_empty_conv)

lemma created_parts:
  assumes "invoice_created b req iv rows new d d'" "db_ok d"
  shows "invoices d' = invoices d @ [iv]" "inv_state iv = DRAFT \<or> inv_state iv = OPEN"
    and "inv_id iv \<notin> inv_id ` set (invoices d)" "\<not> has_succeeded d (inv_id iv)"
    and "has_succeeded d' = has_succeeded d"
    and "totals_ok d \<Longrightarrow> totals_ok d'" "attempts_ok d \<Longrightarrow> attempts_ok d'"
proof -
  have iv: "inv_id iv \<notin> inv_id ` set (invoices d)" "inv_state iv \<in> {DRAFT, OPEN}"
      "sint (inv_total iv) = items_total rows" "\<forall>r \<in> set rows. itm_invoice r = inv_id iv"
    and d': "invoices d' = invoices d @ [iv]" "invoice_items d' = invoice_items d @ rows"
      "payment_attempts d' = payment_attempts d"
    using assms(1) by (auto simp: invoice_created_def)
  show "invoices d' = invoices d @ [iv]" "inv_state iv = DRAFT \<or> inv_state iv = OPEN"
    "inv_id iv \<notin> inv_id ` set (invoices d)"
    using iv d' by auto
  note new = fresh_invoice [OF assms(2) iv(1)]
  show "\<not> has_succeeded d (inv_id iv)" by (rule new)
  show "has_succeeded d' = has_succeeded d" by (auto simp: has_succeeded_def d' fun_eq_iff)
  have "rows_of (inv_id iv) d' = rows"
    using new(1) iv(4) by (simp add: rows_of_def d')
  moreover have "rows_of (inv_id v) d' = rows_of (inv_id v) d" if "v \<in> set (invoices d)" for v
    using that iv(1,4) by (auto simp: rows_of_def d' filter_empty_conv)
  ultimately show "totals_ok d'" if "totals_ok d"
    using that iv(3) by (auto simp: totals_ok_def d')
  have "\<forall>a \<in> set (payment_attempts d). att_invoice a \<noteq> inv_id iv"
    using attempt_invoice [OF assms(2)] iv(1) by metis
  then show "attempts_ok d'" if "attempts_ok d" using that by (auto simp: attempts_ok_def d')
qed

lemma created_books:
  assumes "invoice_created b req iv rows new d d'" "books_ok d" "db_ok d'"
  shows "books_ok d'"
proof -
  have ok: "db_ok d" "totals_ok d" "paid_ok d" "attempts_ok d"
    using assms(2) by (simp_all add: books_ok_def)
  note parts = created_parts [OF assms(1) ok(1)]
  have "paid_ok d'" using ok(3) parts(1,2,4,5) by (auto simp: paid_ok_def)
  with parts(6,7) ok assms(3) show ?thesis by (simp add: books_ok_def)
qed

text \<open>Moving the state of some invoices keeps their ids and totals.\<close>

lemma totals_ok_states:
  assumes "totals_ok d" "invoice_items d' = invoice_items d"
    and "\<And>v. v \<in> set (invoices d') \<Longrightarrow>
           \<exists>v0 \<in> set (invoices d). inv_id v = inv_id v0 \<and> inv_total v = inv_total v0"
  shows "totals_ok d'"
  using assms(1,3) by (fastforce simp: totals_ok_def rows_of_def assms(2))

lemma voided_books:
  assumes look: "lookup_invoice b i d = Some iv" "inv_state iv \<in> {DRAFT, OPEN}" and books: "books_ok d"
    and d': "d' = d\<lparr>invoices := map (\<lambda>r. if inv_id r = i \<and> inv_business r = b then void_row now r else r)
                (invoices d)\<rparr>" "db_ok d'"
  shows "books_ok d'"
proof -
  have ok: "db_ok d" "totals_ok d" "paid_ok d" "attempts_ok d"
    using books by (simp_all add: books_ok_def)
  have iv: "iv \<in> set (invoices d)" "inv_id iv = i" "inv_business iv = b"
    using look(1) by (auto simp: lookup_invoice_def dest: find_Some_mem)
  have only: "v = iv" if "v \<in> set (invoices d)" "inv_id v = i" for v
    using ok(1) iv that by (auto simp: db_ok_defs dest: distinct_map_eqD)
  have "totals_ok d'"
    by (rule totals_ok_states [OF ok(2)]) (auto simp: d'(1) void_row_def)
  have succ: "has_succeeded d' = has_succeeded d" by (auto simp: has_succeeded_def d'(1) fun_eq_iff)
  let ?g = "\<lambda>r. if inv_id r = i \<and> inv_business r = b then void_row now r else r"
  have rows: "set (invoices d') = ?g ` set (invoices d)" by (simp add: d'(1))
  have "inv_state (?g v) = PAID \<longleftrightarrow> has_succeeded d' (inv_id (?g v))" if v: "v \<in> set (invoices d)" for v
  proof (cases "inv_id v = i")
    case True
    with only [OF v] look(2) iv ok(3) show ?thesis by (auto simp: paid_ok_def void_row_def succ)
  qed (use v ok(3) in \<open>simp add: paid_ok_def succ\<close>)
  then have "paid_ok d'"
    unfolding paid_ok_def rows by blast
  moreover have "attempts_ok d'"
    unfolding d'(1) by (rule void_attempts_ok [OF ok(4)])
  ultimately show ?thesis using d'(2) \<open>totals_ok d'\<close> by (simp add: books_ok_def)
qed

lemma claimed_books:
  assumes "claimed_by E w b key ivc token idem att iv d'" "books_ok (w_db w)" "db_ok d'"
  shows "books_ok d'"
proof -
  have ok: "totals_ok (w_db w)" "paid_ok (w_db w)" "attempts_ok (w_db w)"
    using assms(2) by (simp_all add: books_ok_def)
  have d': "invoices d' = invoices (w_db w)" "invoice_items d' = invoice_items (w_db w)"
    "payment_attempts d' = payment_attempts (w_db w) @ [att]" "att_status att = PROCESSING"
    using assms(1) by (auto simp: claimed_by_def claim_granted_def)
  have "attempts_ok d'"
    using granted_attempts [OF ok(3) assms(1) [unfolded claimed_by_def]] .
  moreover have "has_succeeded d' = has_succeeded (w_db w)"
    using d'(4) by (auto simp: has_succeeded_def d'(3) fun_eq_iff)
  ultimately show ?thesis
    using ok assms(3) by (simp add: books_ok_def totals_ok_def paid_ok_def rows_of_def d')
qed

lemma settled_books:
  assumes c: "claimed_by E w b key ivc token idem att iv d1" and "books_ok (w_db w)"
    and "db_ok (paid_db E now k b idem att iv result (w_db w))"
  shows "books_ok (paid_db E now k b idem att iv result (w_db w))"
proof -
  let ?d = "w_db w" and ?d' = "paid_db E now k b idem att iv result (w_db w)"
  let ?a = "settled_attempt now result att"
  have ok: "db_ok ?d" "totals_ok ?d" "paid_ok ?d" "attempts_ok ?d"
    using assms(2) by (simp_all add: books_ok_def)
  have att: "att_invoice att = ivc" "att_status att = PROCESSING"
    and look: "lookup_invoice b ivc ?d = Some iv" "inv_state iv = OPEN"
    and free: "\<not> has_unresolved ivc ?d"
    using c by (auto simp: claimed_by_def claim_granted_def)
  then have iv: "iv \<in> set (invoices ?d)" "inv_id iv = ivc" "inv_business iv = b"
    by (auto simp: lookup_invoice_def dest!: find_Some_mem)
  have only: "v = iv" if "v \<in> set (invoices ?d)" "inv_id v = ivc" for v
    using ok(1) iv that by (auto simp: db_ok_defs dest: distinct_map_eqD)
  have items: "invoice_items ?d' = invoice_items ?d"
    by (simp add: paid_db_def case_prod_unfold Let_def)
  have none: "\<not> has_succeeded ?d ivc" using ok(3) iv look(2) by (auto simp: paid_ok_def)
  have dead: "\<not> live a" if "a \<in> set (payment_attempts ?d)" "att_invoice a = ivc" for a
    using that none free
    by (cases "att_status a")
      (auto simp: live_def has_succeeded_def has_unresolved_def occurs_iff unresolved_def)
  have succ: "has_succeeded ?d' i \<longleftrightarrow> has_succeeded ?d i \<or> (i = ivc \<and> charged result)" for i
    using att by (auto simp: has_succeeded_def paid_db_sel settled_attempt_cases declined_def
        split: sum.splits if_splits)
  have rows: "set (invoices ?d') = (\<lambda>v. if charged result \<and> v = iv
      then v\<lparr>inv_state := PAID, inv_updated := now\<rparr> else v) ` set (invoices ?d)"
  proof -
    have "open_invoice (inv_id iv) b v \<longleftrightarrow> v = iv" if "v \<in> set (invoices ?d)" for v
      using only [OF that] iv look(2) by (auto simp: open_invoice_def)
    then show ?thesis by (auto simp: paid_db_sel update_where_def image_iff)
  qed
  have "totals_ok ?d'"
    by (rule totals_ok_states [OF ok(2) items]) (auto simp: rows)
  moreover have "paid_ok ?d'"
    unfolding paid_ok_def rows
  proof (rule ballI)
    fix v assume "v \<in> (\<lambda>v. if charged result \<and> v = iv
      then v\<lparr>inv_state := PAID, inv_updated := now\<rparr> else v) ` set (invoices ?d)"
    then obtain v0 where v0: "v0 \<in> set (invoices ?d)" "v = (if charged result \<and> v0 = iv
      then v0\<lparr>inv_state := PAID, inv_updated := now\<rparr> else v0)" by blast
    show "inv_state v = PAID \<longleftrightarrow> has_succeeded ?d' (inv_id v)"
    proof (cases "v0 = iv")
      case True
      with v0(2) look(2) none iv(2) show ?thesis by (simp add: succ)
    next
      case False
      with v0(2) have "v = v0" by simp
      moreover have "inv_id v0 \<noteq> ivc" using only [OF v0(1)] False by blast
      ultimately show ?thesis using v0(1) ok(3) by (simp add: succ paid_ok_def)
    qed
  qed
  moreover have once: "\<And>a a'. a \<in> set (payment_attempts ?d) \<Longrightarrow> a' \<in> set (payment_attempts ?d) \<Longrightarrow>
      live a \<Longrightarrow> live a' \<Longrightarrow> att_invoice a = att_invoice a' \<Longrightarrow> a = a'"
    using ok(4) by (simp add: attempts_ok_def)
  have mem: "x \<in> set (payment_attempts ?d') \<longleftrightarrow> x = ?a \<or> x \<in> set (payment_attempts ?d)" for x
    by (simp add: paid_db_sel)
  have "attempts_ok ?d'"
    unfolding attempts_ok_def
  proof (intro conjI ballI impI)
    fix a a' assume "a \<in> set (payment_attempts ?d')" "a' \<in> set (payment_attempts ?d')"
      "live a" "live a'" "att_invoice a = att_invoice a'"
    then show "a = a'"
      using once dead att(1) unfolding mem by (metis settled_attempt_sel(2))
  next
    fix a v assume "a \<in> set (payment_attempts ?d')" "v \<in> set (invoices ?d')"
      "att_status a = SUCCEEDED" "inv_id v = att_invoice a"
    with \<open>paid_ok ?d'\<close> show "inv_state v \<noteq> OPEN"
      by (auto simp: paid_ok_def has_succeeded_def)
  qed
  ultimately show ?thesis using assms(3) by (simp add: books_ok_def)
qed

section \<open>Every event keeps the books\<close>

definition books_step :: "world \<Rightarrow> world \<Rightarrow> bool" where
  "books_step w w' \<longleftrightarrow> (w_tx w = None \<longrightarrow> books_ok (w_db w) \<longrightarrow> w_tx w' = None \<and> books_ok (w_db w'))"

lemma same_books_step: "same_books.pool_step w w' \<Longrightarrow> books_step w w'"
  by (auto simp: same_books.pool_step_def books_step_def intro: same_books_ok)

lemma create_invoice_books: "books_step w (snd (create_invoice_handler E b body w))"
  unfolding books_step_def
proof (intro impI)
  assume w: "w_tx w = None" "books_ok (w_db w)"
  obtain rep w' where run: "create_invoice_handler E b body w = (rep, w')" by fastforce
  have "db_ok (w_db w')"
    using keeps_create_invoice [of w E b body] w run by (simp add: ok_rel.pool_step_def books_ok_def)
  from run w(1) have "w_tx w' = None \<and> books_ok (w_db w')"
  proof (cases rule: create_invoiceE)
    case (created req iv rows new)
    with created_books [OF created(2) w(2) \<open>db_ok (w_db w')\<close>] show ?thesis by simp
  qed (use w(2) in simp)
  with run show "w_tx (snd (create_invoice_handler E b body w)) = None
      \<and> books_ok (w_db (snd (create_invoice_handler E b body w)))"
    by simp
qed

lemma void_books: "books_step w (snd (void_invoice E b i w))"
  unfolding books_step_def
proof (intro impI)
  assume w: "w_tx w = None" "books_ok (w_db w)"
  obtain rep w' where run: "void_invoice E b i w = (rep, w')" by fastforce
  have ok: "db_ok (w_db w')"
    using keeps_void [of w E b i] w run by (simp add: ok_rel.pool_step_def books_ok_def)
  from run w(1) have "w_tx w' = None \<and> books_ok (w_db w')"
  proof (cases rule: void_invoiceE)
    case (voided k iv)
    from voided_books [OF voided(2,3) w(2) voided(4) ok] voided(1) show ?thesis by simp
  qed (use w(2) in simp)
  with run show "w_tx (snd (void_invoice E b i w)) = None \<and> books_ok (w_db (snd (void_invoice E b i w)))"
    by simp
qed

lemma pay_books: "books_step w (snd (pay_invoice E b header i body w))"
  unfolding books_step_def
proof (intro impI)
  assume w: "w_tx w = None" "books_ok (w_db w)"
  obtain rep w' where run: "pay_invoice E b header i body w = (rep, w')" by fastforce
  have ok: "db_ok (w_db w')" "w_tx w' = None"
    using keeps_pay [of w E b header i body] w run by (simp_all add: ok_rel.pool_step_def books_ok_def)
  from run have "books_ok (w_db w')"
  proof (cases rule: pay_invoiceE)
    case (valid key ivc token)
    from run w(1) valid show ?thesis
    proof (cases rule: pay_cases)
      case (settled idem att iv d1 k result)
      from settled_books [OF settled(1) w(2)] ok(1) show ?thesis by (simp add: settled(5))
    qed (use w(2) ok(1) claimed_books in auto)
  qed (use w(2) in simp)
  with run ok(2) show "w_tx (snd (pay_invoice E b header i body w)) = None
      \<and> books_ok (w_db (snd (pay_invoice E b header i body w)))"
    by simp
qed

lemma dispatch_books: "books_step w (snd (dispatch E b req w))"
  by (cases req)
    (simp_all add: dispatch_def create_invoice_books void_books pay_books same_books_step
      same_books.health_step same_books.read_steps same_books.create_customer_step
      same_books.create_endpoint_step same_books_writes)

lemma batch_books: "books_step w (snd (process_batch E wk w))"
  by (intro same_books_step same_books.process_batch_step same_books_writes)

lemma serve_books: "books_step w (snd (serve E header req w))"
proof -
  obtain ans w' where run: "serve E header req w = (ans, w')" by fastforce
  then have "books_step w w'"
  proof (cases rule: serveE)
    case idle
    then show ?thesis by (simp add: same_data_def books_step_def)
  next
    case (handled b kid w1)
    from dispatch_books [of w1 E b req] handled(2,3) show ?thesis
      by (simp add: same_data_def books_step_def)
  qed
  with run show ?thesis by simp
qed

lemma handle_books: "books_step w (handle E ev w)"
proof -
  obtain dbnow now e where ev: "ev = (dbnow, now, e)" by (cases ev)
  have "books_step (w\<lparr>w_dbnow := dbnow, w_now := now\<rparr>) (handle E ev w)"
    by (cases e) (simp_all add: handle_def ev Let_def serve_books batch_books)
  then show ?thesis by (simp add: books_step_def)
qed

lemma run_books:
  assumes "books_ok (w_db w)" "w_tx w = None"
  shows "books_ok (w_db (run_events E evs w)) \<and> w_tx (run_events E evs w) = None"
  using assms
proof (induction evs arbitrary: w)
  case (Cons ev evs)
  from handle_books [of w E ev] Cons.prems
  have "books_ok (w_db (handle E ev w))" "w_tx (handle E ev w) = None"
    by (simp_all add: books_step_def)
  with Cons.IH show ?case by (simp add: run_events_def)
qed (simp add: run_events_def)

end
