(* ===== verification/Lifecycle.thy ===== *)
theory Lifecycle
  imports Ledger
begin

text \<open>
  The invoice state machine as an abstract automaton, and the refinement: seen through the states
  of its invoices, the service makes only the automaton's steps, one invoice at a time.
\<close>

section \<open>The automaton\<close>

type_synonym invoice_states = "int64 \<rightharpoonup> invoice_state"

inductive lifecycle :: "invoice_states \<Rightarrow> invoice_states \<Rightarrow> bool" where
  idle: "lifecycle m m"
| create: "m i = None \<Longrightarrow> s = DRAFT \<or> s = OPEN \<Longrightarrow> lifecycle m (m(i \<mapsto> s))"
| void: "m i = Some DRAFT \<or> m i = Some OPEN \<Longrightarrow> lifecycle m (m(i \<mapsto> VOID))"
| pay: "m i = Some OPEN \<Longrightarrow> lifecycle m (m(i \<mapsto> PAID))"

inductive_cases lifecycleE: "lifecycle m m'"

definition final :: "invoice_state \<Rightarrow> bool" where
  "final s \<longleftrightarrow> s \<noteq> DRAFT \<and> s \<noteq> OPEN"

lemma lifecycle_final:
  assumes "lifecycle m m'" "m i = Some s" "final s"
  shows "m' i = Some s"
  using assms by (cases rule: lifecycle.cases) (auto simp: final_def)

lemma lifecycle_run_final:
  assumes "lifecycle\<^sup>*\<^sup>* m m'" "m i = Some s" "final s"
  shows "m' i = Some s"
  using assms by (induction rule: rtranclp_induct) (auto intro: lifecycle_final)

lemma lifecycle_run_draft:
  assumes "lifecycle\<^sup>*\<^sup>* m m'" "m i = Some DRAFT"
  shows "m' i = Some DRAFT \<or> m' i = Some VOID"
  using assms by (induction rule: rtranclp_induct) (auto elim!: lifecycleE split: if_splits)

section \<open>The abstraction\<close>

definition states :: "database \<Rightarrow> invoice_states" where
  "states d = map_of (map (\<lambda>v. (inv_id v, inv_state v)) (invoices d))"

lemma states_same: "invoices d' = invoices d \<Longrightarrow> states d' = states d"
  by (simp add: states_def)

lemma states_None: "states d i = None \<longleftrightarrow> i \<notin> inv_id ` set (invoices d)"
  by (simp add: states_def map_of_eq_None_iff image_image)

lemma states_mem:
  assumes "distinct (map inv_id (invoices d))" "v \<in> set (invoices d)"
  shows "states d (inv_id v) = Some (inv_state v)"
  unfolding states_def using assms by (intro map_of_is_SomeI) (auto simp: comp_def)

lemma states_moved:
  assumes "distinct (map inv_id (invoices d))" "v \<in> set (invoices d)" "inv_id (f v) = inv_id v"
    and "\<And>r. r \<in> set (invoices d) \<Longrightarrow> Q r \<longleftrightarrow> r = v"
    and "invoices d' = map (\<lambda>r. if Q r then f r else r) (invoices d)"
  shows "states d' = (states d)(inv_id v \<mapsto> inv_state (f v))"
proof
  fix i
  have inv': "invoices d' = map (\<lambda>r. if r = v then f v else r) (invoices d)"
    using assms(4) by (auto simp: assms(5))
  have "map inv_id (invoices d') = map inv_id (invoices d)"
    using assms(3) by (simp add: inv')
  with assms(1) have d': "distinct (map inv_id (invoices d'))" by simp
  show "states d' i = ((states d)(inv_id v \<mapsto> inv_state (f v))) i"
  proof (cases "i \<in> inv_id ` set (invoices d)")
    case True
    then obtain r where r: "r \<in> set (invoices d)" "i = inv_id r" by blast
    show ?thesis
    proof (cases "r = v")
      case True
      have "f v \<in> set (invoices d')" using assms(2) by (force simp: inv')
      from states_mem [OF d' this] True r assms(3) show ?thesis by simp
    next
      case False
      then have "inv_id r \<noteq> inv_id v"
        using distinct_map_eqD [OF assms(1) r(1) assms(2)] by blast
      moreover have "r \<in> set (invoices d')" using r False by (force simp: inv')
      ultimately show ?thesis
        using states_mem [OF d'] states_mem [OF assms(1) r(1)] r(2) by simp
    qed
  next
    case False
    then have "i \<notin> inv_id ` set (invoices d')"
      using \<open>map inv_id (invoices d') = map inv_id (invoices d)\<close> by (metis list.set_map)
    with False assms(2) show ?thesis by (metis fun_upd_apply image_eqI states_None)
  qed
qed

section \<open>The refinement\<close>

definition lifecycle_move :: "world \<Rightarrow> world \<Rightarrow> bool" where
  "lifecycle_move w w' \<longleftrightarrow> lifecycle (states (w_db w)) (states (w_db w'))"

lemma only_row:
  assumes "db_ok d" "lookup_invoice b i d = Some iv" "r \<in> set (invoices d)"
  shows "inv_id r = i \<and> inv_business r = b \<longleftrightarrow> r = iv"
  using assms by (auto simp: lookup_invoice_def db_ok_defs dest!: find_Some_mem dest: distinct_map_eqD)

lemma lookup_row_facts:
  assumes "db_ok d" "lookup_invoice b i d = Some iv"
  shows "iv \<in> set (invoices d)" "inv_id iv = i" "inv_business iv = b"
    "states d i = Some (inv_state iv)" "distinct (map inv_id (invoices d))"
  using assms states_mem [of d iv]
  by (auto simp: lookup_invoice_def db_ok_defs dest!: find_Some_mem)

lemma create_lifecycle:
  assumes "w_tx w = None" "db_ok (w_db w)"
  shows "lifecycle_move w (snd (create_invoice_handler E b body w))"
proof -
  obtain rep w' where run: "create_invoice_handler E b body w = (rep, w')" by fastforce
  from run assms(1) have "lifecycle_move w w'"
  proof (cases rule: create_invoiceE)
    case (created req iv rows new)
    have iv: "states (w_db w) (inv_id iv) = None" "inv_state iv = DRAFT \<or> inv_state iv = OPEN"
      and "invoices (w_db w') = invoices (w_db w) @ [iv]"
      using created(2) by (auto simp: invoice_created_def states_None)
    then have "states (w_db w') = (states (w_db w))(inv_id iv \<mapsto> inv_state iv)"
      by (auto simp: states_def map_add_def fun_eq_iff split: option.split)
    with lifecycle.create [of "states (w_db w)", OF iv] show ?thesis by (simp add: lifecycle_move_def)
  qed (simp add: lifecycle_move_def lifecycle.idle)
  with run show ?thesis by simp
qed

lemma void_lifecycle:
  assumes "w_tx w = None" "db_ok (w_db w)"
  shows "lifecycle_move w (snd (void_invoice E b raw w))"
proof -
  obtain rep w' where run: "void_invoice E b raw w = (rep, w')" by fastforce
  from run assms(1) have "lifecycle_move w w'"
  proof (cases rule: void_invoiceE)
    case (voided i iv)
    note iv = lookup_row_facts [OF assms(2) voided(2)]
    have "states (w_db w') = (states (w_db w))(inv_id iv \<mapsto> inv_state (void_row (w_dbnow w) iv))"
      by (rule states_moved [OF iv(5,1) _ only_row [OF assms(2) voided(2)]])
        (simp_all add: voided(4) void_row_def)
    then have "states (w_db w') = (states (w_db w))(i \<mapsto> VOID)"
      using iv(2) by (simp add: void_row_def)
    with lifecycle.void [of "states (w_db w)" i] voided(3) iv(4) show ?thesis
      by (auto simp: lifecycle_move_def)
  qed (simp add: lifecycle_move_def lifecycle.idle)
  with run show ?thesis by simp
qed

lemma pay_lifecycle:
  assumes "w_tx w = None" "db_ok (w_db w)"
  shows "lifecycle_move w (snd (pay_invoice E b header raw body w))"
proof -
  obtain rep w' where run: "pay_invoice E b header raw body w = (rep, w')" by fastforce
  then have "lifecycle_move w w'"
  proof (cases rule: pay_invoiceE)
    case (valid key ivc token)
    have claimed: "states d = states (w_db w)"
      if "claimed_by E w b key ivc token idem att iv d" for idem att iv d
      using that by (intro states_same) (simp add: claimed_by_def claim_granted_def)
    from run assms(1) valid show ?thesis
    proof (cases rule: pay_cases)
      case (settled idem att iv d1 k result)
      have look: "lookup_invoice b ivc (w_db w) = Some iv" "inv_state iv = OPEN"
        using settled(1) by (auto simp: claimed_by_def claim_granted_def)
      note iv = lookup_row_facts [OF assms(2) look(1)]
      show ?thesis
      proof (cases "charged result")
        case True
        have "states (w_db w') = (states (w_db w))(inv_id iv \<mapsto>
            inv_state (iv\<lparr>inv_state := PAID, inv_updated := w_dbnow w\<rparr>))"
        proof (rule states_moved [OF iv(5,1)])
          show "invoices (w_db w') = map (\<lambda>r. if open_invoice (inv_id iv) b r
              then r\<lparr>inv_state := PAID, inv_updated := w_dbnow w\<rparr> else r) (invoices (w_db w))"
            using True by (simp add: settled(5) paid_db_sel update_where_def)
          show "open_invoice (inv_id iv) b r \<longleftrightarrow> r = iv" if "r \<in> set (invoices (w_db w))" for r
            using only_row [OF assms(2) look(1) that] iv(2) look(2) by (auto simp: open_invoice_def)
        qed simp
        then have "states (w_db w') = (states (w_db w))(ivc \<mapsto> PAID)" using iv(2) by simp
        with lifecycle.pay [of "states (w_db w)" ivc] iv(4) look(2) show ?thesis
          by (simp add: lifecycle_move_def)
      next
        case False
        then have "states (w_db w') = states (w_db w)"
          by (intro states_same) (simp add: settled(5) paid_db_sel)
        then show ?thesis by (simp add: lifecycle_move_def lifecycle.idle)
      qed
    qed (auto simp: lifecycle_move_def lifecycle.idle dest!: claimed)
  qed (simp add: lifecycle_move_def lifecycle.idle)
  with run show ?thesis by simp
qed

lemma same_books_lifecycle:
  "same_books.pool_step w w' \<Longrightarrow> w_tx w = None \<Longrightarrow> lifecycle_move w w'"
  by (auto simp: same_books.pool_step_def same_books_def lifecycle_move_def states_def
      intro: lifecycle.idle)

lemma dispatch_lifecycle:
  assumes "w_tx w = None" "db_ok (w_db w)"
  shows "lifecycle_move w (snd (dispatch E b req w))"
  using assms
  by (cases req)
    (simp_all add: dispatch_def create_lifecycle void_lifecycle pay_lifecycle same_books_lifecycle
      same_books.health_step same_books.read_steps same_books.create_customer_step
      same_books.create_endpoint_step same_books_writes)

lemma handle_lifecycle:
  assumes "w_tx w = None" "db_ok (w_db w)"
  shows "lifecycle_move w (handle E ev w)"
proof -
  obtain dbnow now e where ev: "ev = (dbnow, now, e)" by (cases ev)
  let ?w = "w\<lparr>w_dbnow := dbnow, w_now := now\<rparr>"
  have "lifecycle_move ?w (handle E ev w)"
  proof (cases e)
    case (Tick wk)
    have "same_books.pool_step ?w (snd (process_batch E wk ?w))"
      by (intro same_books.process_batch_step same_books_writes)
    with assms(1) show ?thesis
      by (intro same_books_lifecycle) (simp_all add: handle_def ev Tick Let_def)
  next
    case (Request header req)
    obtain ans w' where run: "serve E header req ?w = (ans, w')" by fastforce
    then have "lifecycle_move ?w w'"
    proof (cases rule: serveE)
      case idle
      then show ?thesis by (simp add: same_data_def lifecycle_move_def lifecycle.idle)
    next
      case (handled b kid w1)
      with dispatch_lifecycle [of w1 E b req] assms show ?thesis
        by (simp add: same_data_def lifecycle_move_def)
    qed
    with run show ?thesis by (simp add: handle_def ev Request Let_def)
  qed
  then show ?thesis by (simp add: lifecycle_move_def)
qed

lemma run_lifecycle:
  assumes "books_ok (w_db w)" "w_tx w = None"
  shows "lifecycle\<^sup>*\<^sup>* (states (w_db w)) (states (w_db (run_events E evs w)))"
  using assms
proof (induction evs arbitrary: w)
  case (Cons ev evs)
  from handle_books [of w E ev] Cons.prems
  have next_ok: "books_ok (w_db (handle E ev w))" "w_tx (handle E ev w) = None"
    by (simp_all add: books_step_def)
  have "lifecycle (states (w_db w)) (states (w_db (handle E ev w)))"
    using handle_lifecycle [of w E ev] Cons.prems by (simp add: lifecycle_move_def books_ok_def)
  from converse_rtranclp_into_rtranclp [of lifecycle, OF this Cons.IH [OF next_ok]]
  show ?case by (simp add: run_events_def)
qed (simp add: run_events_def)

text \<open>
  C32. A DRAFT invoice is never paid: no endpoint opens it, so in every run it stays DRAFT or
  becomes VOID, although the design has a transition from DRAFT to OPEN.
\<close>

theorem drafts_are_never_paid:
  assumes "books_ok (w_db w)" "w_tx w = None" "states (w_db w) i = Some DRAFT"
  shows "states (w_db (run_events E evs w)) i \<in> {Some DRAFT, Some VOID}
    \<and> \<not> has_succeeded (w_db (run_events E evs w)) i"
proof -
  have s: "states (w_db (run_events E evs w)) i \<in> {Some DRAFT, Some VOID}"
    using lifecycle_run_draft [OF run_lifecycle [OF assms(1,2)] assms(3)] by blast
  have ok: "books_ok (w_db (run_events E evs w))"
    using run_books [OF assms(1,2)] by simp
  then have "distinct (map inv_id (invoices (w_db (run_events E evs w))))"
    by (simp add: books_ok_def db_ok_defs)
  moreover from s have "i \<in> inv_id ` set (invoices (w_db (run_events E evs w)))"
    using states_None [of "w_db (run_events E evs w)" i] by auto
  then obtain v where "v \<in> set (invoices (w_db (run_events E evs w)))" "i = inv_id v" by blast
  ultimately have "inv_state v \<noteq> PAID" "v \<in> set (invoices (w_db (run_events E evs w)))" "i = inv_id v"
    using states_mem [of "w_db (run_events E evs w)" v] s by auto
  with ok s show ?thesis by (auto simp: books_ok_def paid_ok_def)
qed

end
