(* ===== verification/Shared_Ledger.thy ===== *)
theory Shared_Ledger
  imports Lifecycle Concurrent_Service
begin

text \<open>
  The books and the invoice states when requests interleave. A void reads the invoice and writes it
  with two statements, so it can overtake a payment: of the books, only that a PAID invoice has
  succeeded stays an equivalence up to VOID, and the automaton gets a step from PAID to VOID.
\<close>

section \<open>What a step of the service does to the ledger\<close>

text \<open>
  The committed database before and after one step of the concurrent service: nothing that the
  books are about, a new invoice, a granted claim, a recorded outcome on a live claim, or a void
  of an invoice that is not UNCOLLECTIBLE.
\<close>

inductive ledger_move :: "database \<Rightarrow> database \<Rightarrow> bool" where
  same: "same_books d d' \<Longrightarrow> ledger_move d d'"
| created: "invoice_created b req iv rows new d d' \<Longrightarrow> ledger_move d d'"
| claimed: "claim_granted E now k b ivc key hash d (Claimed idem att iv) d' \<Longrightarrow> ledger_move d d'"
| settled: "att \<in> set (payment_attempts d) \<Longrightarrow> att_status att = PROCESSING \<Longrightarrow>
    inv_id iv = att_invoice att \<Longrightarrow> settleable b att iv result d \<Longrightarrow>
    ledger_move d (finalized_db E now k b idem att iv result d)"
| voided: "states d i \<noteq> Some UNCOLLECTIBLE \<Longrightarrow>
    ledger_move d (d\<lparr>invoices := map (\<lambda>r. if inv_id r = i \<and> inv_business r = b then void_row now r else r)
                                   (invoices d)\<rparr>)"

section \<open>The books under interleaving\<close>

definition paid_or_void :: "database \<Rightarrow> bool" where
  "paid_or_void d \<longleftrightarrow>
     (\<forall>iv \<in> set (invoices d). (inv_state iv = PAID \<longrightarrow> has_succeeded d (inv_id iv))
        \<and> (has_succeeded d (inv_id iv) \<longrightarrow> inv_state iv = PAID \<or> inv_state iv = VOID))"

definition shared_books :: "database \<Rightarrow> bool" where
  "shared_books d \<longleftrightarrow> totals_ok d \<and> attempts_ok d \<and> paid_or_void d"

lemma books_shared: "books_ok d \<Longrightarrow> shared_books d"
  by (auto simp: books_ok_def shared_books_def paid_ok_def paid_or_void_def)

lemma settled_succeeded:
  assumes "db_ok d" "att \<in> set (payment_attempts d)" "att_status att = PROCESSING"
  shows "has_succeeded (finalized_db E now k b idem att iv result d) i
    \<longleftrightarrow> has_succeeded d i \<or> (i = att_invoice att \<and> charged result)"
proof -
  have "charged result \<Longrightarrow> \<not> declined result" by (auto simp: charged_def declined_def split: sum.splits)
  then show ?thesis
    using assms(2,3)
    by (auto simp: has_succeeded_def finalized_attempts [OF assms] settled_attempt_cases
        split: if_splits)
qed

lemma settled_paid_or_void:
  assumes ok: "db_ok d" "paid_or_void d"
    and att: "att \<in> set (payment_attempts d)" "att_status att = PROCESSING" "inv_id iv = att_invoice att"
    and can: "settleable b att iv result d"
  shows "paid_or_void (finalized_db E now k b idem att iv result d)"
  unfolding paid_or_void_def
proof
  let ?d' = "finalized_db E now k b idem att iv result d"
  let ?pay = "\<lambda>r. r\<lparr>inv_state := PAID, inv_updated := now\<rparr>"
  note succ = settled_succeeded [OF ok(1) att(1,2), of E now k b idem iv result]
  have ids: "distinct (map inv_id (invoices d))" using ok(1) by (simp add: db_ok_defs)
  fix v assume "v \<in> set (invoices ?d')"
  then obtain r where r: "r \<in> set (invoices d)"
    and v: "v = (if charged result \<and> open_invoice (inv_id iv) b r then ?pay r else r)"
    by (auto simp: finalized_sel set_update_where split: if_splits)
  have old: "inv_state r = PAID \<longrightarrow> has_succeeded d (inv_id r)"
    "has_succeeded d (inv_id r) \<longrightarrow> inv_state r = PAID \<or> inv_state r = VOID"
    using ok(2) r by (simp_all add: paid_or_void_def)
  show "(inv_state v = PAID \<longrightarrow> has_succeeded ?d' (inv_id v))
      \<and> (has_succeeded ?d' (inv_id v) \<longrightarrow> inv_state v = PAID \<or> inv_state v = VOID)"
  proof (cases "charged result \<and> open_invoice (inv_id iv) b r")
    case True
    with v att(3) show ?thesis by (simp add: succ open_invoice_def)
  next
    case False
    have "\<not> (inv_id r = att_invoice att \<and> charged result)"
    proof
      assume a: "inv_id r = att_invoice att \<and> charged result"
      with can obtain x where "x \<in> set (invoices d)" "open_invoice (inv_id iv) b x"
        by (auto simp: settleable_def list_ex_iff)
      moreover from this have "x = r"
        using distinct_map_eqD [OF ids _ r] a att(3) by (simp add: open_invoice_def)
      ultimately show False using False a by simp
    qed
    moreover have "v = r" using v False by (cases "charged result") simp_all
    ultimately show ?thesis using old by (auto simp: succ)
  qed
qed

lemma ledger_move_shared:
  assumes "ledger_move d d'" "db_ok d" "shared_books d"
  shows "shared_books d'"
  using assms
proof (cases rule: ledger_move.cases)
  case same
  with assms(3) show ?thesis
    by (simp add: same_books_def shared_books_def totals_ok_def rows_of_def attempts_ok_def
        paid_or_void_def has_succeeded_def)
next
  case (created b req iv rows new)
  note parts = created_parts [OF created assms(2)]
  with assms(3) show ?thesis by (auto simp: shared_books_def paid_or_void_def)
next
  case (claimed E now k b ivc key hash idem att iv)
  have d': "invoices d' = invoices d" "invoice_items d' = invoice_items d"
    "payment_attempts d' = payment_attempts d @ [att]" "att_status att = PROCESSING"
    using claimed by (auto simp: claim_granted_def)
  then have "has_succeeded d' = has_succeeded d" by (auto simp: has_succeeded_def fun_eq_iff)
  with assms(3) granted_attempts [OF _ claimed] d' show ?thesis
    by (simp add: shared_books_def totals_ok_def rows_of_def paid_or_void_def)
next
  case (settled att iv b result E now k idem)
  have "totals_ok d'"
  proof (rule totals_ok_states)
    show "totals_ok d" using assms(3) by (simp add: shared_books_def)
    show "invoice_items d' = invoice_items d"
      by (simp add: settled(1) finalized_db_def settled_db_def case_prod_unfold Let_def)
    show "\<exists>v0 \<in> set (invoices d). inv_id v = inv_id v0 \<and> inv_total v = inv_total v0"
      if "v \<in> set (invoices d')" for v
      using that by (auto simp: settled(1) finalized_sel set_update_where split: if_splits)
  qed
  moreover have "attempts_ok d'"
    unfolding settled(1)
    by (rule finalized_attempts_ok [OF assms(2) _ settled(2-5)])
      (use assms(3) in \<open>simp add: shared_books_def\<close>)
  moreover have "paid_or_void d'"
    unfolding settled(1)
    by (rule settled_paid_or_void [OF assms(2) _ settled(2-5)])
      (use assms(3) in \<open>simp add: shared_books_def\<close>)
  ultimately show ?thesis by (simp add: shared_books_def)
next
  case (voided i b now)
  have "totals_ok d'"
    by (rule totals_ok_states [of d])
      (use assms(3) in \<open>auto simp: voided(1) void_row_def shared_books_def\<close>)
  moreover have "attempts_ok d'"
    unfolding voided(1) by (rule void_attempts_ok) (use assms(3) in \<open>simp add: shared_books_def\<close>)
  moreover have "paid_or_void d'"
    using assms(3)
    by (auto simp: shared_books_def paid_or_void_def has_succeeded_def voided(1) void_row_def)
  ultimately show ?thesis by (simp add: shared_books_def)
qed

section \<open>The states under interleaving\<close>

text \<open>The automaton with the step of a void that overtakes a payment.\<close>

inductive shared_lifecycle :: "invoice_states \<Rightarrow> invoice_states \<Rightarrow> bool" where
  alone: "lifecycle m m' \<Longrightarrow> shared_lifecycle m m'"
| overtake: "m i = Some PAID \<Longrightarrow> shared_lifecycle m (m(i \<mapsto> VOID))"

inductive_cases shared_lifecycleE: "shared_lifecycle m m'"

lemma shared_lifecycle_kept:
  assumes "shared_lifecycle m m'"
  shows "(m i = Some VOID \<longrightarrow> m' i = Some VOID) \<and> (m i = Some UNCOLLECTIBLE \<longleftrightarrow> m' i = Some UNCOLLECTIBLE)
    \<and> (m i = Some PAID \<longrightarrow> m' i = Some PAID \<or> m' i = Some VOID)
    \<and> (m i = Some DRAFT \<longrightarrow> m' i = Some DRAFT \<or> m' i = Some VOID)
    \<and> (m i \<noteq> None \<longrightarrow> m' i \<noteq> None)"
  using assms
proof (cases rule: shared_lifecycle.cases)
  case alone
  then show ?thesis by (cases rule: lifecycle.cases) (auto split: if_splits)
qed auto

lemma shared_lifecycle_run:
  assumes "shared_lifecycle\<^sup>*\<^sup>* m m'"
  shows "(m i = Some VOID \<longrightarrow> m' i = Some VOID) \<and> (m i = Some UNCOLLECTIBLE \<longleftrightarrow> m' i = Some UNCOLLECTIBLE)
    \<and> (m i = Some PAID \<longrightarrow> m' i = Some PAID \<or> m' i = Some VOID)
    \<and> (m i = Some DRAFT \<longrightarrow> m' i = Some DRAFT \<or> m' i = Some VOID)
    \<and> (m i \<noteq> None \<longrightarrow> m' i \<noteq> None)"
  using assms
proof (induction rule: rtranclp_induct)
  case (step m1 m2)
  from step.IH shared_lifecycle_kept [OF step.hyps(2), of i] show ?case by auto
qed simp

lemma pay_states:
  assumes "db_ok d" "r \<in> set (invoices d)" "open_invoice i b r"
    and "invoices d' = update_where (open_invoice i b) (\<lambda>r. r\<lparr>inv_state := PAID, inv_updated := now\<rparr>)
           (invoices d)"
  shows "shared_lifecycle (states d) (states d')"
proof -
  have ids: "distinct (map inv_id (invoices d))" using assms(1) by (simp add: db_ok_defs)
  have "states d' = (states d)(inv_id r \<mapsto> inv_state (r\<lparr>inv_state := PAID, inv_updated := now\<rparr>))"
  proof (rule states_moved [OF ids assms(2)])
    show "open_invoice i b x \<longleftrightarrow> x = r" if "x \<in> set (invoices d)" for x
      using assms(3) distinct_map_eqD [OF ids that assms(2)] by (auto simp: open_invoice_def)
    show "invoices d' = map (\<lambda>x. if open_invoice i b x then x\<lparr>inv_state := PAID, inv_updated := now\<rparr> else x)
        (invoices d)"
      using assms(4) by (simp add: update_where_def)
  qed simp
  moreover have "states d (inv_id r) = Some OPEN"
    using states_mem [OF ids assms(2)] assms(3) by (simp add: open_invoice_def)
  ultimately show ?thesis by (simp add: shared_lifecycle.alone lifecycle.pay)
qed

lemma void_states:
  assumes "db_ok d" "states d i \<noteq> Some UNCOLLECTIBLE"
  shows "shared_lifecycle (states d)
    (states (d\<lparr>invoices := map (\<lambda>r. if inv_id r = i \<and> inv_business r = b then void_row now r else r)
                             (invoices d)\<rparr>))"
    (is "shared_lifecycle _ (states ?d')")
proof (cases "\<exists>r \<in> set (invoices d). inv_id r = i \<and> inv_business r = b")
  case True
  then obtain r where r: "r \<in> set (invoices d)" "inv_id r = i" "inv_business r = b" by blast
  have ids: "distinct (map inv_id (invoices d))" using assms(1) by (simp add: db_ok_defs)
  have "states ?d' = (states d)(inv_id r \<mapsto> inv_state (void_row now r))"
  proof (rule states_moved [OF ids r(1)])
    show "inv_id x = i \<and> inv_business x = b \<longleftrightarrow> x = r" if "x \<in> set (invoices d)" for x
      using r distinct_map_eqD [OF ids that r(1)] by auto
  qed (simp_all add: void_row_def)
  then have s: "states ?d' = (states d)(i \<mapsto> VOID)" using r(2) by (simp add: void_row_def)
  have m: "states d i = Some (inv_state r)" using states_mem [OF ids r(1)] r(2) by simp
  show ?thesis
  proof (cases "inv_state r")
    case VOID
    with m have "(states d)(i \<mapsto> VOID) = states d" by (simp add: fun_upd_idem)
    then show ?thesis unfolding s by (simp add: shared_lifecycle.alone lifecycle.idle)
  next
    case PAID
    with m show ?thesis unfolding s by (simp add: shared_lifecycle.overtake)
  qed (use m assms(2) in \<open>simp_all add: s shared_lifecycle.alone lifecycle.void\<close>)
next
  case False
  then have "map (\<lambda>r. if inv_id r = i \<and> inv_business r = b then void_row now r else r) (invoices d) = invoices d"
    by (intro map_idI) auto
  then have "states ?d' = states d" by (intro states_same) simp
  then show ?thesis by (simp add: shared_lifecycle.alone lifecycle.idle)
qed

lemma ledger_move_states:
  assumes "ledger_move d d'" "db_ok d"
  shows "shared_lifecycle (states d) (states d')"
  using assms
proof (cases rule: ledger_move.cases)
  case same
  then have "states d' = states d" by (intro states_same) (simp add: same_books_def)
  then show ?thesis by (simp add: shared_lifecycle.alone lifecycle.idle)
next
  case (created b req iv rows new)
  note parts = created_parts [OF created assms(2)]
  have none: "states d (inv_id iv) = None" using parts(3) by (simp add: states_None)
  then have "states d' = (states d)(inv_id iv \<mapsto> inv_state iv)"
    by (auto simp: states_def parts(1) map_add_def fun_eq_iff split: option.split)
  with none parts(2) show ?thesis by (simp add: shared_lifecycle.alone lifecycle.create)
next
  case (claimed E now k b ivc key hash idem att iv)
  then have "states d' = states d" by (intro states_same) (simp add: claim_granted_def)
  then show ?thesis by (simp add: shared_lifecycle.alone lifecycle.idle)
next
  case (settled att iv b result E now k idem)
  show ?thesis
  proof (cases "charged result")
    case True
    with settled(5) obtain r where "r \<in> set (invoices d)" "open_invoice (inv_id iv) b r"
      by (auto simp: settleable_def list_ex_iff)
    then show ?thesis
      by (rule pay_states [OF assms(2)]) (simp add: settled(1) finalized_sel True)
  next
    case False
    then have "states d' = states d" by (intro states_same) (simp add: settled(1) finalized_sel)
    then show ?thesis by (simp add: shared_lifecycle.alone lifecycle.idle)
  qed
next
  case (voided i b now)
  then show ?thesis by (simp add: void_states assms(2))
qed

section \<open>Every step is a move of the ledger\<close>

lemma same_books_move: "same_books.pool_step w w' \<Longrightarrow> w_tx w = None \<Longrightarrow> ledger_move (w_db w) (w_db w')"
  by (simp add: same_books.pool_step_def ledger_move.same)

lemma same_move: "ledger_move d d"
  by (rule ledger_move.same) (simp add: same_books_def)

lemma void_move:
  assumes "w_tx w = None" "db_ok (w_db w)"
  shows "ledger_move (w_db w) (w_db (snd (void_invoice E b raw w)))"
proof -
  obtain rep w' where run: "void_invoice E b raw w = (rep, w')" by fastforce
  from run assms(1) have "ledger_move (w_db w) (w_db w')"
  proof (cases rule: void_invoiceE)
    case (voided i iv)
    note iv = lookup_row_facts [OF assms(2) voided(2)]
    show ?thesis
      unfolding voided(4) by (rule ledger_move.voided) (use iv(4) voided(3) in auto)
  qed (simp add: same_move)
  with run show ?thesis by simp
qed

lemma create_move:
  assumes "w_tx w = None"
  shows "ledger_move (w_db w) (w_db (snd (create_invoice_handler E b body w)))"
proof -
  obtain rep w' where run: "create_invoice_handler E b body w = (rep, w')" by fastforce
  from run assms have "ledger_move (w_db w) (w_db w')"
  proof (cases rule: create_invoiceE)
    case (created req iv rows new)
    from created(2) show ?thesis by (rule ledger_move.created)
  qed (simp add: same_move)
  with run show ?thesis by simp
qed

lemma calm_move:
  assumes "calm ev" "w_tx w = None" "db_ok (w_db w)"
  shows "ledger_move (w_db w) (w_db (handle E ev w))"
proof -
  obtain dbnow now e where ev: "ev = (dbnow, now, e)" by (cases ev)
  let ?w = "w\<lparr>w_dbnow := dbnow, w_now := now\<rparr>"
  have "ledger_move (w_db ?w) (w_db (handle E ev w))"
  proof (cases e)
    case (Tick wk)
    have "same_books.pool_step ?w (snd (process_batch E wk ?w))"
      by (intro same_books.process_batch_step same_books_writes)
    then show ?thesis
      using same_books_move [of ?w] assms(2) by (simp add: handle_def ev Tick Let_def)
  next
    case (Request header req)
    have req: "\<nexists>key i body. req = PostPay key i body"
      using assms(1) ev Request by (cases req) auto
    obtain ans w' where run: "serve E header req ?w = (ans, w')" by fastforce
    then have "ledger_move (w_db ?w) (w_db w')"
    proof (cases rule: serveE)
      case idle
      then show ?thesis by (simp add: same_data_def same_move)
    next
      case (handled b kid w1)
      then have w1: "w_tx w1 = None" "db_ok (w_db w1)" using assms(2,3) by (simp_all add: same_data_def)
      have "ledger_move (w_db w1) (w_db (snd (dispatch E b req w1)))"
        using w1 req
        by (cases req)
          (simp_all add: dispatch_def create_move void_move same_books_move same_books.health_step
            same_books.read_steps same_books.create_customer_step same_books.create_endpoint_step
            same_books_writes)
      with handled show ?thesis by (simp add: same_data_def)
    qed
    with run show ?thesis by (simp add: handle_def ev Request Let_def)
  qed
  then show ?thesis by simp
qed

text \<open>A void that has read its invoice goes on only if that was not UNCOLLECTIBLE.\<close>

definition voids_ok :: "system \<Rightarrow> bool" where
  "voids_ok s \<longleftrightarrow> (\<forall>b i. VoidWrite b i \<in> set (fst s) \<longrightarrow> states (w_db (snd s)) i \<noteq> Some UNCOLLECTIBLE)"

lemma advance_move:
  assumes ok: "system_ok E (js, w)" and v: "voids_ok (js, w)" and i: "i < length js"
    and adv: "advance E (js ! i) w = (j, w')"
  shows "ledger_move (w_db w) (w_db w')
    \<and> (\<forall>b k. j = VoidWrite b k \<longrightarrow> js ! i = j \<or> states (w_db w) k \<noteq> Some UNCOLLECTIBLE)"
proof -
  have w: "w_tx w = None" "db_ok (w_db w)" using ok by (simp_all add: system_ok_def)
  show ?thesis
  proof (cases "js ! i")
    case (PayClaim b ivc key token)
    obtain r w1 where c: "claim E b ivc key (fp E ivc token) w = (r, w1)" by fastforce
    have "w' = w1" "\<nexists>b k. j = VoidWrite b k"
      using adv PayClaim c by (auto split: sum.splits claimed.splits)
    with claim_step [OF c w] show ?thesis by (auto intro: ledger_move.claimed same_move)
  next
    case (PayCharge b token idem att iv)
    with adv show ?thesis by (auto simp: charge_card_def same_move)
  next
    case (PayFinalize b idem att iv result)
    obtain r w1 where f: "finalize E idem att iv result b w = (r, w1)" by fastforce
    have "w' = w1" "\<nexists>b k. j = VoidWrite b k" using adv PayFinalize f by (auto split: sum.splits)
    moreover have "att \<in> set (payment_attempts (w_db w))" "att_status att = PROCESSING"
      "inv_id iv = att_invoice att"
      using system_ok_jobs [OF ok i] PayFinalize by simp_all
    ultimately show ?thesis
      using finalize_step [OF f w] by (auto intro: ledger_move.settled same_move)
  next
    case (VoidRead b k)
    obtain r w1 where q: "query E Pool (get_invoice_by_id k b) w = (r, w1)" by fastforce
    note s = select_pool [OF q [unfolded get_invoice_by_id_def]]
    have w1: "w' = w1" using adv VoidRead q by (auto split: sum.splits invoice_state.splits)
    have "b' = b \<and> k' = k \<and> (\<exists>iv. r = Inr iv \<and> inv_state iv \<noteq> UNCOLLECTIBLE)" if "j = VoidWrite b' k'" for b' k'
      using adv VoidRead q that by (auto split: sum.splits invoice_state.splits)
    moreover have "states (w_db w) k \<noteq> Some UNCOLLECTIBLE" if "r = Inr iv" "inv_state iv \<noteq> UNCOLLECTIBLE" for iv
    proof -
      have "lookup_invoice b k (w_db w) = Some iv" using s that by (simp add: lookup_invoice_def)
      from lookup_row_facts(4) [OF w(2) this] that show ?thesis by simp
    qed
    ultimately show ?thesis using s w1 by (auto simp: same_data_def same_move)
  next
    case (VoidWrite b k)
    obtain r w1 where q: "query E Pool (update_invoice_state (w_dbnow w) k b VOID) w = (r, w1)"
      by fastforce
    have w1: "w' = w1" "\<nexists>b k. j = VoidWrite b k" using adv VoidWrite q by (auto split: sum.splits)
    have "VoidWrite b k \<in> set js" using i VoidWrite by (metis nth_mem)
    with v have "states (w_db w) k \<noteq> Some UNCOLLECTIBLE" by (auto simp: voids_ok_def)
    with void_update [OF q] w1 show ?thesis by (auto intro: ledger_move.voided same_move)
  next
    case (VoidItems k iv)
    then have "reply_with_items E k iv w = (fst (reply_with_items E k iv w), w')" "\<nexists>b k. j = VoidWrite b k"
      using adv by (auto split: prod.splits)
    from reply_with_items_spec [OF this(1)] this(2) show ?thesis by (simp add: same_data_def same_move)
  qed (use adv in \<open>auto simp: same_move\<close>)
qed

lemma service_move:
  assumes "service_moves E s s'" "system_ok E s" "voids_ok s"
  shows "ledger_move (w_db (snd s)) (w_db (snd s')) \<and> voids_ok s'"
proof -
  have w: "w_tx (snd s) = None" "db_ok (w_db (snd s))" using assms(2) by (simp_all add: system_ok_def)
  have keep: "states (w_db (snd s')) k \<noteq> Some UNCOLLECTIBLE"
    if "ledger_move (w_db (snd s)) (w_db (snd s'))" "states (w_db (snd s)) k \<noteq> Some UNCOLLECTIBLE" for k
    using shared_lifecycle_kept [OF ledger_move_states [OF that(1) w(2)], of k] that(2) by blast
  from assms(1) show ?thesis
  proof (cases rule: service_moves.cases)
    case (run i js w j w')
    with assms(2,3) have "ledger_move (w_db w) (w_db w')
        \<and> (\<forall>b k. j = VoidWrite b k \<longrightarrow> js ! i = j \<or> states (w_db w) k \<noteq> Some UNCOLLECTIBLE)"
      by (intro advance_move) simp_all
    moreover have "j' = j \<or> j' \<in> set js" if "j' \<in> set (js[i := j])" for j'
      using that set_update_subset_insert [of js i j] by blast
    moreover have "js ! i \<in> set js" using run(3) by simp
    ultimately show ?thesis
      using keep run(1,2) assms(3) unfolding voids_ok_def by (metis fst_conv snd_conv)
  next
    case (crash i js w)
    then have "VoidWrite b k \<in> set js" if "VoidWrite b k \<in> set (js[i := Crashed])" for b k
      using that set_update_subset_insert [of js i Crashed] by auto
    with crash assms(3) show ?thesis by (auto simp: voids_ok_def same_move)
  next
    case (arrive j js w)
    with assms(3) show ?thesis by (cases j) (auto simp: voids_ok_def same_move)
  next
    case (other ev js w)
    have "ledger_move (w_db w) (w_db (handle E ev w))"
      using calm_move [OF other(3)] w other(1) by simp
    with keep other assms(3) show ?thesis by (auto simp: voids_ok_def)
  qed
qed

lemma service_run:
  assumes "(service_moves E)\<^sup>*\<^sup>* ([], w0) s" "books_ok (w_db w0)" "w_tx w0 = None" "w_psp w0 = []"
  shows "system_ok E s \<and> voids_ok s \<and> shared_books (w_db (snd s))
    \<and> shared_lifecycle\<^sup>*\<^sup>* (states (w_db w0)) (states (w_db (snd s)))"
  using assms(1)
proof (induction rule: rtranclp_induct)
  case base
  show ?case
    using assms(2-) system_ok_initial [of w0 E]
    by (simp add: voids_ok_def books_shared books_ok_def)
next
  case (step s s')
  have "system_ok E ([], w0)" using assms(2-) system_ok_initial [of w0 E] by (simp add: books_ok_def)
  from service_reachable [OF rtranclp.rtrancl_into_rtrancl [OF step.hyps] this]
  have ok: "system_ok E s'" using reachable_ok \<open>system_ok E ([], w0)\<close> by blast
  from service_move [OF step.hyps(2)] step.IH
  have move: "ledger_move (w_db (snd s)) (w_db (snd s'))" "voids_ok s'" by simp_all
  have db: "db_ok (w_db (snd s))" using step.IH by (simp add: system_ok_def)
  from ledger_move_shared [OF move(1) db] ledger_move_states [OF move(1) db] step.IH ok move(2)
  show ?case by (auto intro: rtranclp.rtrancl_into_rtrancl)
qed

section \<open>The properties\<close>

text \<open>
  C4. The books stay right for the whole life of the server. Whatever requests arrive, with whatever
  faults, and however the worker runs in between, one after the other: every constraint of the
  schema holds, every invoice's total is the exact sum of its stored items, an invoice is PAID
  exactly if one of its payment attempts has SUCCEEDED, and it has at most one attempt that has not
  failed. When payments and voids interleave step by step with each other and with all other events,
  and crash anywhere, all of this still holds except that an invoice with a SUCCEEDED attempt may
  be VOID instead of PAID.
\<close>

theorem books_invariant:
  assumes "books_ok (w_db w)" "w_tx w = None"
  shows "books_ok (w_db (run_events E evs w)) \<and> w_tx (run_events E evs w) = None
    \<and> (\<forall>js w'. (service_moves E)\<^sup>*\<^sup>* ([], w) (js, w') \<longrightarrow> w_psp w = [] \<longrightarrow>
        db_ok (w_db w') \<and> totals_ok (w_db w') \<and> attempts_ok (w_db w')
        \<and> (\<forall>iv \<in> set (invoices (w_db w')).
             (inv_state iv = PAID \<longrightarrow> has_succeeded (w_db w') (inv_id iv))
             \<and> (has_succeeded (w_db w') (inv_id iv) \<longrightarrow> inv_state iv = PAID \<or> inv_state iv = VOID)))"
proof (intro conjI allI impI)
  fix js w' assume "(service_moves E)\<^sup>*\<^sup>* ([], w) (js, w')" "w_psp w = []"
  from service_run [OF this(1) assms this(2)] show
    "db_ok (w_db w')" "totals_ok (w_db w')" "attempts_ok (w_db w')"
    "\<forall>iv \<in> set (invoices (w_db w')).
       (inv_state iv = PAID \<longrightarrow> has_succeeded (w_db w') (inv_id iv))
       \<and> (has_succeeded (w_db w') (inv_id iv) \<longrightarrow> inv_state iv = PAID \<or> inv_state iv = VOID)"
    by (simp_all add: system_ok_def shared_books_def paid_or_void_def)
qed (use run_books [OF assms] in simp_all)

text \<open>
  C6. The service refines the invoice state machine. As long as requests and worker batches run one
  after the other, every run is, through the states of the invoices, a run of the automaton (created
  as DRAFT or OPEN, DRAFT and OPEN to VOID, OPEN to PAID), so a PAID, VOID or UNCOLLECTIBLE
  invoice never changes its state. When payments and voids interleave, the automaton needs one more
  step, from PAID to VOID: VOID and UNCOLLECTIBLE stay final, a PAID invoice stays PAID or becomes
  VOID, and in both cases no invoice disappears.
\<close>

theorem service_refines_lifecycle:
  assumes "books_ok (w_db w)" "w_tx w = None"
  shows "lifecycle\<^sup>*\<^sup>* (states (w_db w)) (states (w_db (run_events E evs w)))
    \<and> (\<forall>i s. states (w_db w) i = Some s \<longrightarrow> final s \<longrightarrow>
         states (w_db (run_events E evs w)) i = Some s)
    \<and> dom (states (w_db w)) \<subseteq> dom (states (w_db (run_events E evs w)))
    \<and> (\<forall>js w'. (service_moves E)\<^sup>*\<^sup>* ([], w) (js, w') \<longrightarrow> w_psp w = [] \<longrightarrow>
        shared_lifecycle\<^sup>*\<^sup>* (states (w_db w)) (states (w_db w'))
        \<and> (\<forall>i s. states (w_db w) i = Some s \<longrightarrow> s = VOID \<or> s = UNCOLLECTIBLE \<longrightarrow>
             states (w_db w') i = Some s)
        \<and> (\<forall>i. states (w_db w) i = Some PAID \<longrightarrow> states (w_db w') i \<in> {Some PAID, Some VOID})
        \<and> dom (states (w_db w)) \<subseteq> dom (states (w_db w')))"
proof (intro conjI allI impI)
  fix js w' assume "(service_moves E)\<^sup>*\<^sup>* ([], w) (js, w')" "w_psp w = []"
  from service_run [OF this(1) assms this(2)]
  have run: "shared_lifecycle\<^sup>*\<^sup>* (states (w_db w)) (states (w_db w'))" by simp
  then show "shared_lifecycle\<^sup>*\<^sup>* (states (w_db w)) (states (w_db w'))" .
  note kept = shared_lifecycle_run [OF run]
  show "states (w_db w') i = Some s" if "states (w_db w) i = Some s" "s = VOID \<or> s = UNCOLLECTIBLE" for i s
    using kept [of i] that by auto
  show "states (w_db w') i \<in> {Some PAID, Some VOID}" if "states (w_db w) i = Some PAID" for i
    using kept [of i] that by auto
  show "dom (states (w_db w)) \<subseteq> dom (states (w_db w'))" using kept by blast
next
  have "shared_lifecycle\<^sup>*\<^sup>* (states (w_db w)) (states (w_db (run_events E evs w)))"
    using run_lifecycle [OF assms] by (rule rtranclp_mono [THEN predicate2D, rotated])
      (auto intro: shared_lifecycle.alone)
  from shared_lifecycle_run [OF this]
  show "dom (states (w_db w)) \<subseteq> dom (states (w_db (run_events E evs w)))" by blast
qed (use run_lifecycle [OF assms] lifecycle_run_final [OF run_lifecycle [OF assms]] in blast)+

end
