(* ===== verification/Tenancy.thy ===== *)
theory Tenancy
  imports Service
begin

text \<open>
  Tenant isolation: what a business sees of the database, that no request of one business changes
  what another one sees, and that the answer to a reading request depends on nothing else.
\<close>

section \<open>What a business sees\<close>

definition own_invoices :: "int64 \<Rightarrow> database \<Rightarrow> int64 set" where
  "own_invoices b d = inv_id ` {r \<in> set (invoices d). inv_business r = b}"

definition own_endpoints :: "int64 \<Rightarrow> database \<Rightarrow> int64 set" where
  "own_endpoints b d = whe_id ` {r \<in> set (webhook_endpoints d). whe_business r = b}"

text \<open>The rows that belong to a business, directly or through its invoices and endpoints.\<close>

definition tenant_view :: "int64 \<Rightarrow> database \<Rightarrow> database" where
  "tenant_view b d =
     \<lparr>businesses = filter (\<lambda>r. biz_id r = b) (businesses d),
      api_keys = filter (\<lambda>r. key_business r = b) (api_keys d),
      customers = filter (\<lambda>r. cus_business r = b) (customers d),
      invoices = filter (\<lambda>r. inv_business r = b) (invoices d),
      invoice_items = filter (\<lambda>r. itm_invoice r \<in> own_invoices b d) (invoice_items d),
      idempotency_keys = filter (\<lambda>r. idm_business r = b) (idempotency_keys d),
      payment_attempts = filter (\<lambda>r. att_invoice r \<in> own_invoices b d) (payment_attempts d),
      webhook_endpoints = filter (\<lambda>r. whe_business r = b) (webhook_endpoints d),
      webhook_deliveries = filter (\<lambda>r. whd_endpoint r \<in> own_endpoints b d) (webhook_deliveries d)\<rparr>"

definition isolates :: "int64 \<Rightarrow> database \<Rightarrow> database \<Rightarrow> bool" where
  "isolates b d d' \<longleftrightarrow> (\<forall>c. c \<noteq> b \<longrightarrow> tenant_view c d' = tenant_view c d)"

interpretation iso: db_relation "isolates b" for b
  by unfold_locales (auto simp: isolates_def)

section \<open>Writing\<close>

lemma iso_new_endpoint:
  assumes "whe_business e = b"
  shows "isolates b d (d\<lparr>webhook_endpoints := webhook_endpoints d @ [e]\<rparr>)"
  unfolding isolates_def
proof (intro allI impI)
  fix c assume c: "c \<noteq> b"
  let ?d' = "d\<lparr>webhook_endpoints := webhook_endpoints d @ [e]\<rparr>"
  have own: "own_invoices c ?d' = own_invoices c d" "own_endpoints c ?d' = own_endpoints c d"
    using assms c by (auto simp: own_invoices_def own_endpoints_def)
  show "tenant_view c ?d' = tenant_view c d"
    using assms c by (simp add: tenant_view_def own)
qed

lemma iso_inserts:
  "iso.within b (create_customer now i b nm em)"
  "iso.within b (create_webhook_endpoint now i b u sec)"
proof -
  show "iso.within b (create_customer now i b nm em)"
    by (auto simp: iso.within_def isolates_def tenant_view_def own_invoices_def own_endpoints_def
        create_customer_def elim!: insert_one_InrE)
  show "iso.within b (create_webhook_endpoint now i b u sec)"
    by (auto simp: iso.within_def create_webhook_endpoint_def elim!: insert_one_InrE
        intro!: iso_new_endpoint)
qed

lemma foreign_ids:
  assumes "db_ok d" "c \<noteq> b"
  shows "iv \<in> set (invoices d) \<Longrightarrow> inv_business iv = b \<Longrightarrow> inv_id iv \<notin> own_invoices c d"
    and "e \<in> set (webhook_endpoints d) \<Longrightarrow> whe_business e = b \<Longrightarrow> whe_id e \<notin> own_endpoints c d"
proof -
  have "distinct (map inv_id (invoices d))" "distinct (map whe_id (webhook_endpoints d))"
    using assms(1) by (simp_all add: db_ok_defs)
  with assms(2) show
    "iv \<in> set (invoices d) \<Longrightarrow> inv_business iv = b \<Longrightarrow> inv_id iv \<notin> own_invoices c d"
    "e \<in> set (webhook_endpoints d) \<Longrightarrow> whe_business e = b \<Longrightarrow> whe_id e \<notin> own_endpoints c d"
    by (auto simp: own_invoices_def own_endpoints_def dest: distinct_map_eqD)
qed

text \<open>Deliveries queued for a business go to its own endpoints.\<close>

lemma queued_foreign:
  assumes "db_ok d" "c \<noteq> b" "map whd_endpoint new = map whe_id (active_endpoints b d)"
  shows "filter (\<lambda>r. whd_endpoint r \<in> own_endpoints c d) new = []"
proof -
  have "whd_endpoint r \<notin> own_endpoints c d" if "r \<in> set new" for r
  proof -
    have "whd_endpoint r \<in> set (map whe_id (active_endpoints b d))"
      using that assms(3) by (metis image_eqI list.set_map)
    then obtain e where "e \<in> set (active_endpoints b d)" "whd_endpoint r = whe_id e" by auto
    with foreign_ids(2) [OF assms(1,2), of e] show ?thesis by (simp add: active_endpoints_def)
  qed
  then show ?thesis by (simp add: filter_empty_conv)
qed

lemma created_isolates:
  assumes "invoice_created b req iv rows new d d'" "db_ok d"
  shows "isolates b d d'"
  unfolding isolates_def
proof (intro allI impI)
  fix c assume c: "c \<noteq> b"
  have d': "d' = d\<lparr>invoices := invoices d @ [iv], invoice_items := invoice_items d @ rows,
            webhook_deliveries := webhook_deliveries d @ new\<rparr>"
    and iv: "inv_business iv = b" "inv_id iv \<notin> inv_id ` set (invoices d)"
      "\<forall>r \<in> set rows. itm_invoice r = inv_id iv"
    and new: "map whd_endpoint new = map whe_id (active_endpoints b d)"
    using assms(1) by (auto simp: invoice_created_def)
  have own: "own_invoices c d' = own_invoices c d" "own_endpoints c d' = own_endpoints c d"
    using c iv(1) by (auto simp: own_invoices_def own_endpoints_def d')
  have "filter (\<lambda>r. itm_invoice r \<in> own_invoices c d) rows = []"
    using iv(2,3) by (auto simp: filter_empty_conv own_invoices_def)
  with c iv(1) queued_foreign [OF assms(2) c new] show "tenant_view c d' = tenant_view c d"
    by (simp add: tenant_view_def own) (simp add: d')
qed

lemma moved_own:
  assumes "\<And>r. Q r \<Longrightarrow> inv_business r = b" "\<And>r. inv_business (f r) = inv_business r"
    and "\<And>r. inv_id (f r) = inv_id r" "c \<noteq> b"
  shows "filter (\<lambda>r. inv_business r = c) (map (\<lambda>r. if Q r then f r else r) rows)
    = filter (\<lambda>r. inv_business r = c) rows"
  using assms by (induction rows) auto

lemma voided_isolates:
  assumes "d' = d\<lparr>invoices := map (\<lambda>r. if inv_id r = i \<and> inv_business r = b then void_row now r else r)
                (invoices d)\<rparr>"
  shows "isolates b d d'"
  unfolding isolates_def
proof (intro allI impI)
  fix c assume c: "c \<noteq> b"
  have own: "own_invoices c d' = own_invoices c d" "own_endpoints c d' = own_endpoints c d"
    using c by (auto simp: own_invoices_def own_endpoints_def assms void_row_def image_iff)
  have inv: "filter (\<lambda>r. inv_business r = c) (invoices d') = filter (\<lambda>r. inv_business r = c) (invoices d)"
    unfolding assms using c by (simp, intro moved_own [of _ b]) (simp_all add: void_row_def)
  show "tenant_view c d' = tenant_view c d"
    by (simp add: tenant_view_def own inv) (simp add: assms)
qed

lemma claimed_isolates:
  assumes "claimed_by E w b key ivc token idem att iv d'" "db_ok (w_db w)"
  shows "isolates b (w_db w) d'"
  unfolding isolates_def
proof (intro allI impI)
  fix c assume c: "c \<noteq> b"
  have d': "d' = (w_db w)\<lparr>idempotency_keys := idempotency_keys (w_db w) @ [idem],
                   payment_attempts := payment_attempts (w_db w) @ [att]\<rparr>"
    and look: "lookup_invoice b ivc (w_db w) = Some iv" "att_invoice att = ivc" "idm_business idem = b"
    using assms(1) by (auto simp: claimed_by_def claim_granted_def)
  have "ivc \<notin> own_invoices c (w_db w)"
    using foreign_ids(1) [OF assms(2) c, of iv] look(1)
    by (auto simp: lookup_invoice_def dest!: find_Some_mem)
  moreover have own: "own_invoices c d' = own_invoices c (w_db w)"
      "own_endpoints c d' = own_endpoints c (w_db w)"
    by (simp_all add: own_invoices_def own_endpoints_def d')
  ultimately show "tenant_view c d' = tenant_view c (w_db w)"
    using look c by (simp add: tenant_view_def own) (simp add: d')
qed

lemma settled_isolates:
  assumes "claimed_by E w b key ivc token idem att iv d1" "db_ok (w_db w)"
  shows "isolates b (w_db w) (paid_db E now k b idem att iv result (w_db w))"
  unfolding isolates_def
proof (intro allI impI)
  fix c assume c: "c \<noteq> b"
  let ?d = "w_db w" and ?d' = "paid_db E now k b idem att iv result (w_db w)"
  have look: "lookup_invoice b ivc ?d = Some iv" "att_invoice att = ivc" "idm_business idem = b"
    using assms(1) by (auto simp: claimed_by_def claim_granted_def)
  have att: "att_invoice (settled_attempt now result att) \<notin> own_invoices c ?d"
    using foreign_ids(1) [OF assms(2) c, of iv] look
    by (auto simp: lookup_invoice_def dest!: find_Some_mem)
  have inv: "filter (\<lambda>r. inv_business r = c) (invoices ?d') = filter (\<lambda>r. inv_business r = c) (invoices ?d)"
    using c by (auto simp: paid_db_sel update_where_def open_invoice_def intro!: moved_own [of _ b])
  have rest: "webhook_endpoints ?d' = webhook_endpoints ?d" "businesses ?d' = businesses ?d"
      "api_keys ?d' = api_keys ?d" "customers ?d' = customers ?d" "invoice_items ?d' = invoice_items ?d"
    by (simp_all add: paid_db_def case_prod_unfold Let_def)
  have own: "own_invoices c ?d' = own_invoices c ?d" "own_endpoints c ?d' = own_endpoints c ?d"
    using arg_cong [OF inv, of "\<lambda>xs. inv_id ` set xs"]
    by (simp_all add: own_invoices_def own_endpoints_def rest)
  have "filter (\<lambda>r. whd_endpoint r \<in> own_endpoints c ?d) (case outcome_event E att iv result of
       None \<Rightarrow> [] | Some (ev, payload) \<Rightarrow>
         queued_rows E now (inv_id iv) ev payload k (active_endpoints b ?d)) = []"
    using queued_foreign [OF assms(2) c queued_rows_endpoints]
    by (auto split: option.split)
  moreover have "idm_business (completed_key E now s doc idem) \<noteq> c" for s doc
    using look(3) c by (simp add: completed_key_def)
  ultimately show "tenant_view c ?d' = tenant_view c ?d"
    using att by (simp add: tenant_view_def own inv rest) (simp add: paid_db_sel)
qed

definition iso_step :: "int64 \<Rightarrow> world \<Rightarrow> world \<Rightarrow> bool" where
  "iso_step b w w' \<longleftrightarrow> (w_tx w = None \<longrightarrow> db_ok (w_db w) \<longrightarrow> isolates b (w_db w) (w_db w'))"

lemma iso_pool_step: "iso.pool_step b w w' \<Longrightarrow> iso_step b w w'"
  by (simp add: iso.pool_step_def iso_step_def)

lemma isolates_same: "d' = d \<Longrightarrow> isolates b d d'"
  by (simp add: isolates_def)

lemma create_invoice_iso: "iso_step b w (snd (create_invoice_handler E b body w))"
  unfolding iso_step_def
proof (intro impI)
  assume w: "w_tx w = None" "db_ok (w_db w)"
  obtain rep w' where run: "create_invoice_handler E b body w = (rep, w')" by fastforce
  from run w(1) have "isolates b (w_db w) (w_db w')"
    by (cases rule: create_invoiceE) (auto intro: isolates_same created_isolates [OF _ w(2)])
  with run show "isolates b (w_db w) (w_db (snd (create_invoice_handler E b body w)))" by simp
qed

lemma void_iso: "iso_step b w (snd (void_invoice E b i w))"
  unfolding iso_step_def
proof (intro impI)
  assume w: "w_tx w = None" "db_ok (w_db w)"
  obtain rep w' where run: "void_invoice E b i w = (rep, w')" by fastforce
  from run w(1) have "isolates b (w_db w) (w_db w')"
    by (cases rule: void_invoiceE) (auto intro: isolates_same voided_isolates)
  with run show "isolates b (w_db w) (w_db (snd (void_invoice E b i w)))" by simp
qed

lemma pay_iso: "iso_step b w (snd (pay_invoice E b header i body w))"
  unfolding iso_step_def
proof (intro impI)
  assume w: "w_tx w = None" "db_ok (w_db w)"
  obtain rep w' where run: "pay_invoice E b header i body w = (rep, w')" by fastforce
  then have "isolates b (w_db w) (w_db w')"
  proof (cases rule: pay_invoiceE)
    case (valid key ivc token)
    from run w(1) valid show ?thesis
    proof (cases rule: pay_cases)
      case (settled idem att iv d1 k result)
      from settled_isolates [OF settled(1) w(2)] show ?thesis by (simp add: settled(5))
    qed (auto intro: isolates_same claimed_isolates [OF _ w(2)])
  qed (simp add: isolates_same)
  with run show "isolates b (w_db w) (w_db (snd (pay_invoice E b header i body w)))" by simp
qed

lemma dispatch_iso: "iso_step b w (snd (dispatch E b req w))"
  by (cases req)
    (simp_all add: dispatch_def create_invoice_iso void_iso pay_iso iso_pool_step iso.health_step
      iso.read_steps iso.create_customer_step iso.create_endpoint_step iso_inserts)

text \<open>
  C5. Tenants are isolated: a request that changes anything carries the key of a business, and
  what any other business sees (its customers, invoices, items, payments, keys, endpoints and
  deliveries) is exactly as before, whatever fails.
\<close>

theorem requests_isolated:
  assumes "serve E header req w = (ans, w')" "w_tx w = None" "db_ok (w_db w)"
  shows "w_db w' = w_db w \<or>
    (\<exists>b kid w1. auth_middleware E header w = (Inr (b, kid), w1)
       \<and> (\<forall>c. c \<noteq> b \<longrightarrow> tenant_view c (w_db w') = tenant_view c (w_db w)))"
  using assms(1)
proof (cases rule: serveE)
  case (handled b kid w1)
  with dispatch_iso [of b w1 E req] assms(2,3) show ?thesis
    by (auto simp: same_data_def iso_step_def isolates_def)
qed (simp add: same_data_def)

section \<open>Reading\<close>

text \<open>Two runs that look the same to a business: same view, and the same faults ahead.\<close>

definition alike :: "int64 \<Rightarrow> world \<Rightarrow> world \<Rightarrow> bool" where
  "alike b w v \<longleftrightarrow> tenant_view b (w_db w) = tenant_view b (w_db v) \<and> w_calls w = w_calls v"

text \<open>A statement that changes nothing and whose result depends on the view only.\<close>

definition own_read :: "int64 \<Rightarrow> 'a stmt \<Rightarrow> bool" where
  "own_read b st \<longleftrightarrow>
     (\<forall>d d'. tenant_view b d = tenant_view b d' \<longrightarrow>
        (\<exists>r. st d = map_sum id (\<lambda>x. (x, d)) r \<and> st d' = map_sum id (\<lambda>x. (x, d')) r))"

lemma alike_query:
  assumes "own_read b st" "alike b w v"
  shows "\<exists>r w1 v1. query E Pool st w = (r, w1) \<and> query E Pool st v = (r, v1) \<and> alike b w1 v1"
proof -
  obtain r where r: "st (w_db w) = map_sum id (\<lambda>x. (x, w_db w)) r"
    "st (w_db v) = map_sum id (\<lambda>x. (x, w_db v)) r"
    using assms by (auto simp: own_read_def alike_def)
  have calls: "w_calls v = w_calls w" using assms(2) by (simp add: alike_def)
  show ?thesis
    by (cases r; cases "env_outcome E (w_calls w)")
      (use assms(2) in \<open>simp_all add: query_def run_pool_def Let_def r calls alike_def\<close>)
qed

lemma own_read_one:
  assumes "\<And>d. find P (table d) = find P (table (tenant_view b d))"
  shows "own_read b (select_one P table)"
proof -
  have "\<exists>r. select_one P table d = map_sum id (\<lambda>x. (x, d)) r
      \<and> select_one P table d' = map_sum id (\<lambda>x. (x, d')) r"
    if "tenant_view b d = tenant_view b d'" for d d'
    using assms [of d] assms [of d'] that
    by (cases "find P (table (tenant_view b d'))")
      (auto simp: select_one_def intro: exI [of _ "Inl NoRows"] exI [of _ "Inr _"])
  then show ?thesis by (simp add: own_read_def)
qed

lemma own_read_many:
  assumes "\<And>d. filter P (table d) = filter P (table (tenant_view b d))"
  shows "own_read b (select_many P k table)"
proof -
  have "\<exists>r. select_many P k table d = map_sum id (\<lambda>x. (x, d)) r
      \<and> select_many P k table d' = map_sum id (\<lambda>x. (x, d')) r"
    if "tenant_view b d = tenant_view b d'" for d d'
    using assms [of d] assms [of d'] that
    by (intro exI [of _ "Inr (sort_key k (filter P (table d)))"]) (simp add: select_many_def)
  then show ?thesis by (simp add: own_read_def)
qed

lemma find_filtered: "find (\<lambda>r. P r \<and> Q r) (filter Q xs) = find (\<lambda>r. P r \<and> Q r) xs"
  by (induction xs) auto

lemma own_reads:
  "own_read b (get_customer_by_id i b)" "own_read b (list_customers_by_business_id b)"
  "own_read b (get_invoice_by_id i b)" "own_read b (list_invoices_by_business_id b)"
  "own_read b (get_webhook_endpoint_by_id i b)" "own_read b (list_webhook_endpoints_by_business_id b)"
  unfolding get_customer_by_id_def list_customers_by_business_id_def get_invoice_by_id_def
    list_invoices_by_business_id_def get_webhook_endpoint_by_id_def
    list_webhook_endpoints_by_business_id_def
  by (intro own_read_one own_read_many, simp add: tenant_view_def find_filtered)+

text \<open>The items of its own invoices are part of the view.\<close>

lemma own_items:
  assumes "alike b w v" "ids \<subseteq> own_invoices b (w_db w)"
  shows "filter (\<lambda>r. itm_invoice r \<in> ids) (invoice_items (w_db w))
    = filter (\<lambda>r. itm_invoice r \<in> ids) (invoice_items (w_db v))"
proof -
  have own: "own_invoices b d = inv_id ` set (invoices (tenant_view b d))" for d
    by (auto simp: own_invoices_def tenant_view_def)
  have "filter (\<lambda>r. itm_invoice r \<in> ids) (invoice_items d)
      = filter (\<lambda>r. itm_invoice r \<in> ids) (invoice_items (tenant_view b d))"
    if "ids \<subseteq> own_invoices b d" for d
    using that by (auto simp: tenant_view_def intro!: filter_cong)
  from this [of "w_db w"] this [of "w_db v"] show ?thesis
    using assms own [of "w_db w"] own [of "w_db v"] by (simp add: alike_def)
qed

lemma alike_items:
  assumes "alike b w v" "i \<in> own_invoices b (w_db w)"
  shows "fst (query E Pool (list_invoice_items_by_invoice_id i) w)
    = fst (query E Pool (list_invoice_items_by_invoice_id i) v)"
  using own_items [OF assms(1), of "{i}"] assms
  by (auto simp: query_def run_pool_def Let_def list_invoice_items_by_invoice_id_def select_many_def
      alike_def split: outcome.split)

lemma alike_items_many:
  assumes "alike b w v" "set is \<subseteq> own_invoices b (w_db w)"
  shows "fst (query E Pool (list_invoice_items_by_invoice_ids is) w)
    = fst (query E Pool (list_invoice_items_by_invoice_ids is) v)"
  using own_items [OF assms] assms(1)
  by (auto simp: query_def run_pool_def Let_def list_invoice_items_by_invoice_ids_def select_many_def
      alike_def split: outcome.split)

lemma alike_reply_with_items:
  assumes "alike b w v" "i \<in> own_invoices b (w_db w)"
  shows "fst (reply_with_items E i iv w) = fst (reply_with_items E i iv v)"
  using alike_items [OF assms, of E]
  by (cases "query E Pool (list_invoice_items_by_invoice_id i) w";
      cases "query E Pool (list_invoice_items_by_invoice_id i) v")
    (auto simp: reply_with_items_def split: sum.split)

lemma alike_get_invoice:
  assumes "alike b w v"
  shows "fst (get_invoice_handler E b raw w) = fst (get_invoice_handler E b raw v)"
proof (cases "b = 0 \<or> isl (dec_id E prefix_invoice raw)")
  case True
  then show ?thesis by (auto simp: get_invoice_handler_def split: sum.split)
next
  case False
  then obtain i where i: "b \<noteq> 0" "dec_id E prefix_invoice raw = Inr i"
    by (cases "dec_id E prefix_invoice raw") auto
  obtain r w1 v1 where q: "query E Pool (get_invoice_by_id i b) w = (r, w1)"
      "query E Pool (get_invoice_by_id i b) v = (r, v1)" "alike b w1 v1"
    using alike_query [OF own_reads(3) assms] by blast
  show ?thesis
  proof (cases r)
    case (Inr iv)
    with select_pool [OF q(1) [unfolded get_invoice_by_id_def]]
    have "i \<in> own_invoices b (w_db w1)"
      by (auto simp: own_invoices_def same_data_def dest!: find_Some_mem)
    with i q Inr alike_reply_with_items [OF q(3), of i E iv] show ?thesis
      by (simp add: get_invoice_handler_def)
  qed (use i q in \<open>simp add: get_invoice_handler_def\<close>)
qed

lemma alike_list_invoices:
  assumes "alike b w v"
  shows "fst (list_invoices_handler E b w) = fst (list_invoices_handler E b v)"
proof (cases "b = 0")
  case False
  obtain r w1 v1 where q: "query E Pool (list_invoices_by_business_id b) w = (r, w1)"
      "query E Pool (list_invoices_by_business_id b) v = (r, v1)" "alike b w1 v1"
    using alike_query [OF own_reads(4) assms] by blast
  show ?thesis
  proof (cases "\<exists>ivs. r = Inr ivs \<and> ivs \<noteq> []")
    case True
    then obtain ivs where ivs: "r = Inr ivs" "ivs \<noteq> []" by blast
    with select_many_pool [OF q(1) [unfolded list_invoices_by_business_id_def]]
    have "set (map inv_id ivs) \<subseteq> own_invoices b (w_db w1)"
      by (auto simp: own_invoices_def same_data_def)
    from alike_items_many [OF q(3) this, of E] False q(1,2) ivs show ?thesis
      by (cases "query E Pool (list_invoice_items_by_invoice_ids (map inv_id ivs)) w1";
          cases "query E Pool (list_invoice_items_by_invoice_ids (map inv_id ivs)) v1")
        (auto simp: list_invoices_handler_def split: sum.split)
  qed (use False q(1,2) in \<open>auto simp: list_invoices_handler_def split: sum.split\<close>)
qed (simp add: list_invoices_handler_def)

lemma alike_simple:
  assumes "alike b w v"
  shows "fst (get_customer_handler E b raw w) = fst (get_customer_handler E b raw v)"
    and "fst (list_customers_handler E b w) = fst (list_customers_handler E b v)"
    and "fst (get_endpoint E b raw w) = fst (get_endpoint E b raw v)"
    and "fst (list_endpoints E b w) = fst (list_endpoints E b v)"
proof -
  have q: "fst (query E Pool st w) = fst (query E Pool st v)" if "own_read b st" for st :: "'a stmt"
    using alike_query [OF that assms, of E] by auto
  show "fst (get_customer_handler E b raw w) = fst (get_customer_handler E b raw v)"
    using q [OF own_reads(1)]
    by (auto simp: get_customer_handler_def case_prod_unfold split: sum.split)
  show "fst (list_customers_handler E b w) = fst (list_customers_handler E b v)"
    using q [OF own_reads(2)]
    by (auto simp: list_customers_handler_def case_prod_unfold split: sum.split)
  show "fst (get_endpoint E b raw w) = fst (get_endpoint E b raw v)"
    using q [OF own_reads(5)] by (auto simp: get_endpoint_def case_prod_unfold split: sum.split)
  show "fst (list_endpoints E b w) = fst (list_endpoints E b v)"
    using q [OF own_reads(6)] by (auto simp: list_endpoints_def case_prod_unfold split: sum.split)
qed

fun reading :: "request \<Rightarrow> bool" where
  "reading GetCustomers = True"
| "reading (GetCustomer i) = True"
| "reading GetInvoices = True"
| "reading (GetInvoice i) = True"
| "reading GetEndpoints = True"
| "reading (GetEndpoint i) = True"
| "reading r = False"

text \<open>
  C12. Nothing leaks between tenants: the answer of a reading endpoint is determined by what the
  business sees. In two databases that look the same to it (whatever other businesses have
  stored) it gets the same answer, the faults being the same.
\<close>

theorem reads_confined:
  assumes "reading req" "tenant_view b (w_db w) = tenant_view b (w_db v)" "w_calls w = w_calls v"
  shows "fst (dispatch E b req w) = fst (dispatch E b req v)"
proof -
  have a: "alike b w v" using assms(2,3) by (simp add: alike_def)
  show ?thesis
    using assms(1)
    by (cases req)
      (simp_all add: dispatch_def alike_get_invoice [OF a] alike_list_invoices [OF a] alike_simple [OF a])
qed

end
