(* ===== verification/Delivery.thy ===== *)
theory Delivery
  imports Field_Frame "HOL-Library.Sublist"
begin

text \<open>
  Webhook deliveries over the life of the server: what the worker sends, how a delivery ends, and
  how often it is attempted. The log of requests to the receivers names for each the delivery that
  it was sent for.
\<close>

section \<open>What is sent\<close>



abbreviation cd_id :: "claimed_delivery \<Rightarrow> int64" where
  "cd_id cd \<equiv> whd_id (fst cd)"

text \<open>No receiver's URL is so broken that a request to it cannot be built.\<close>

definition urls_usable :: "env \<Rightarrow> bool" where
  "urls_usable E \<longleftrightarrow> (\<forall>k h e. env_hook E k h \<noteq> BadHookRequest e)"

lemma query_hooks: "w_hooks (snd (query E c st w)) = w_hooks w"
  using hook_log.kept_query [of w E c st] by (simp add: hook_log.kept_def)

text \<open>One delivery sends its request, once, or cannot build it.\<close>

lemma deliver_one_hooks:
  "w_hooks (deliver_one E cd w) = w_hooks w @
     (case env_hook E (length (w_hooks w)) (signed_request E (time_now E 0 w) cd) of
        BadHookRequest e \<Rightarrow> []
      | _ \<Rightarrow> [(cd_id cd, signed_request E (time_now E 0 w) cd)])"
  by (auto simp: deliver_one_def Let_def handle_failure_def query_hooks split: hook_reply.split)

lemma query_calls: "w_calls (snd (query E c st w)) = Suc (w_calls w)"
  by (auto simp: query_def run_pool_def run_tx_def Let_def
      split: conn.split outcome.split sum.split option.split prod.split bool.split db_error.split)

lemma deliver_one_calls: "w_calls (deliver_one E cd w) = Suc (w_calls w)"
  by (auto simp: deliver_one_def Let_def handle_failure_def query_calls split: hook_reply.split)


lemma deliver_one_now: "w_now (deliver_one E cd w) = w_now w"
  using clocks.kept_deliver [of w E cd] by (simp add: clocks.kept_def)

lemma deliver_all_hooks:
  "\<exists>new. w_hooks (fold (deliver_one E) ds w) = w_hooks w @ new
     \<and> subseq (map fst new) (map cd_id ds)
     \<and> (urls_usable E \<longrightarrow> map fst new = map cd_id ds)
     \<and> (\<forall>(i, h) \<in> set new. \<exists>cd \<in> set ds. \<exists>k \<ge> w_calls w. k < w_calls w + length ds \<and>
          i = cd_id cd \<and> h = signed_request E (w_now w + env_elapsed E k 0) cd)"
proof (induction ds arbitrary: w)
  case (Cons cd ds)
  let ?w = "deliver_one E cd w" and ?h = "signed_request E (time_now E 0 w) cd"
  obtain new where new: "w_hooks (fold (deliver_one E) ds ?w) = w_hooks ?w @ new"
    "subseq (map fst new) (map cd_id ds)" "urls_usable E \<longrightarrow> map fst new = map cd_id ds"
    "\<forall>(i, h) \<in> set new. \<exists>c \<in> set ds. \<exists>k \<ge> w_calls ?w. k < w_calls ?w + length ds \<and>
       i = cd_id c \<and> h = signed_request E (w_now ?w + env_elapsed E k 0) c"
    using Cons [of ?w] by blast
  have later: "\<exists>c \<in> set (cd # ds). \<exists>k \<ge> w_calls w. k < w_calls w + length (cd # ds) \<and>
      i = cd_id c \<and> h = signed_request E (w_now w + env_elapsed E k 0) c" if "(i, h) \<in> set new" for i h
  proof -
    from new(4) that obtain c k where "c \<in> set ds" "k \<ge> w_calls ?w"
      "k < w_calls ?w + length ds" "i = cd_id c"
      "h = signed_request E (w_now ?w + env_elapsed E k 0) c" by blast
    then show ?thesis
      by (intro bexI [of _ c] exI [of _ k]) (simp_all add: deliver_one_calls deliver_one_now)
  qed
  have this_one: "\<exists>k \<ge> w_calls w. k < w_calls w + length (cd # ds) \<and> ?h = signed_request E (w_now w + env_elapsed E k 0) cd"
    by (auto simp: time_now_def)
  show ?case
  proof (cases "\<exists>e. env_hook E (length (w_hooks w)) ?h = BadHookRequest e")
    case True
    with new later show ?thesis
      by (intro exI [of _ new]) (auto simp: deliver_one_hooks urls_usable_def)
  next
    case False
    then have "w_hooks ?w = w_hooks w @ [(cd_id cd, ?h)]"
      by (simp add: deliver_one_hooks split: hook_reply.split)
    with new later this_one show ?thesis
      by (intro exI [of _ "(cd_id cd, ?h) # new"]) auto
  qed
qed simp

text \<open>What a claim returns: the due rows, each once, with its endpoint, in the order of the claim.\<close>

lemma claim_ids:
  assumes ok: "db_ok d"
    and claim: "claim_due_webhook_deliveries locked now limit lease d = Inr (ds, d')"
  shows "map cd_id ds = map whd_id (due_deliveries locked now limit d)"
    and "distinct (map cd_id ds)"
proof -
  let ?due = "due_deliveries locked now limit d"
  have ids: "distinct (map whd_id (webhook_deliveries d))" using ok by (simp add: db_ok_defs)
  have ep: "occurs whe_id (whd_endpoint r) (webhook_endpoints d)" if "r \<in> set (webhook_deliveries d)" for r
    using ok that by (simp add: db_ok_defs occurs_iff)
  have one: "\<exists>u sec. join_endpoint d (claim_delivery lease r) = [(claim_delivery lease r, u, sec)]"
    if "r \<in> set ?due" for r
  proof -
    from ep [of r] that have "\<exists>e. find (\<lambda>e. whe_id e = whd_endpoint r) (webhook_endpoints d) = Some e"
      by (auto simp: due_deliveries_mem occurs_iff find_None_iff simp flip: not_None_eq)
    then show ?thesis by (auto simp: join_endpoint_def)
  qed
  have "map cd_id (concat (map (\<lambda>r. join_endpoint d (claim_delivery lease r)) rs)) = map whd_id rs"
    if "set rs \<subseteq> set ?due" for rs
    using that
  proof (induction rs)
    case (Cons r rs)
    from Cons.prems one [of r] obtain u sec where
      "join_endpoint d (claim_delivery lease r) = [(claim_delivery lease r, u, sec)]" by auto
    with Cons show ?case by (simp add: claim_delivery_def)
  qed simp
  from this [of ?due] show cds: "map cd_id ds = map whd_id ?due"
    unfolding claim_result(1) [OF claim] by simp
  have "distinct (map whd_id (sort_key whd_next (filter P (webhook_deliveries d))))" for P
    using ids by (simp add: distinct_map inj_on_def)
  then show "distinct (map cd_id ds)"
    unfolding cds due_deliveries_def by (simp add: Let_def take_map [symmetric] distinct_take)
qed



section \<open>How a delivery ends\<close>

definition ended :: "webhook_delivery \<Rightarrow> bool" where
  "ended r \<longleftrightarrow> whd_status r = DlvDELIVERED \<or> whd_status r = DlvEXHAUSTED"

lemma batch_keeps_ended:
  assumes "db_ok (w_db w)" "r \<in> set (webhook_deliveries (w_db w))" "ended r"
  shows "r \<in> set (webhook_deliveries (w_db (snd (process_batch E wk w))))"
proof -
  let ?st = "claim_due_webhook_deliveries (env_locked E (w_calls w)) (w_dbnow w)
             (wk_batch wk) (w_now w + wk_lease wk)"
  let ?due = "due_deliveries (env_locked E (w_calls w)) (w_dbnow w) (wk_batch wk) (w_db w)"
  obtain q w1 where q: "query E Pool ?st w = (q, w1)" by fastforce
  have notdue: "whd_id r \<notin> whd_id ` set ?due"
  proof
    assume "whd_id r \<in> whd_id ` set ?due"
    then have "r \<in> set ?due" using due_deliveries_by_id [OF assms(1,2)] by blast
    then have "delivery_due (w_dbnow w) r" by (simp add: due_deliveries_mem)
    with assms(3) show False by (auto simp: delivery_due_def ended_def)
  qed
  from q have run: "run_pool E ?st w = (q, w1)" by (simp add: query_def)
  then have w1: "r \<in> set (webhook_deliveries (w_db w1))"
  proof (cases rule: run_poolE)
    case (ok ds d')
    with claim_result(2) [OF ok(1)] assms(2) notdue show ?thesis
      by (auto simp: set_update_where intro!: bexI [of _ r])
  qed (use assms(2) in simp_all)
  show ?thesis
  proof (cases q)
    case (Inr ds)
    with run obtain d' where c: "?st (w_db w) = Inr (ds, d')"
      by (cases rule: run_poolE) auto
    have "whd_id r \<notin> (\<lambda>cd. whd_id (fst cd)) ` set ds"
    proof
      assume "whd_id r \<in> (\<lambda>cd. whd_id (fst cd)) ` set ds"
      then obtain x u sec where "(x, u, sec) \<in> set ds" "whd_id x = whd_id r" by auto
      with claimed_mem [OF assms(1) c, of x u sec] obtain r0 where
        "r0 \<in> set ?due" "x = claim_delivery (w_now w + wk_lease wk) r0" by blast
      with \<open>whd_id x = whd_id r\<close> have "r0 \<in> set ?due" "whd_id r = whd_id r0" by simp_all
      with notdue show False by simp
    qed
    with w1 deliver_all_others [of ds w1 E] q Inr show ?thesis
      by (auto simp: process_batch_def others_kept_def)
  qed (use w1 q in \<open>simp add: process_batch_def\<close>)
qed

text \<open>
  C27. With one worker a delivery that has ended stays as it is: once DELIVERED or EXHAUSTED, its
  row is never claimed, sent or changed again, whatever faults occur and however long the worker
  runs.
\<close>

theorem ended_stays:
  assumes "db_ok (w_db w)" "w_tx w = None" "r \<in> set (webhook_deliveries (w_db w))" "ended r"
  shows "r \<in> set (webhook_deliveries (w_db (start E wk ticks w)))"
  using assms
proof (induction E wk ticks w rule: start.induct)
  case (2 E wk dbnow now ticks w)
  let ?w = "w\<lparr>w_dbnow := dbnow, w_now := now\<rparr>"
  have "r \<in> set (webhook_deliveries (w_db (snd (process_batch E wk ?w))))"
    by (rule batch_keeps_ended) (use "2.prems" in simp_all)
  moreover have "db_ok (w_db (snd (process_batch E wk ?w))) \<and> w_tx (snd (process_batch E wk ?w)) = None"
    using keeps_batch [of ?w E wk] "2.prems" by (simp add: ok_rel.pool_step_def)
  ultimately show ?case using "2.IH" "2.prems" by simp
qed simp

section \<open>At most six attempts\<close>

text \<open>
  A row at rest: not in the hands of a worker, attempted at most six times, and at most five times
  if it is still to be sent.
\<close>

definition at_rest :: "webhook_delivery \<Rightarrow> bool" where
  "at_rest r \<longleftrightarrow> whd_status r \<noteq> DlvPROCESSING \<and> 0 \<le> sint (whd_attempts r) \<and> sint (whd_attempts r) \<le> 6
     \<and> (whd_status r = DlvPENDING \<longrightarrow> sint (whd_attempts r) \<le> 5)"

definition outbox_at_rest :: "database \<Rightarrow> bool" where
  "outbox_at_rest d \<longleftrightarrow> (\<forall>r \<in> set (webhook_deliveries d). at_rest r)"

text \<open>Claimed for one of its six attempts.\<close>

definition in_hand :: "webhook_delivery \<Rightarrow> bool" where
  "in_hand r \<longleftrightarrow> 1 \<le> sint (whd_attempts r) \<and> sint (whd_attempts r) \<le> 6"

text \<open>Without faults, dealing with one claimed row replaces that row by one at rest.\<close>

lemma deliver_one_rests:
  assumes calm: "\<forall>k. env_outcome E k = Answered"
    and x: "fst cd \<in> set (webhook_deliveries (w_db w))" "in_hand (fst cd)"
    and ids: "distinct (map whd_id (webhook_deliveries (w_db w)))"
  shows "\<exists>r'. at_rest r' \<and> whd_id r' = whd_id (fst cd)
    \<and> webhook_deliveries (w_db (deliver_one E cd w))
      = map (\<lambda>r. if whd_id r = whd_id (fst cd) then r' else r) (webhook_deliveries (w_db w))"
proof -
  let ?x = "fst cd"
  have only: "update_where (\<lambda>r. whd_id r = whd_id ?x) f (webhook_deliveries (w_db w))
      = map (\<lambda>r. if whd_id r = whd_id ?x then f ?x else r) (webhook_deliveries (w_db w))" for f
    unfolding update_where_def using distinct_map_eqD [OF ids _ x(1)]
    by (intro map_cong refl if_cong) auto
  have mark: "webhook_deliveries (w_db (snd (query E Pool (update_one (\<lambda>r. whd_id r = whd_id ?x) f
        webhook_deliveries (\<lambda>t d. d\<lparr>webhook_deliveries := t\<rparr>)) v)))
      = map (\<lambda>r. if whd_id r = whd_id ?x then f ?x else r) (webhook_deliveries (w_db w))"
    if "w_db v = w_db w" for f v
    using mark_pool [of E v ?x "\<lambda>r. whd_id r = whd_id ?x" f] calm x(1) that only by simp
  have fail: "\<exists>r'. at_rest r' \<and> whd_id r' = whd_id ?x
      \<and> webhook_deliveries (w_db (handle_failure E ?x m v))
        = map (\<lambda>r. if whd_id r = whd_id ?x then r' else r) (webhook_deliveries (w_db w))"
    if "w_db v = w_db w" for m v
  proof (cases "6 \<le> sint (whd_attempts ?x)")
    case True
    with mark [OF that] x(2) show ?thesis
      by (intro exI [of _ "?x\<lparr>whd_status := DlvEXHAUSTED, whd_error := Some m\<rparr>"])
        (simp add: handle_failure_def six_le mark_webhook_delivery_exhausted_def at_rest_def in_hand_def)
  next
    case False
    with mark [OF that] x(2) show ?thesis
      by (intro exI [of _ "?x\<lparr>whd_status := DlvPENDING,
            whd_next := time_now E 1 v + retry_delay (whd_attempts ?x), whd_error := Some m\<rparr>"])
        (simp add: handle_failure_def six_le mark_webhook_delivery_retry_def at_rest_def in_hand_def)
  qed
  let ?w1 = "w\<lparr>w_hooks := w_hooks w @ [(cd_id cd, signed_request E (time_now E 0 w) cd)]\<rparr>"
  have sent: "\<exists>r'. at_rest r' \<and> whd_id r' = whd_id ?x
      \<and> webhook_deliveries (w_db (snd (query E Pool (mark_webhook_delivery_delivered t (whd_id ?x)) ?w1)))
        = map (\<lambda>r. if whd_id r = whd_id ?x then r' else r) (webhook_deliveries (w_db w))" for t
    using mark [of ?w1] x(2)
    by (intro exI [of _ "?x\<lparr>whd_status := DlvDELIVERED, whd_delivered := Some t, whd_error := None\<rparr>"])
      (simp add: mark_webhook_delivery_delivered_def at_rest_def in_hand_def)
  show ?thesis
    using fail [of w] fail [of ?w1] sent
    by (cases "env_hook E (length (w_hooks w)) (signed_request E (time_now E 0 w) cd)")
      (simp_all add: deliver_one_def Let_def)
qed

lemma deliver_all_rest:
  assumes "\<forall>k. env_outcome E k = Answered" "distinct (map whd_id (webhook_deliveries (w_db w)))"
    and "distinct (map cd_id ds)"
    and "\<forall>cd \<in> set ds. fst cd \<in> set (webhook_deliveries (w_db w)) \<and> in_hand (fst cd)"
    and "\<forall>r \<in> set (webhook_deliveries (w_db w)). whd_id r \<notin> cd_id ` set ds \<longrightarrow> at_rest r"
  shows "outbox_at_rest (w_db (fold (deliver_one E) ds w))"
  using assms(2-)
proof (induction ds arbitrary: w)
  case (Cons cd ds)
  let ?rows = "webhook_deliveries (w_db w)" and ?rows' = "webhook_deliveries (w_db (deliver_one E cd w))"
  obtain r' where r': "at_rest r'" "whd_id r' = cd_id cd"
    "?rows' = map (\<lambda>r. if whd_id r = cd_id cd then r' else r) ?rows"
    using deliver_one_rests [OF assms(1), of cd w] Cons.prems by (meson list.set_intros(1))
  have ids: "map whd_id ?rows' = map whd_id ?rows" using r'(2) by (simp add: r'(3))
  have "outbox_at_rest (w_db (fold (deliver_one E) ds (deliver_one E cd w)))"
  proof (rule Cons.IH)
    show "distinct (map whd_id ?rows')" using Cons.prems(1) by (simp only: ids)
    show "\<forall>c \<in> set ds. fst c \<in> set ?rows' \<and> in_hand (fst c)"
    proof
      fix c assume c: "c \<in> set ds"
      with Cons.prems(2) have "cd_id c \<noteq> cd_id cd" by (metis (no_types, lifting) distinct.simps(2) image_eqI list.simps(9) list.set_map)
      moreover have "fst c \<in> set ?rows" "in_hand (fst c)" using c Cons.prems(3) by auto
      ultimately show "fst c \<in> set ?rows' \<and> in_hand (fst c)"
        by (simp add: r'(3) rev_image_eqI)
    qed
    show "\<forall>r \<in> set ?rows'. whd_id r \<notin> cd_id ` set ds \<longrightarrow> at_rest r"
      using Cons.prems(4) r'(1) by (auto simp: r'(3))
  qed (use Cons.prems(2) in simp)
  then show ?case by simp
qed (simp add: outbox_at_rest_def)

lemma sint_succ_small: "0 \<le> sint (n :: int32) \<Longrightarrow> sint n \<le> 5 \<Longrightarrow> sint (n + 1) = sint n + 1"
  by (simp add: sint_word_ariths signed_take_bit_int_eq_self)

lemma claim_rests:
  assumes ok: "db_ok d" and rest: "outbox_at_rest d"
    and claim: "claim_due_webhook_deliveries locked now limit lease d = Inr (ds, d')"
  shows "distinct (map whd_id (webhook_deliveries d')) \<and> distinct (map cd_id ds)
    \<and> (\<forall>cd \<in> set ds. fst cd \<in> set (webhook_deliveries d') \<and> in_hand (fst cd))
    \<and> (\<forall>r \<in> set (webhook_deliveries d'). whd_id r \<notin> cd_id ` set ds \<longrightarrow> at_rest r)"
proof -
  let ?due = "due_deliveries locked now limit d"
  note cds = claim_ids [OF ok claim]
  have "distinct (map whd_id (webhook_deliveries d'))"
    using keeps_okD [OF keeps_ok_claim_due ok claim] by (simp add: db_ok_defs)
  moreover have "fst cd \<in> set (webhook_deliveries d') \<and> in_hand (fst cd)" if "cd \<in> set ds" for cd
  proof -
    obtain x u sec where cd: "cd = (x, u, sec)" by (cases cd)
    from claimed_mem [OF ok claim, of x u sec] that cd obtain r where r: "r \<in> set ?due"
      "x = claim_delivery lease r" "x \<in> set (webhook_deliveries d')" by blast
    have "r \<in> set (webhook_deliveries d)" "delivery_due now r"
      using due_deliveries_mem [OF r(1)] by simp_all
    then have "at_rest r" "whd_status r = DlvPENDING"
      using rest by (auto simp: outbox_at_rest_def at_rest_def delivery_due_def)
    then have "in_hand x" using r(2) by (auto simp: at_rest_def in_hand_def sint_succ_small)
    with r(3) cd show ?thesis by simp
  qed
  moreover have "at_rest r" if r: "r \<in> set (webhook_deliveries d')" "whd_id r \<notin> cd_id ` set ds" for r
  proof -
    have "whd_id r \<notin> whd_id ` set ?due"
      using r(2) arg_cong [OF cds(1), of set] by simp
    with r(1) claim_result(2) [OF claim] have "r \<in> set (webhook_deliveries d)"
      by (auto simp: set_update_where split: if_splits)
    with rest show ?thesis by (simp add: outbox_at_rest_def)
  qed
  ultimately show ?thesis using cds by simp
qed

lemma batch_rests:
  assumes calm: "\<forall>k. env_outcome E k = Answered" and ok: "db_ok (w_db w)" "outbox_at_rest (w_db w)"
  shows "outbox_at_rest (w_db (snd (process_batch E wk w)))"
proof -
  let ?st = "claim_due_webhook_deliveries (env_locked E (w_calls w)) (w_dbnow w)
             (wk_batch wk) (w_now w + wk_lease wk)"
  show ?thesis
  proof (cases "?st (w_db w)")
    case (Inl e)
    then show ?thesis using calm ok by (simp add: process_batch_def query_def run_pool_def Let_def)
  next
    case (Inr res)
    obtain ds d' where c: "?st (w_db w) = Inr (ds, d')" using Inr by (cases res) simp
    let ?w1 = "w\<lparr>w_calls := Suc (w_calls w), w_db := d'\<rparr>"
    from claim_rests [OF ok c] have "outbox_at_rest (w_db (fold (deliver_one E) ds ?w1))"
      by (intro deliver_all_rest calm) simp_all
    with c calm show ?thesis by (simp add: process_batch_def query_def run_pool_def Let_def)
  qed
qed

text \<open>Requests only ever add deliveries that have not been attempted.\<close>

interpretation resting: db_relation "\<lambda>d d'. outbox_at_rest d \<longrightarrow> outbox_at_rest d'"
  by unfold_locales auto

lemma resting_same:
  "(\<And>d x d'. st d = Inr (x, d') \<Longrightarrow> webhook_deliveries d' = webhook_deliveries d) \<Longrightarrow> resting.within st"
  unfolding resting.within_def by (auto simp: outbox_at_rest_def)

lemma resting_inserts:
  "resting.within (create_customer now i b nm em)"
  "resting.within (create_webhook_endpoint now i b u sec)"
  "resting.within (Queries.create_invoice now i b c t cur s due)"
  "resting.within (Queries.create_invoice_item now i v ds q price)"
  "resting.within (create_idempotency_key now i b key hash)"
  "resting.within (create_payment_attempt now a v i p)"
  by (rule resting_same, auto simp: stmt_defs elim!: insert_one_InrE)+

lemma resting_updates:
  "resting.within (update_invoice_state now i b st)"
  "resting.within (mark_invoice_paid now i b)"
  "resting.within (mark_payment_attempt_unknown now a why)"
  "resting.within (mark_payment_attempt_failed now a co why)"
  "resting.within (mark_payment_attempt_succeeded now a ref)"
  "resting.within (complete_idempotency_key jb now i s doc)"
  by (rule resting_same, auto simp: stmt_defs split: if_splits option.splits elim!: update_one_InrE)+

lemma resting_queue: "resting.within (create_webhook_delivery jb now i ep v ev p)"
  unfolding resting.within_def
  by (auto simp: outbox_at_rest_def at_rest_def stmt_defs elim!: insert_one_InrE)

lemma resting_dispatch: "resting.pool_step w (snd (dispatch E b req w))"
  by (cases req)
    (simp_all add: dispatch_def resting.health_step resting.read_steps resting.create_invoice_step
      resting.void_step resting.pay_step resting.create_customer_step resting.create_endpoint_step
      resting_inserts resting_updates resting_queue)

lemmas resting_serve = resting.serve_step [OF resting_dispatch]

text \<open>
  How often a delivery has been sent, by the log of requests, and how often it was claimed, by its
  counter; no row counts as 0.
\<close>

definition times_sent :: "int64 \<Rightarrow> world \<Rightarrow> nat" where
  "times_sent i w = length (filter (\<lambda>(j, h). j = i) (w_hooks w))"

definition times_claimed :: "int64 \<Rightarrow> database \<Rightarrow> int" where
  "times_claimed i d =
     (case find (\<lambda>r. whd_id r = i) (webhook_deliveries d) of None \<Rightarrow> 0 | Some r \<Rightarrow> sint (whd_attempts r))"

definition sends_counted :: "world \<Rightarrow> bool" where
  "sends_counted w \<longleftrightarrow> (\<forall>i. int (times_sent i w) \<le> times_claimed i (w_db w))"

lemma find_map: "(\<And>x. P (f x) \<longleftrightarrow> P x) \<Longrightarrow> find P (map f xs) = map_option f (find P xs)"
  by (induction xs) auto

text \<open>Every statement keeps or raises the counters.\<close>

interpretation counting: db_relation "\<lambda>d d'. \<forall>i. times_claimed i d \<le> times_claimed i d'"
  by unfold_locales (simp, meson order_trans)

lemma counting_same:
  "(\<And>d x d'. st d = Inr (x, d') \<Longrightarrow> webhook_deliveries d' = webhook_deliveries d) \<Longrightarrow> counting.within st"
  unfolding counting.within_def by (auto simp: times_claimed_def)

lemma counting_inserts:
  "counting.within (create_customer now i b nm em)"
  "counting.within (create_webhook_endpoint now i b u sec)"
  "counting.within (Queries.create_invoice now i b c t cur s due)"
  "counting.within (Queries.create_invoice_item now i v ds q price)"
  "counting.within (create_idempotency_key now i b key hash)"
  "counting.within (create_payment_attempt now a v i p)"
  by (rule counting_same, auto simp: stmt_defs elim!: insert_one_InrE)+

lemma counting_updates:
  "counting.within (update_invoice_state now i b st)"
  "counting.within (mark_invoice_paid now i b)"
  "counting.within (mark_payment_attempt_unknown now a why)"
  "counting.within (mark_payment_attempt_failed now a co why)"
  "counting.within (mark_payment_attempt_succeeded now a ref)"
  "counting.within (complete_idempotency_key jb now i s doc)"
  by (rule counting_same, auto simp: stmt_defs split: if_splits option.splits elim!: update_one_InrE)+

lemma counting_queue: "counting.within (create_webhook_delivery jb now i ep v ev p)"
  unfolding counting.within_def
  by (auto simp: times_claimed_def stmt_defs find_append split: option.split if_splits elim!: insert_one_InrE)

lemma update_where_tries:
  assumes "\<And>r. whd_id (f r) = whd_id r" "\<And>r. whd_attempts (f r) = whd_attempts r"
  shows "times_claimed i (d\<lparr>webhook_deliveries := update_where P f (webhook_deliveries d)\<rparr>)
    = times_claimed i d"
  unfolding times_claimed_def update_where_def
  by (cases "find (\<lambda>r. whd_id r = i) (webhook_deliveries d)") (simp_all add: find_map assms)

lemma counting_dispatch: "counting.pool_step w (snd (dispatch E b req w))"
  by (cases req)
    (simp_all add: dispatch_def counting.health_step counting.read_steps counting.create_invoice_step
      counting.void_step counting.pay_step counting.create_customer_step counting.create_endpoint_step
      counting_inserts counting_updates counting_queue)

lemmas counting_serve = counting.serve_step [OF counting_dispatch]

lemma counted_serve:
  assumes "w_tx w = None" "sends_counted w"
  shows "sends_counted (snd (serve E header req w))"
proof -
  have "w_hooks (snd (serve E header req w)) = w_hooks w"
    using hook_log.kept_serve [of w E header req] by (simp add: hook_log.kept_def)
  then have "times_sent i (snd (serve E header req w)) = times_sent i w" for i
    by (simp add: times_sent_def)
  with counting_serve [of w E header req] assms show ?thesis
    unfolding sends_counted_def counting.pool_step_def by (metis order_trans)
qed

text \<open>A claim raises the counter of each claimed delivery by one.\<close>

lemma sint_succ_below_max:
  assumes "n \<noteq> (0x7FFFFFFF :: int32)"
  shows "sint (n + 1) = sint n + 1"
proof -
  have "sint n < 2 ^ 31" "- (2 ^ 31) \<le> sint n"
    using sint_lt [of n] sint_ge [of n] by simp_all
  moreover have "sint n \<noteq> 2 ^ 31 - 1"
  proof
    assume "sint n = 2 ^ 31 - 1"
    then have "(of_int (sint n) :: int32) = of_int (2 ^ 31 - 1)" by simp
    with assms show False by simp
  qed
  ultimately show ?thesis
    by (simp add: sint_word_ariths signed_take_bit_int_eq_self)
qed

lemma claim_counts:
  assumes ok: "db_ok d"
    and claim: "claim_due_webhook_deliveries locked now limit lease d = Inr (ds, d')"
  shows "times_claimed i d' = times_claimed i d + of_bool (i \<in> set (map cd_id ds))"
proof -
  let ?due = "due_deliveries locked now limit d"
  let ?P = "\<lambda>r. whd_id r \<in> whd_id ` set ?due \<and> occurs whe_id (whd_endpoint r) (webhook_endpoints d)"
  have d': "webhook_deliveries d' = map (\<lambda>r. if ?P r then claim_delivery lease r else r) (webhook_deliveries d)"
    using claim_result(2) [OF claim] by (simp add: update_where_def)
  have found: "find (\<lambda>r. whd_id r = i) (webhook_deliveries d')
      = map_option (\<lambda>r. if ?P r then claim_delivery lease r else r)
          (find (\<lambda>r. whd_id r = i) (webhook_deliveries d))"
    unfolding d' by (rule find_map) simp
  have ids: "i \<in> set (map cd_id ds) \<longleftrightarrow> i \<in> whd_id ` set ?due"
    unfolding claim_ids(1) [OF ok claim] by simp
  have small: "\<forall>r \<in> set ?due. whd_attempts r \<noteq> 0x7FFFFFFF"
    using claim by (auto simp: claim_due_webhook_deliveries_def Let_def list_ex_iff split: if_splits)
  show ?thesis
  proof (cases "find (\<lambda>r. whd_id r = i) (webhook_deliveries d)")
    case None
    then have "i \<notin> whd_id ` set ?due"
      by (auto simp: find_None_iff dest: due_deliveries_mem)
    with None found ids show ?thesis by (simp add: times_claimed_def)
  next
    case (Some r)
    then have r: "r \<in> set (webhook_deliveries d)" "whd_id r = i" by (auto dest: find_Some_mem)
    have occ: "occurs whe_id (whd_endpoint r) (webhook_endpoints d)"
      using ok r(1) by (simp add: db_ok_defs occurs_iff)
    have "sint (whd_attempts r + 1) = sint (whd_attempts r) + 1" if "i \<in> whd_id ` set ?due"
      using due_deliveries_by_id [OF ok r(1)] that r(2) small by (intro sint_succ_below_max) auto
    with Some found ids occ r(2) show ?thesis by (simp add: times_claimed_def)
  qed
qed

lemma subseq_times:
  "subseq xs ys \<Longrightarrow> distinct ys \<Longrightarrow> length (filter (\<lambda>j. j = i) xs) \<le> of_bool (i \<in> set ys)"
  using list_emb_length [OF subseq_filter, of xs ys "\<lambda>j. j = i"]
  by (induction ys) (auto simp: distinct_length_filter Collect_conv_if Int_insert_right_if0)

text \<open>Dealing with the claimed rows keeps the counters and sends each at most once.\<close>

interpretation tallied: db_relation "\<lambda>d d'. \<forall>i. times_claimed i d' = times_claimed i d"
  by unfold_locales simp_all

lemma tallied_marks:
  "tallied.within (mark_webhook_delivery_exhausted i m)"
  "tallied.within (mark_webhook_delivery_retry i t m)"
  "tallied.within (mark_webhook_delivery_delivered t i)"
  unfolding tallied.within_def
  by (auto simp: stmt_defs update_where_tries elim!: update_one_InrE)

lemma deliver_all_counts:
  assumes "w_tx w = None"
  shows "times_claimed i (w_db (fold (deliver_one E) ds w)) = times_claimed i (w_db w)"
proof -
  have "tallied.pool_step w (fold (deliver_one E) ds w)" for w
  proof (induction ds arbitrary: w)
    case (Cons cd ds)
    show ?case
      using tallied.pool.trans [OF tallied.deliver_one_step [OF tallied_marks] Cons] by simp
  qed (simp add: tallied.pool.refl)
  with assms show ?thesis by (auto simp: tallied.pool_step_def)
qed

lemma batch_counted:
  assumes "w_tx w = None" "db_ok (w_db w)" "sends_counted w"
  shows "sends_counted (snd (process_batch E wk w))"
proof -
  let ?st = "claim_due_webhook_deliveries (env_locked E (w_calls w)) (w_dbnow w)
             (wk_batch wk) (w_now w + wk_lease wk)"
  obtain r w1 where q: "query E Pool ?st w = (r, w1)" by fastforce
  then have run: "run_pool E ?st w = (r, w1)" by (simp add: query_def)
  have hooks: "w_hooks w1 = w_hooks w"
    using hook_log.kept_query [of w E Pool ?st] q by (simp add: hook_log.kept_def)
  have tx: "w_tx w1 = None" using run assms(1) by (cases rule: run_poolE) simp_all
  have claimed: "times_claimed i (w_db w1) \<ge> times_claimed i (w_db w)
      + (case r of Inl e \<Rightarrow> 0 | Inr ds \<Rightarrow> of_bool (i \<in> set (map cd_id ds)))" for i
    using run
  proof (cases rule: run_poolE)
    case (ok ds d')
    with claim_counts [OF assms(2) ok(1), of i] show ?thesis by (auto split: if_splits)
  qed (auto split: sum.split)
  show ?thesis
  proof (cases r)
    case (Inl e)
    with claimed assms(3) hooks q show ?thesis
      by (simp add: process_batch_def sends_counted_def times_sent_def) (meson order_trans)
  next
    case (Inr ds)
    obtain d' where c: "?st (w_db w) = Inr (ds, d')"
      using run Inr by (cases rule: run_poolE) auto
    let ?w = "fold (deliver_one E) ds w1"
    obtain new where new: "w_hooks ?w = w_hooks w @ new" "subseq (map fst new) (map cd_id ds)"
      using deliver_all_hooks [of E ds w1] hooks by auto
    have "int (times_sent i ?w) \<le> times_claimed i (w_db ?w)" for i
    proof -
      have "length (filter (\<lambda>(j, h). j = i) new) = length (filter (\<lambda>j. j = i) (map fst new))"
        by (simp add: filter_map comp_def case_prod_unfold)
      also have "\<dots> \<le> of_bool (i \<in> set (map cd_id ds))"
        by (rule subseq_times [OF new(2) claim_ids(2) [OF assms(2) c]])
      finally have "int (length (filter (\<lambda>(j, h). j = i) new)) \<le> of_bool (i \<in> set (map cd_id ds))"
        by (cases "i \<in> set (map cd_id ds)") simp_all
      then have "int (times_sent i ?w) \<le> int (times_sent i w) + of_bool (i \<in> set (map cd_id ds))"
        by (simp add: times_sent_def new(1) del: set_map)
      also have "\<dots> \<le> times_claimed i (w_db w) + of_bool (i \<in> set (map cd_id ds))"
        using assms(3) by (simp add: sends_counted_def)
      also have "\<dots> \<le> times_claimed i (w_db w1)" using claimed [of i] Inr by simp
      also have "\<dots> \<le> times_claimed i (w_db ?w)" using deliver_all_counts [of w1 i E ds] tx by simp
      finally show ?thesis .
    qed
    with q Inr show ?thesis by (simp add: process_batch_def sends_counted_def)
  qed
qed

lemma times_sent_clock [simp]: "times_sent i (w\<lparr>w_dbnow := a, w_now := b\<rparr>) = times_sent i w"
  by (simp add: times_sent_def)

lemma handle_rests:
  assumes "\<forall>k. env_outcome E k = Answered" "w_tx w = None" "db_ok (w_db w)" "outbox_at_rest (w_db w)"
    and "sends_counted w"
  shows "outbox_at_rest (w_db (handle E ev w)) \<and> db_ok (w_db (handle E ev w)) \<and> w_tx (handle E ev w) = None
    \<and> sends_counted (handle E ev w)"
proof -
  obtain dbnow now e where ev: "ev = (dbnow, now, e)" by (cases ev)
  let ?w = "w\<lparr>w_dbnow := dbnow, w_now := now\<rparr>"
  have "sends_counted ?w" using assms(5) by (simp add: sends_counted_def)
  with assms resting_serve [of ?w E] keeps_serve [of ?w E] keeps_batch [of ?w E]
    batch_rests [OF assms(1), of ?w] counted_serve [of ?w E] batch_counted [of ?w E]
  show ?thesis
    by (cases e) (simp_all add: handle_def ev Let_def resting.pool_step_def ok_rel.pool_step_def)
qed

lemma run_rests:
  assumes "\<forall>k. env_outcome E k = Answered" "w_tx w = None" "db_ok (w_db w)" "outbox_at_rest (w_db w)"
    and "sends_counted w"
  shows "outbox_at_rest (w_db (run_events E evs w)) \<and> db_ok (w_db (run_events E evs w))
    \<and> sends_counted (run_events E evs w)"
  using assms(2-)
proof (induction evs arbitrary: w)
  case (Cons ev evs)
  from handle_rests [OF assms(1) Cons.prems, of ev] Cons.IH [of "handle E ev w"]
  show ?case by (simp add: run_events_def)
qed (simp add: run_events_def)

text \<open>
  C13. As long as the database answers every statement, no delivery is sent more than six times over
  the life of the server, whatever requests arrive, however the receivers answer and however often
  the worker runs: in the log of requests each delivery occurs at most as often as its counter says
  and at most six times, and after each event every row is PENDING with at most five attempts,
  DELIVERED or EXHAUSTED, with a counter of at most six.
\<close>

theorem at_most_six_attempts:
  assumes "\<forall>k. env_outcome E k = Answered" "w_tx w = None" "db_ok (w_db w)" "outbox_at_rest (w_db w)"
    and "w_hooks w = []"
  shows "outbox_at_rest (w_db (run_events E evs w))
    \<and> (\<forall>i. length (filter (\<lambda>(j, h). j = i) (w_hooks (run_events E evs w))) \<le> 6)
    \<and> (\<forall>r \<in> set (webhook_deliveries (w_db (run_events E evs w))).
         length (filter (\<lambda>(j, h). j = whd_id r) (w_hooks (run_events E evs w))) \<le> nat (sint (whd_attempts r)))"
proof -
  let ?w = "run_events E evs w"
  have "0 \<le> times_claimed i (w_db w)" for i
    using assms(4) by (auto simp: times_claimed_def outbox_at_rest_def at_rest_def dest: find_Some_mem
        split: option.split)
  then have "sends_counted w" using assms(5) by (simp add: sends_counted_def times_sent_def)
  from run_rests [OF assms(1-4) this, of evs]
  have rest: "outbox_at_rest (w_db ?w)" and ok: "db_ok (w_db ?w)" and counted: "sends_counted ?w"
    by simp_all
  have "times_claimed i (w_db ?w) \<le> 6" for i
    using rest by (auto simp: times_claimed_def outbox_at_rest_def at_rest_def dest: find_Some_mem
        split: option.split)
  then have six: "int (times_sent i ?w) \<le> 6" for i
    using counted order_trans unfolding sends_counted_def by blast
  have "times_claimed (whd_id r) (w_db ?w) = sint (whd_attempts r)"
    if r: "r \<in> set (webhook_deliveries (w_db ?w))" for r
  proof -
    have ids: "distinct (map whd_id (webhook_deliveries (w_db ?w)))" using ok by (simp add: db_ok_defs)
    obtain r' where r': "find (\<lambda>x. whd_id x = whd_id r) (webhook_deliveries (w_db ?w)) = Some r'"
      using r by (cases "find (\<lambda>x. whd_id x = whd_id r) (webhook_deliveries (w_db ?w))")
        (auto simp: find_None_iff)
    with find_Some_mem [OF r'] distinct_map_eqD [OF ids _ r] have "r' = r" by blast
    with r' show ?thesis by (simp add: times_claimed_def)
  qed
  then have "times_sent (whd_id r) ?w \<le> nat (sint (whd_attempts r))"
    if "r \<in> set (webhook_deliveries (w_db ?w))" for r
    using counted that nat_mono [of "int (times_sent (whd_id r) ?w)" "sint (whd_attempts r)"]
    unfolding sends_counted_def by (metis nat_int)
  with rest six show ?thesis by (simp add: times_sent_def)
qed

section \<open>A lost mark\<close>










end
