(* ===== verification/Api.thy ===== *)
theory Api
  imports Service
begin

text \<open>
  The answers of the service against \<open>openapi.yaml\<close>: which kind of answer and which status each
  route may give. The stored responses that payments replay are part of the invariant.
\<close>

section \<open>The documented statuses\<close>

text \<open>Success statuses, documented error statuses, and the other error statuses of the code.\<close>

fun api :: "request \<Rightarrow> nat set \<times> nat set \<times> nat set" where
  "api Health = ({200, 503}, {}, {})"
| "api (PostCustomer _) = ({201}, {400, 401}, {500})"
| "api GetCustomers = ({200}, {401}, {500})"
| "api (GetCustomer _) = ({200}, {401, 404}, {500})"
| "api (PostInvoice _) = ({201}, {400, 401}, {500})"
| "api GetInvoices = ({200}, {401}, {500})"
| "api (GetInvoice _) = ({200}, {401, 404}, {500})"
| "api (PostVoid _) = ({200}, {400}, {401, 404, 500})"
| "api (PostPay _ _ _) = ({200, 202, 402}, {401, 404, 409}, {400, 500})"
| "api (PostEndpoint _ _) = ({201}, {400, 401}, {500})"
| "api GetEndpoints = ({200}, {401}, {500})"
| "api (GetEndpoint _) = ({200}, {401, 404}, {500})"

fun reply_in :: "nat set \<Rightarrow> nat set \<Rightarrow> 'a reply \<Rightarrow> bool" where
  "reply_in ok err (Reply s x) \<longleftrightarrow> s \<in> ok"
| "reply_in ok err (ErrorReply s e) \<longleftrightarrow> s \<in> err"

datatype schema =
    HealthBody | CustomerBody | CustomerList | InvoiceBody | InvoiceList | PaymentBody
  | EndpointBody | EndpointList

fun schema_of :: "request \<Rightarrow> schema" where
  "schema_of Health = HealthBody"
| "schema_of (PostCustomer _) = CustomerBody"
| "schema_of GetCustomers = CustomerList"
| "schema_of (GetCustomer _) = CustomerBody"
| "schema_of (PostInvoice _) = InvoiceBody"
| "schema_of GetInvoices = InvoiceList"
| "schema_of (GetInvoice _) = InvoiceBody"
| "schema_of (PostVoid _) = InvoiceBody"
| "schema_of (PostPay _ _ _) = PaymentBody"
| "schema_of (PostEndpoint _ _) = EndpointBody"
| "schema_of GetEndpoints = EndpointList"
| "schema_of (GetEndpoint _) = EndpointBody"

text \<open>An answer that fits its request: the right kind of body, and a status that is allowed.\<close>

definition fits :: "nat set \<Rightarrow> nat set \<Rightarrow> schema \<Rightarrow> answer \<Rightarrow> bool" where
  "fits ok err sch ans \<longleftrightarrow>
     (case ans of
        HealthAnswer s x \<Rightarrow> sch = HealthBody \<and> s \<in> ok
      | CustomerAnswer r \<Rightarrow> sch = CustomerBody \<and> reply_in ok err r
      | CustomersAnswer r \<Rightarrow> sch = CustomerList \<and> reply_in ok err r
      | InvoiceAnswer r \<Rightarrow> sch = InvoiceBody \<and> reply_in ok err r
      | InvoicesAnswer r \<Rightarrow> sch = InvoiceList \<and> reply_in ok err r
      | PayAnswer r \<Rightarrow> sch = PaymentBody \<and> reply_in ok err r
      | EndpointAnswer r \<Rightarrow> sch = EndpointBody \<and> reply_in ok err r
      | EndpointsAnswer r \<Rightarrow> sch = EndpointList \<and> reply_in ok err r
      | Aborted s e \<Rightarrow> sch \<noteq> HealthBody \<and> s \<in> err)"

definition answers :: "request \<Rightarrow> answer \<Rightarrow> bool" where
  "answers req ans \<longleftrightarrow> (case api req of (ok, err, extra) \<Rightarrow> fits ok (err \<union> extra) (schema_of req) ans)"

section \<open>Stored responses\<close>

definition response_ok :: "idempotency_key \<Rightarrow> bool" where
  "response_ok r \<longleftrightarrow>
     (case idm_status r of
        IdemCOMPLETED \<Rightarrow> idm_response_status r \<in> {Some 200, Some 202, Some 402}
          \<and> idm_response_body r \<noteq> None
      | IdemPROCESSING \<Rightarrow> idm_response_status r = None \<and> idm_response_body r = None)"

definition responses_ok :: "database \<Rightarrow> bool" where
  "responses_ok d \<longleftrightarrow> (\<forall>r \<in> set (idempotency_keys d). response_ok r)"

section \<open>The answers of the handlers\<close>

named_theorems answer_defs \<open>what unfolds a handler down to its answers\<close>

declare fail_with_def [answer_defs] case_prod_unfold [answer_defs] Let_def [answer_defs]

lemma customer_answers:
  "reply_in {201} {400, 401, 500} (fst (create_customer_handler E b body w))"
  "reply_in {200} {401, 500} (fst (list_customers_handler E b w))"
  "reply_in {200} {401, 404, 500} (fst (get_customer_handler E b i w))"
  by (auto simp: answer_defs create_customer_handler_def list_customers_handler_def
      get_customer_handler_def split: sum.split option.split)

lemma endpoint_answers:
  "reply_in {201} {400, 401, 500} (fst (create_endpoint E b ob random w))"
  "reply_in {200} {401, 500} (fst (list_endpoints E b w))"
  "reply_in {200} {401, 404, 500} (fst (get_endpoint E b i w))"
  by (auto simp: answer_defs create_endpoint_def list_endpoints_def
      get_endpoint_def split: sum.split option.split)

lemma items_answer: "reply_in {200} {500} (fst (reply_with_items E i iv w))"
  by (auto simp: answer_defs reply_with_items_def split: sum.split)

lemma reply_in_mono: "reply_in ok err r \<Longrightarrow> ok \<subseteq> ok' \<Longrightarrow> err \<subseteq> err' \<Longrightarrow> reply_in ok' err' r"
  by (cases r) auto

lemmas items_answer_in = items_answer [THEN reply_in_mono]

lemma invoice_reads:
  "reply_in {200} {401, 500} (fst (list_invoices_handler E b w))"
  "reply_in {200} {401, 404, 500} (fst (get_invoice_handler E b i w))"
  by (auto simp: answer_defs list_invoices_handler_def get_invoice_handler_def
      intro!: items_answer_in split: sum.split list.split)

lemma void_answer: "reply_in {200} {400, 401, 404, 500} (fst (void_invoice E b i w))"
  by (auto simp: answer_defs void_invoice_def intro!: items_answer_in
      split: sum.split invoice_state.split)

lemma validate_answer: "validate_invoice req = Inl rep \<Longrightarrow> reply_in {} {400} rep"
  by (auto simp: answer_defs validate_invoice_def split: if_splits option.splits sum.splits)

lemma create_invoice_answer:
  "reply_in {201} {400, 401, 500} (fst (create_invoice_handler E b body w))"
  by (auto simp: answer_defs create_invoice_handler_def split: sum.split option.split
      dest!: validate_answer intro: reply_in_mono)

lemma pay_answer:
  assumes "responses_ok (w_db w)" "w_tx w = None"
  shows "reply_in {200, 202, 402} {400, 404, 409, 500} (fst (pay_invoice E b header i body w))"
proof -
  obtain rep w' where run: "pay_invoice E b header i body w = (rep, w')" by fastforce
  have failure: "reply_in {200, 202, 402} {400, 404, 409, 500} (claim_failure e)" for e
    by (auto simp: claim_failure_def fail_with_def split: pay_error.split db_error.split)
  from run have "reply_in {200, 202, 402} {400, 404, 409, 500} rep"
  proof (cases rule: pay_invoiceE)
    case (valid key ivc token)
    from run assms(2) valid show ?thesis
    proof (cases rule: pay_cases)
      case (replayed ex)
      then have "ex \<in> set (idempotency_keys (w_db w))"
        by (auto simp: lookup_idem_def dest!: find_Some_mem)
      with assms(1) replayed(6) have "response_ok ex" by (simp add: responses_ok_def)
      with replayed(3,6) show ?thesis by (auto simp: response_ok_def replay_reply_def)
    next
      case (settled idem att iv d1 k result)
      then show ?thesis
        by (auto simp: outcome_response_def fail_with_def Let_def split: sum.splits if_splits)
    qed (simp_all add: failure fail_with_def)
  qed (auto simp: fail_with_def)
  with run show ?thesis by simp
qed

section \<open>Every answer\<close>

lemma middleware_none: "w_tx w = None \<Longrightarrow> w_tx (snd (auth_middleware E header w)) = None"
  using ok_rel.middleware_step [of w E header] by (simp add: ok_rel.pool_step_def)

lemmas handler_answers = customer_answers endpoint_answers invoice_reads void_answer create_invoice_answer

lemma dispatch_answers:
  assumes "responses_ok (w_db w)" "w_tx w = None"
  shows "answers req (fst (dispatch E b req w))"
  by (cases req)
    (auto simp: answers_def fits_def dispatch_def health_def health_ok_def health_error_def Let_def
      intro!: handler_answers [THEN reply_in_mono] pay_answer [OF assms, THEN reply_in_mono])

lemma serve_answers:
  assumes "responses_ok (w_db w)" "w_tx w = None"
  shows "answers req (fst (serve E header req w))"
proof (cases "req = Health")
  case True
  then show ?thesis by (simp add: serve_def answers_def fits_def health_def health_ok_def health_error_def Let_def)
next
  case False
  obtain r w1 where a: "auth_middleware E header w = (r, w1)" by fastforce
  with middleware_same [of w E header] assms have "responses_ok (w_db w1)" "w_tx w1 = None"
    by (simp_all add: same_data_def)
  from dispatch_answers [OF this, of req E] a show ?thesis
    using False
    by (cases r; cases req) (auto simp: serve_authenticated answers_def fits_def)
qed

section \<open>Every event keeps the stored responses\<close>

interpretation responses: db_relation "\<lambda>d d'. responses_ok d \<longrightarrow> responses_ok d'"
  by unfold_locales auto

lemma responses_same:
  "(\<And>d x d'. st d = Inr (x, d') \<Longrightarrow> idempotency_keys d' = idempotency_keys d) \<Longrightarrow> responses.within st"
  unfolding responses.within_def by (auto simp: responses_ok_def)

lemma responses_inserts:
  "responses.within (create_customer now i b nm em)"
  "responses.within (create_webhook_endpoint now i b u sec)"
  "responses.within (Queries.create_invoice now i b c t cur s due)"
  "responses.within (Queries.create_invoice_item now i v ds q price)"
  "responses.within (create_webhook_delivery jb now i ep v ev p)"
  by (rule responses_same, auto simp: stmt_defs elim!: insert_one_InrE)+

lemma responses_updates:
  "responses.within (update_invoice_state now i b st)"
  "responses.within (mark_webhook_delivery_exhausted i m)"
  "responses.within (mark_webhook_delivery_retry i t m)"
  "responses.within (mark_webhook_delivery_delivered t i)"
  "responses.within (claim_due_webhook_deliveries l n k t)"
  by (rule responses_same,
      auto simp: stmt_defs Let_def split: if_splits option.splits elim!: update_one_InrE)+

lemma pay_responses: "responses.pool_step w (snd (pay_invoice E b header i body w))"
  unfolding responses.pool_step_def
proof (intro impI)
  assume idle: "w_tx w = None"
  obtain rep w' where run: "pay_invoice E b header i body w = (rep, w')" by fastforce
  have tx: "w_tx w' = None"
    using keeps_pay [of w E b header i body] run idle by (simp add: ok_rel.pool_step_def)
  have claimed: "responses_ok d" if "responses_ok (w_db w)" "claimed_by E w b key ivc token idem att iv d"
    for key ivc token idem att iv d
    using that by (auto simp: claimed_by_def claim_granted_def responses_ok_def response_ok_def
        new_idem_def)
  have "responses_ok (w_db w')" if ok: "responses_ok (w_db w)"
    using run
  proof (cases rule: pay_invoiceE)
    case (valid key ivc token)
    from run idle valid show ?thesis
    proof (cases rule: pay_cases)
      case (settled idem att iv d1 k result)
      with ok show ?thesis
        by (auto simp: responses_ok_def paid_db_sel response_ok_def completed_key_def
            outcome_response_def Let_def split: sum.splits)
    qed (use ok claimed in auto)
  qed (use ok in simp)
  with tx run show "w_tx (snd (pay_invoice E b header i body w)) = None \<and>
      (responses_ok (w_db w) \<longrightarrow> responses_ok (w_db (snd (pay_invoice E b header i body w))))"
    by simp
qed

lemma responses_dispatch: "responses.pool_step w (snd (dispatch E b req w))"
  by (cases req)
    (simp_all add: dispatch_def responses.health_step responses.read_steps responses.create_invoice_step
      responses.void_step pay_responses responses.create_customer_step responses.create_endpoint_step
      responses_inserts responses_updates)

lemma responses_batch: "responses.pool_step w (snd (process_batch E wk w))"
  by (intro responses.process_batch_step responses_updates)

lemmas run_responses = responses.run_step [OF responses_dispatch responses_batch]

text \<open>
  C15. Every answer fits its request: at any point of any run, with any faults, each route answers
  with its own kind of body and a success status of \<open>openapi.yaml\<close>, or with an error status that
  is documented there or is one of the listed others (500 everywhere, 401 and 404 for a void, 400
  for a payment). Replayed payments included: every stored response of a completed key has one of
  the three statuses of a payment and a body.
\<close>

theorem answers_fit_api:
  assumes "responses_ok (w_db w)" "w_tx w = None"
  shows "answers req (fst (serve E header req (run_events E evs w)))
    \<and> responses_ok (w_db (run_events E evs w))"
  using serve_answers run_responses [of w E evs] assms by (simp add: responses.pool_step_def)

end
