(* ===== verification/Demo_Key.thy ===== *)
theory Demo_Key
  imports Service
begin

text \<open>
  The start of the server and what follows it: the demo key that the bootstrap hands out works for
  the whole life of the server, as no request touches the stored keys.
\<close>

section \<open>Texts that trimming leaves alone\<close>

lemma trim_space_idle:
  assumes "s \<noteq> []" "hd s \<notin> set (map hd space_seqs)" "last s \<notin> set (map last space_seqs)"
  shows "trim_space s = s"
proof -
  have ne: "\<forall>p \<in> set space_seqs. p \<noteq> []" by (simp add: space_seqs_def)
  have "\<not> prefix p s" if p: "p \<in> set space_seqs" for p
  proof
    assume "prefix p s"
    then obtain t where "s = p @ t" by (rule prefixE)
    with ne p have "hd s = hd p" by simp
    with p assms(2) show False by simp
  qed
  then have front: "trim_seqs space_seqs s = s" by (intro trim_seqs_idle) blast
  have "\<not> prefix (rev p) (rev s)" if "p \<in> set space_seqs" for p
    using that ne assms(1,3) by (cases p rule: rev_cases; cases s rule: rev_cases) force+
  then have "trim_seqs (map rev space_seqs) (rev s) = rev s" by (intro trim_seqs_idle) auto
  with front show ?thesis by (simp add: trim_space_def)
qed

lemma hex_encode_last:
  assumes "b \<noteq> []"
  shows "hex_encode b \<noteq> [] \<and> last (hex_encode b) \<notin> set (map last space_seqs)"
proof -
  have digit: "hex_digits ! n \<notin> set (map last space_seqs)" if "n < 16" for n
  proof -
    have "list_all (\<lambda>n. hex_digits ! n \<notin> set (map last space_seqs)) [0..<16]" by code_simp
    with that show ?thesis by (simp add: list_all_iff)
  qed
  have "\<exists>c bs. hex_encode b = bs @ [hex_digits ! (of_char c mod 16)]"
    using assms
  proof (induction b)
    case (Cons c b)
    then show ?case by (cases "b = []") (auto intro: exI [of _ "[x]" for x])
  qed simp
  then obtain c bs where "hex_encode b = bs @ [hex_digits ! (of_char c mod 16)]" by blast
  with digit [OF of_char_nibble(2)] show ?thesis by simp
qed

section \<open>Stored keys\<close>

interpretation keys: db_relation "\<lambda>d d'. api_keys d' = api_keys d"
  by unfold_locales auto

lemma keys_inserts:
  "keys.within (create_customer now i b nm em)"
  "keys.within (create_webhook_endpoint now i b u sec)"
  "keys.within (Queries.create_invoice now i b c t cur s due)"
  "keys.within (Queries.create_invoice_item now i v ds q price)"
  "keys.within (create_idempotency_key now i b key hash)"
  "keys.within (create_payment_attempt now a v i p)"
  "keys.within (create_webhook_delivery jb now i ep v ev pl)"
  by (auto simp: keys.within_def stmt_defs elim!: insert_one_InrE)

lemma keys_updates:
  "keys.within (update_invoice_state now i b st)"
  "keys.within (mark_invoice_paid now i b)"
  "keys.within (mark_payment_attempt_unknown now a why)"
  "keys.within (mark_payment_attempt_failed now a co why)"
  "keys.within (mark_payment_attempt_succeeded now a ref)"
  "keys.within (complete_idempotency_key jb now i s doc)"
  "keys.within (mark_webhook_delivery_exhausted i m)"
  "keys.within (mark_webhook_delivery_retry i t m)"
  "keys.within (mark_webhook_delivery_delivered t i)"
  "keys.within (claim_due_webhook_deliveries l n k t)"
  by (auto simp: keys.within_def stmt_defs Let_def split: if_splits option.splits elim!: update_one_InrE)

lemma keys_dispatch: "keys.pool_step w (snd (dispatch E b req w))"
  by (cases req)
    (simp_all add: dispatch_def keys.health_step keys.read_steps keys.create_invoice_step
      keys.void_step keys.pay_step keys.create_customer_step keys.create_endpoint_step
      keys_inserts keys_updates)

lemma keys_batch: "keys.pool_step w (snd (process_batch E wk w))"
  by (intro keys.process_batch_step keys_updates)

lemmas keys_run = keys.run_step [OF keys_dispatch keys_batch]

section \<open>The bootstrap\<close>

lemma keeps_bootstrap: "ok_rel.pool_step w (snd (bootstrap_demo_data E cfg random w))"
proof -
  have biz: "ok_rel.pool_step w (snd (resolve_business E nm w))" for nm w
    unfolding resolve_business_def Let_def by (intro step_intros keeps_ok_intros)
  have key: "ok_rel.pool_step w (snd (resolve_key E bz pfx sec g w))" for bz pfx sec g w
    unfolding resolve_key_def Let_def by (intro step_intros keeps_ok_intros)
  show ?thesis
    unfolding bootstrap_demo_data_def Let_def by (intro step_intros biz key)
qed

lemma resolve_business_keys: "keys.pool_step w (snd (resolve_business E nm w))"
proof -
  have "keys.within (create_business now i nm)" "keys.within (get_business_by_name nm)" for now i
    by (auto simp: keys.within_def stmt_defs elim!: insert_one_InrE select_one_InrE)
  then show ?thesis
    unfolding resolve_business_def Let_def by (intro step_intros)
qed

text \<open>A new prefix gets a key of the business with the digest of the secret.\<close>

lemma resolve_key_new:
  assumes "resolve_key E biz pfx sec generated w = (Inr full, w1)"
    and "\<forall>k \<in> set (api_keys (w_db w)). key_prefix k \<noteq> pfx"
  shows "full = pfx @ ''_'' @ sec \<and> (\<exists>k. api_keys (w_db w1) = api_keys (w_db w) @ [k]
    \<and> key_prefix k = pfx \<and> key_hash k = hash_secret (env_sha256 E) sec \<and> key_revoked k = None
    \<and> key_business k = biz_id biz)"
proof -
  obtain r2 w2 where q: "query E Pool (get_api_key_by_prefix pfx) w = (r2, w2)" by fastforce
  note s = select_pool [OF q [unfolded get_api_key_by_prefix_def]]
  show ?thesis
  proof (cases r2)
    case (Inr k)
    with s assms(2) show ?thesis by (auto dest!: find_Some_mem)
  next
    case (Inl e)
    have e: "e = NoRows"
      using assms(1) q Inl by (auto simp: resolve_key_def split: if_splits)
    let ?w3 = "w2\<lparr>w_ids := Suc (w_ids w2)\<rparr>" and ?i = "env_ids E (w_ids w2)"
    let ?st = "create_api_key (w_dbnow w2) ?i (biz_id biz) pfx (hash_secret (env_sha256 E) sec)"
    obtain r4 w4 where q4: "query E Pool ?st ?w3 = (r4, w4)" by fastforce
    obtain k where r4: "r4 = Inr k" "w1 = w4" "full = pfx @ ''_'' @ sec"
      using assms(1) q Inl e q4 by (auto simp: resolve_key_def gen_id_def split: sum.splits)
    have "w_db w2 = w_db w" using s by (simp add: same_data_def)
    with insert_pool(2) [OF q4 [unfolded create_api_key_def] r4(1)] r4(2,3) show ?thesis by auto
  qed
qed

text \<open>What the three environment variables and the random bytes give.\<close>

definition used_prefix :: "demo_config \<Rightarrow> string" where
  "used_prefix cfg = (if cfg_prefix cfg = [] then default_key_prefix else cfg_prefix cfg)"

definition used_secret :: "demo_config \<Rightarrow> string option \<Rightarrow> string" where
  "used_secret cfg random =
     (if cfg_secret cfg = [] then (case random of None \<Rightarrow> [] | Some b \<Rightarrow> hex_encode b) else cfg_secret cfg)"

lemma bootstrap_prefix:
  "bootstrap_demo_data E cfg random w = (Inr res, w1) \<Longrightarrow> boot_prefix res = used_prefix cfg"
  by (auto simp: bootstrap_demo_data_def used_prefix_def Let_def
      split: sum.splits prod.splits option.splits)

lemma bootstrap_new_key:
  assumes "bootstrap_demo_data E cfg random w = (Inr res, w1)" "w_tx w = None"
    and "\<forall>k \<in> set (api_keys (w_db w)). key_prefix k \<noteq> used_prefix cfg"
  shows "boot_prefix res = used_prefix cfg
    \<and> boot_full_key res = used_prefix cfg @ ''_'' @ used_secret cfg random
    \<and> (\<exists>k. api_keys (w_db w1) = api_keys (w_db w) @ [k] \<and> key_prefix k = used_prefix cfg
        \<and> key_hash k = hash_secret (env_sha256 E) (used_secret cfg random) \<and> key_revoked k = None
        \<and> key_business k = boot_business res)"
proof -
  obtain biz u full g nm2 where run: "resolve_business E nm2 w = (Inr biz, u)"
    "resolve_key E biz (used_prefix cfg) (used_secret cfg random) g u = (Inr full, w1)"
    "boot_business res = biz_id biz" "boot_full_key res = full" "boot_prefix res = used_prefix cfg"
    using assms(1)
    by (cases random; cases "cfg_secret cfg = []")
      (auto simp: bootstrap_demo_data_def used_prefix_def used_secret_def Let_def
        split: sum.splits prod.splits split del: if_split)
  have "api_keys (w_db u) = api_keys (w_db w)"
    using resolve_business_keys [of w E nm2] run(1) assms(2) by (simp add: keys.pool_step_def)
  with resolve_key_new [OF run(2)] assms(3) run(3-5) show ?thesis by simp
qed

lemma after_bootstrap:
  assumes "bootstrap_demo_data E cfg random w = (Inr res, w1)" "w_tx w = None" "db_ok (w_db w)"
  shows "api_keys (w_db (run_events E evs w1)) = api_keys (w_db w1) \<and> db_ok (w_db (run_events E evs w1))"
proof -
  have ok: "db_ok (w_db w1)" "w_tx w1 = None"
    using keeps_bootstrap [of w E cfg random] assms by (simp_all add: ok_rel.pool_step_def)
  then show ?thesis
    using keys_run [of w1 E evs] keeps_run [of w1 E evs]
    by (simp add: keys.pool_step_def ok_rel.pool_step_def)
qed

lemma default_key_trimmed:
  "b \<noteq> [] \<Longrightarrow> trim_space (default_key_prefix @ ''_'' @ hex_encode b) = default_key_prefix @ ''_'' @ hex_encode b"
  using hex_encode_last [of b]
  by (intro trim_space_idle) (simp_all add: default_key_prefix_def space_seqs_def)

text \<open>
  C19. The demo key works. Suppose that the bootstrap succeeds on a database without the prefix that
  is to be used, and that the secret is generated or configured without an underscore, and that the
  key has no white space at its ends, as is the case when neither part is configured. Then the
  key that it prints lets its bearer act for the demo business at any later time, after any run of
  requests and worker batches and whatever faults occurred, if the look-up of the key is answered;
  no endpoint revokes, changes or shadows it.
\<close>

theorem demo_key_works:
  assumes "bootstrap_demo_data E cfg random w = (Inr res, w1)" "w_tx w = None" "db_ok (w_db w)"
    and "\<forall>k \<in> set (api_keys (w_db w)). key_prefix k \<noteq> boot_prefix res"
    and "if cfg_secret cfg = [] then random \<noteq> Some [] else CHR ''_'' \<notin> set (cfg_secret cfg)"
    and "cfg_prefix cfg = [] \<and> cfg_secret cfg = [] \<or> trim_space (boot_full_key res) = boot_full_key res"
    and "env_outcome E (w_calls (run_events E evs w1)) = Answered"
  shows "\<exists>kid. fst (auth_middleware E (''Bearer '' @ boot_full_key res) (run_events E evs w1))
    = Inr (boot_business res, kid)"
proof -
  let ?v = "run_events E evs w1" and ?p = "used_prefix cfg" and ?s = "used_secret cfg random"
  note prefix = bootstrap_prefix [OF assms(1)]
  from bootstrap_new_key [OF assms(1,2)] assms(4) prefix obtain k where
    full: "boot_full_key res = ?p @ ''_'' @ ?s" and
    k: "api_keys (w_db w1) = api_keys (w_db w) @ [k]" "key_prefix k = ?p"
    "key_hash k = hash_secret (env_sha256 E) ?s" "key_revoked k = None" "key_business k = boot_business res"
    by auto
  have random: "random \<noteq> None" if "cfg_secret cfg = []"
    using assms(1) that by (cases random) (auto simp: bootstrap_demo_data_def Let_def)
  then have secret: "?s \<noteq> []" "CHR ''_'' \<notin> set ?s"
    using assms(5) hex_encode_last hex_encode_no_underscore
    by (auto simp: used_secret_def split: option.split if_splits)
  have "trim_space (?p @ ''_'' @ ?s) = ?p @ ''_'' @ ?s"
  proof (cases "cfg_prefix cfg = [] \<and> cfg_secret cfg = []")
    case True
    with assms(5) random obtain b where "random = Some b" "b \<noteq> []" by auto
    with True default_key_trimmed [of b] show ?thesis by (simp add: used_prefix_def used_secret_def)
  qed (use assms(6) full in auto)
  with secret k after_bootstrap [OF assms(1-3), of evs]
  have "fst (auth_middleware E (''Bearer '' @ key_prefix k @ ''_'' @ ?s) ?v) = Inr (key_business k, key_id k)"
    by (intro middleware_complete [OF assms(7)]) (simp_all add: used_prefix_def default_key_prefix_def)
  with full k show ?thesis by simp
qed

section \<open>A secret with an underscore\<close>

text \<open>A key is split at its last underscore, so its secret is never one with an underscore.\<close>

lemma underscore_refused:
  assumes "CHR ''_'' \<in> set sec" "trim_space (pfx @ ''_'' @ sec) = pfx @ ''_'' @ sec"
    and "\<forall>k \<in> set (api_keys (w_db w)). \<not> strict_prefix pfx (key_prefix k)"
  shows "\<exists>msg. fst (auth_middleware E (''Bearer '' @ pfx @ ''_'' @ sec) w) = Inl msg"
proof (rule ccontr)
  assume "\<not> ?thesis"
  then obtain b kid w' where "auth_middleware E (''Bearer '' @ pfx @ ''_'' @ sec) w = (Inr (b, kid), w')"
    by (cases "auth_middleware E (''Bearer '' @ pfx @ ''_'' @ sec) w"; cases "fst (auth_middleware E (''Bearer '' @ pfx @ ''_'' @ sec) w)") auto
  from middleware_sound [OF this] obtain scheme rest p s k where a:
    "''Bearer '' @ pfx @ ''_'' @ sec = scheme @ CHR '' '' # rest"
    "equal_fold_ascii scheme ''Bearer''"
    "trim_space (trim_space rest) = p @ ''_'' @ s" "CHR ''_'' \<notin> set s"
    "k \<in> set (api_keys (w_db w))" "key_prefix k = p" by blast
  have "length scheme = 6"
    using a(2) by (auto simp: equal_fold_ascii_def dest: arg_cong [of _ _ length])
  with a(1) have "rest = pfx @ ''_'' @ sec"
    by (auto simp: append_eq_append_conv2 Cons_eq_append_conv)
  with a(3) assms(2) have eq: "pfx @ CHR ''_'' # sec = p @ CHR ''_'' # s" by simp
  have "strict_prefix pfx p"
  proof -
    from eq obtain us where "pfx = p @ us \<and> us @ CHR ''_'' # sec = CHR ''_'' # s
        \<or> pfx @ us = p \<and> CHR ''_'' # sec = us @ CHR ''_'' # s"
      unfolding append_eq_append_conv2 by blast
    then show ?thesis
      using assms(1) a(4) by (cases us) (auto simp: strict_prefix_def)
  qed
  with assms(3) a(5,6) show False by blast
qed

text \<open>
  C37. A configured secret that contains an underscore gives a key that the bootstrap accepts, stores
  and prints and that nobody can use: if the prefix is new and no stored prefix properly extends
  it, and the key has no white space at its ends, then after a successful bootstrap the key is
  stored, unrevoked and with the digest of the configured secret, the printed key consists of that
  prefix and secret, and the middleware refuses it at any later time, after any run.
\<close>

theorem underscore_secret_refused:
  assumes "bootstrap_demo_data E cfg random w = (Inr res, w1)" "w_tx w = None" "db_ok (w_db w)"
    and "CHR ''_'' \<in> set (cfg_secret cfg)"
    and "\<forall>k \<in> set (api_keys (w_db w)). \<not> prefix (boot_prefix res) (key_prefix k)"
    and "trim_space (boot_full_key res) = boot_full_key res"
  shows "boot_full_key res = boot_prefix res @ ''_'' @ cfg_secret cfg
    \<and> (\<exists>k \<in> set (api_keys (w_db w1)). key_prefix k = boot_prefix res \<and> key_revoked k = None
         \<and> key_hash k = hash_secret (env_sha256 E) (cfg_secret cfg) \<and> key_business k = boot_business res)
    \<and> (\<exists>msg. fst (auth_middleware E (''Bearer '' @ boot_full_key res) (run_events E evs w1)) = Inl msg)"
proof -
  note prefix = bootstrap_prefix [OF assms(1)]
  have secret: "used_secret cfg random = cfg_secret cfg" using assms(4) by (auto simp: used_secret_def)
  have "\<forall>k \<in> set (api_keys (w_db w)). key_prefix k \<noteq> used_prefix cfg" using assms(5) prefix by auto
  from bootstrap_new_key [OF assms(1,2) this] obtain k where
    full: "boot_full_key res = boot_prefix res @ ''_'' @ cfg_secret cfg" and
    k: "api_keys (w_db w1) = api_keys (w_db w) @ [k]" "key_prefix k = boot_prefix res"
    "key_hash k = hash_secret (env_sha256 E) (cfg_secret cfg)" "key_revoked k = None"
    "key_business k = boot_business res"
    using prefix secret by auto
  have "\<forall>k \<in> set (api_keys (w_db (run_events E evs w1))). \<not> strict_prefix (boot_prefix res) (key_prefix k)"
    using after_bootstrap [OF assms(1-3), of evs] k(1,2) assms(5) by (auto simp: strict_prefix_def)
  from underscore_refused [OF assms(4) _ this, of E] assms(6) full
  have "\<exists>msg. fst (auth_middleware E (''Bearer '' @ boot_full_key res) (run_events E evs w1)) = Inl msg"
    by simp
  with full k show ?thesis by auto
qed

end
