(* ===== verification/Retry.thy ===== *)
theory Retry
  imports Service
begin

text \<open>
  Idempotency over the life of the server: the response of a completed key stays, and a retry is
  answered with it.
\<close>

section \<open>Completed keys stay\<close>

definition completed_kept :: "database \<Rightarrow> database \<Rightarrow> bool" where
  "completed_kept d d' \<longleftrightarrow>
     (\<forall>b key ex. lookup_idem b key d = Some ex \<longrightarrow> idm_status ex = IdemCOMPLETED \<longrightarrow>
        lookup_idem b key d' = Some ex)"

interpretation completed: db_relation completed_kept
  by unfold_locales (auto simp: completed_kept_def)

lemma completed_same:
  "(\<And>d x d'. st d = Inr (x, d') \<Longrightarrow> idempotency_keys d' = idempotency_keys d) \<Longrightarrow> completed.within st"
  unfolding completed.within_def by (auto simp: completed_kept_def lookup_idem_def)

lemma completed_inserts:
  "completed.within (create_customer now i b nm em)"
  "completed.within (create_webhook_endpoint now i b u sec)"
  "completed.within (Queries.create_invoice now i b c t cur s due)"
  "completed.within (Queries.create_invoice_item now i v ds q price)"
  "completed.within (create_payment_attempt now a v i p)"
  "completed.within (create_webhook_delivery jb now i ep v ev pl)"
  by (rule completed_same, auto simp: stmt_defs elim!: insert_one_InrE)+

lemma completed_updates:
  "completed.within (update_invoice_state now i b st)"
  "completed.within (mark_invoice_paid now i b)"
  "completed.within (mark_payment_attempt_unknown now a why)"
  "completed.within (mark_payment_attempt_failed now a co why)"
  "completed.within (mark_payment_attempt_succeeded now a ref)"
  "completed.within (mark_webhook_delivery_exhausted i m)"
  "completed.within (mark_webhook_delivery_retry i t m)"
  "completed.within (mark_webhook_delivery_delivered t i)"
  "completed.within (claim_due_webhook_deliveries l n k t)"
  by (rule completed_same,
      auto simp: stmt_defs Let_def split: if_splits option.splits elim!: update_one_InrE)+

text \<open>A new key comes after the old rows, and completing another key leaves this one alone.\<close>

lemma find_first_kept:
  "find Q xs = Some x \<Longrightarrow> (\<And>r. Q (f r) \<longleftrightarrow> Q r) \<Longrightarrow> \<not> P x \<Longrightarrow> find Q (update_where P f xs) = Some x"
  by (induction xs) (auto simp: update_where_def split: if_splits)

lemma find_first_append: "find Q xs = Some x \<Longrightarrow> find Q (xs @ ys) = Some x"
  by (induction xs) (auto split: if_splits)

lemma completed_create: "completed.within (create_idempotency_key now i b key hash)"
  unfolding completed.within_def
  by (auto simp: completed_kept_def lookup_idem_def stmt_defs find_first_append elim!: insert_one_InrE)

lemma completed_complete: "completed.within (complete_idempotency_key jb now i s doc)"
proof -
  have "completed_kept d (d\<lparr>idempotency_keys := update_where (\<lambda>r. idm_id r = i \<and> idm_status r = IdemPROCESSING) f
      (idempotency_keys d)\<rparr>)"
    if "\<And>r. idm_business (f r) = idm_business r" "\<And>r. idm_key (f r) = idm_key r" for d f
    using that by (auto simp: completed_kept_def lookup_idem_def intro: find_first_kept)
  then show ?thesis
    unfolding completed.within_def
    by (auto simp: stmt_defs elim!: update_one_InrE)
qed

lemma completed_dispatch: "completed.pool_step w (snd (dispatch E b req w))"
  by (cases req)
    (simp_all add: dispatch_def completed.health_step completed.read_steps completed.create_invoice_step
      completed.void_step completed.pay_step completed.create_customer_step
      completed.create_endpoint_step completed_inserts completed_updates completed_create
      completed_complete)

lemma completed_batch: "completed.pool_step w (snd (process_batch E wk w))"
  by (intro completed.process_batch_step completed_updates)

lemmas completed_run = completed.run_step [OF completed_dispatch completed_batch]

section \<open>Retries\<close>

text \<open>A request whose key holds the response of the same request, with no fault.\<close>

lemma replay_answered:
  assumes "lookup_idem b key (w_db w) = Some ex" "idm_status ex = IdemCOMPLETED"
    and "idm_hash ex = fp E ivc token" "pay_request E header id_param body key ivc token"
    and "\<forall>k < 3. env_outcome E (w_calls w + k) = Answered"
  shows "fst (pay_invoice E b header id_param body w) = replay_reply ex"
proof -
  have ans: "env_outcome E (w_calls w) = Answered" "env_outcome E (Suc (w_calls w)) = Answered"
    "env_outcome E (Suc (Suc (w_calls w))) = Answered"
    using assms(5) [rule_format, of 0] assms(5) [rule_format, of 1] assms(5) [rule_format, of 2]
    by (simp_all add: numeral_2_eq_2)
  then have "fst (claim E b ivc key (fp E ivc token) w) = Inr (Replay ex)"
    using assms(1-3)
    by (simp add: claim_def with_tx_def begin_tx_def claim_body_def query_Tx run_tx_def commit_def
        get_idempotency_key_def select_one_def lookup_idem_def Let_def)
  then obtain w1 where "claim E b ivc key (fp E ivc token) w = (Inr (Replay ex), w1)"
    by (metis prod.collapse)
  then show ?thesis
    by (simp add: pay_invoice_valid [OF assms(4)] pay_claimed_def)
qed

text \<open>
  C8. Retries are safe: once a request has been answered with a recorded outcome, every later
  request with the same key, invoice and token is answered with the same status and the stored
  response, whatever requests and worker batches came between and whatever failed in them. It
  neither calls the provider nor changes anything. Only if one of its own three calls to the
  database fails may the answer be the internal error instead.
\<close>

theorem pay_retry_replays:
  assumes "pay_invoice E b header1 id1 body1 w = (Reply status (Some doc), w1)" "w_tx w = None"
    and "db_ok (w_db w)" "w_psp w1 \<noteq> w_psp w"
    and "pay_request E header1 id1 body1 key ivc token"
    and "pay_request E header2 id2 body2 key ivc token"
    and "w_db v = w_db (run_events E evs w1)" "w_tx v = None"
    and "pay_invoice E b header2 id2 body2 v = (rep, v')"
  shows "w_psp v' = w_psp v \<and> w_db v' = w_db v
    \<and> (if \<forall>k < 3. env_outcome E (w_calls v + k) = Answered
       then rep = Reply status (Some (env_jsonb E doc))
       else rep \<in> {Reply status (Some (env_jsonb E doc)),
                   fail_with 500 ''internal_error'' ''Failed to claim payment''})"
  using assms(1,2,5)
proof (cases rule: pay_cases)
  case (settled idem att iv d1 k result)
  let ?ex = "completed_key E (w_dbnow w) (fst (outcome_response E att iv result))
              (snd (outcome_response E att iv result)) idem"
  have ex: "idm_hash ?ex = fp E ivc token" "idm_status ?ex = IdemCOMPLETED"
    using settled(1) by (auto simp: claimed_by_def claim_granted_def completed_key_def)
  have idle: "w_tx w1 = None"
    using keeps_pay [of w E b header1 id1 body1] assms(1,2) by (simp add: ok_rel.pool_step_def)
  then have "completed_kept (w_db w1) (w_db v)"
    using completed_run [of w1 E evs] assms(7) by (simp add: completed.pool_step_def)
  with recorded_lookup [OF settled(1)] settled(5) ex(2)
  have look: "lookup_idem b key (w_db v) = Some ?ex" by (simp add: completed_kept_def)
  have "status \<in> {200, 202, 402}" and doc: "doc = snd (outcome_response E att iv result)"
    and st: "status = fst (outcome_response E att iv result)"
    using settled(6) by (auto simp: fail_with_def outcome_status split: sum.splits)
  then have "nat (sint (of_nat status :: int32)) = status" by auto
  then have out: "replay_reply ?ex = Reply status (Some (env_jsonb E doc))"
    using st doc by (simp add: replay_reply_def completed_key_def)
  have main: "w_psp v' = w_psp v \<and> w_db v' = w_db v \<and> rep \<in> {Reply status (Some (env_jsonb E doc)),
       fail_with 500 ''internal_error'' ''Failed to claim payment''}"
    using assms(9,8,6)
  proof (cases rule: pay_cases)
    case (refused e)
    with look ex show ?thesis
      by (auto simp: claim_refused_def claim_failure_def split: pay_error.splits db_error.splits)
  qed (use look out in \<open>auto simp: claimed_by_def claim_granted_def\<close>)
  with replay_answered [OF look ex(2,1) assms(6)] assms(9) out show ?thesis by auto
qed (use assms(4) in \<open>auto simp: fail_with_def\<close>)

end
