(* ===== verification/Run_Examples.thy ===== *)
theory Run_Examples
  imports Payment_Examples Service_Examples Concurrent_Examples Shared_Ledger Tenancy Delivery Api
    Demo_Key Retry
begin

text \<open>
  The theorems on whole runs at a concrete run: a business with a key, an OPEN and a DRAFT invoice
  and a due delivery, and a second business, through a payment and a batch of the worker.
\<close>

section \<open>A running server\<close>

definition draft_invoice :: invoice where
  "draft_invoice = demo_invoice\<lparr>inv_id := 6, inv_total := 70, inv_state := DRAFT\<rparr>"

definition priced :: "int64 \<Rightarrow> int64 \<Rightarrow> int64 \<Rightarrow> invoice_item" where
  "priced i v u = \<lparr>itm_id = i, itm_invoice = v, itm_description = ''a'', itm_quantity = 1,
     itm_unit = u, itm_created = 0\<rparr>"

definition live_db :: database where
  "live_db = due_db
     \<lparr>businesses := businesses demo_db @ [\<lparr>biz_id = 8, biz_name = ''o'', biz_created = 0, biz_updated = 0\<rparr>],
      api_keys := [demo_key],
      customers := customers demo_db @ [\<lparr>cus_id = 12, cus_business = 8, cus_name = ''d'', cus_email = ''f'',
                     cus_created = 0, cus_updated = 0\<rparr>],
      invoices := [demo_invoice, draft_invoice],
      invoice_items := [priced 10 3 500, priced 11 6 70]\<rparr>"

definition live_world :: world where
  "live_world = demo_world\<lparr>w_db := live_db\<rparr>"

definition ten_at_a_time :: worker where
  "ten_at_a_time = new_worker (seconds 1) (seconds 30) 10 None"

definition pay_it :: request where
  "pay_it = PostPay ''k1'' demo_id (Some ''tok_success'')"

definition day :: "(instant \<times> instant \<times> event) list" where
  "day = [(10, 10, Request ''Bearer dp_s'' pay_it), (20, 20, Tick ten_at_a_time)]"

lemma live_world_sel [simp]: "w_db live_world = live_db" "w_tx live_world = None" "w_calls live_world = 0"
  by (simp_all add: live_world_def demo_world_def)

lemma live_db_ok: "db_ok live_db"
  by code_simp

lemma live_db_invoices: "invoices live_db = [demo_invoice, draft_invoice]"
  by (simp add: live_db_def)

lemma live_books: "books_ok live_db"
proof -
  have "payment_attempts live_db = []"
    by (simp add: live_db_def due_db_def demo_db_def empty_db_def)
  moreover have "totals_ok live_db"
    by (simp add: totals_ok_def live_db_def rows_of_def priced_def demo_invoice_def draft_invoice_def
        items_total_def)
  ultimately show ?thesis
    using live_db_ok
    by (simp add: books_ok_def paid_ok_def has_succeeded_def attempts_ok_def live_db_invoices
        demo_invoice_def draft_invoice_def)
qed

text \<open>The same world under the interleaving in which a void overtakes the payment.\<close>

definition live_overtaken :: system where
  "live_overtaken = run_schedule demo_env [1, 0, 0, 0, 1] (rivals, live_world)"

lemma live_overtaken_run: "(service_moves demo_env)\<^sup>*\<^sup>* ([], live_world) (fst live_overtaken, snd live_overtaken)"
  using schedule_run [of rivals demo_env live_world "[1, 0, 0, 0, 1]"]
  by (simp add: live_overtaken_def rivals_def)

lemma live_overtaken_rows: "void_with SUCCEEDED (w_db (snd live_overtaken))"
  by code_simp

lemma live_world_psp: "w_psp live_world = []"
  by (simp add: live_world_def)

theorem books_invariant_witness:
  "books_ok (w_db (run_events demo_env day live_world))
     \<and> totals_ok (w_db (snd live_overtaken)) \<and> attempts_ok (w_db (snd live_overtaken))
     \<and> void_with SUCCEEDED (w_db (snd live_overtaken))"
proof -
  have "books_ok (w_db live_world)" "w_tx live_world = None" using live_books by simp_all
  note ok = books_invariant [OF this, of demo_env day]
  from ok [THEN conjunct2, THEN conjunct2, rule_format, OF live_overtaken_run live_world_psp] ok live_overtaken_rows
  show ?thesis by blast
qed

lemma live_states: "states live_db 3 = Some OPEN" "states live_db 6 = Some DRAFT"
  by (simp_all add: states_def live_db_invoices demo_invoice_def draft_invoice_def)

theorem service_refines_lifecycle_witness:
  "lifecycle\<^sup>*\<^sup>* (states live_db) (states (w_db (run_events demo_env day live_world)))
   \<and> shared_lifecycle\<^sup>*\<^sup>* (states live_db) (states (w_db (snd live_overtaken)))"
proof -
  have "books_ok (w_db live_world)" "w_tx live_world = None" using live_books by simp_all
  note ok = service_refines_lifecycle [OF this, of demo_env day]
  from ok [THEN conjunct2, THEN conjunct2, THEN conjunct2, rule_format, OF live_overtaken_run live_world_psp]
    ok
  show ?thesis by simp
qed

theorem drafts_are_never_paid_witness:
  "states (w_db (run_events demo_env day live_world)) 6 \<in> {Some DRAFT, Some VOID}"
  using drafts_are_never_paid [of live_world 6 demo_env day] live_books live_states by simp

section \<open>Tenants\<close>

definition foreign_request :: "(answer \<times> world)" where
  "foreign_request = serve demo_env ''Bearer dp_s'' pay_it live_world"

lemma live_login: "fst (auth_middleware demo_env ''Bearer dp_s'' live_world) = Inr (1, 7)"
proof -
  have "split_n2 CHR '' '' ''Bearer dp_s'' = [''Bearer'', ''dp_s'']"
    "equal_fold_ascii ''Bearer'' ''Bearer''" "parse_api_key (trim_space ''dp_s'') = Inr (''dp'', ''s'')"
    by code_simp+
  moreover have "fst (query demo_env Pool (get_api_key_by_prefix ''dp'') live_world) = Inr demo_key"
    by code_simp
  then obtain w1 where "query demo_env Pool (get_api_key_by_prefix ''dp'') live_world = (Inr demo_key, w1)"
    by (metis fst_conv prod.collapse)
  ultimately show ?thesis
    by (simp add: auth_middleware_def demo_key_def hash_secret_def demo_env_def
        del: split_n2.simps hex_encode.simps)
qed

theorem requests_isolated_witness:
  "tenant_view 8 (w_db (snd foreign_request)) = tenant_view 8 live_db \<and> length (customers (tenant_view 8 live_db)) = 1"
proof -
  have "serve demo_env ''Bearer dp_s'' pay_it live_world = (fst foreign_request, snd foreign_request)"
    by (simp add: foreign_request_def)
  from requests_isolated [OF this] live_db_ok live_login
  have "tenant_view 8 (w_db (snd foreign_request)) = tenant_view 8 live_db"
    by auto
  then show ?thesis by (simp add: tenant_view_def live_db_def demo_db_def)
qed

definition busier_world :: world where
  "busier_world = live_world\<lparr>w_db := live_db\<lparr>customers := customers live_db @
     [\<lparr>cus_id = 13, cus_business = 8, cus_name = ''g'', cus_email = ''h'',
       cus_created = 0, cus_updated = 0\<rparr>]\<rparr>\<rparr>"

theorem reads_confined_witness:
  "w_db busier_world \<noteq> w_db live_world
   \<and> fst (dispatch demo_env 1 GetCustomers live_world) = fst (dispatch demo_env 1 GetCustomers busier_world)"
proof -
  have "tenant_view 1 (w_db live_world) = tenant_view 1 (w_db busier_world)"
    by (simp add: busier_world_def tenant_view_def own_invoices_def own_endpoints_def)
  from reads_confined [OF _ this, of GetCustomers demo_env] show ?thesis
    by (auto simp: busier_world_def dest: arg_cong [of _ _ "\<lambda>d. length (customers d)"])
qed

section \<open>Answers and keys\<close>

theorem answers_fit_api_witness:
  "answers pay_it (fst (serve demo_env ''Bearer dp_s'' pay_it (run_events demo_env day live_world)))"
proof -
  have "idempotency_keys live_db = []"
    by (simp add: live_db_def due_db_def demo_db_def empty_db_def)
  with answers_fit_api [of live_world pay_it demo_env "''Bearer dp_s''" day] show ?thesis
    by (simp add: responses_ok_def)
qed

lemma demo_db_keys [simp]: "api_keys demo_db = []"
  by (simp add: demo_db_def empty_db_def)

lemma demo_env_answers [simp]: "env_outcome demo_env k = Answered"
  by (simp add: demo_env_def)


lemma demo_env_jsonb: "env_jsonb demo_env j = j"
  by (simp add: demo_env_def)

text \<open>The retry of a payment after a later run.\<close>

theorem pay_retry_replays_witness:
  "\<exists>v'. pay_invoice demo_env 1 ''k1'' demo_id (Some ''tok_success'') (run_events demo_env day demo_paid)
     = (Reply 200 (Some demo_doc), v') \<and> w_psp v' = w_psp (run_events demo_env day demo_paid)"
proof -
  let ?v = "run_events demo_env day demo_paid"
  obtain rep v' where r: "pay_invoice demo_env 1 ''k1'' demo_id (Some ''tok_success'') ?v = (rep, v')"
    by fastforce
  have "w_tx ?v = None" using keeps_run [of demo_paid demo_env day] demo_pay_idle
    by (simp add: ok_rel.pool_step_def)
  with pay_retry_replays [OF demo_pay_run _ _ _ demo_request demo_request refl _ r]
    demo_db_ok demo_pay_psp r
  show ?thesis by (simp add: demo_env_jsonb)
qed

definition demo_boot :: "(bootstrap_error + bootstrap_result) \<times> world" where
  "demo_boot = bootstrap_demo_data demo_env \<lparr>cfg_business = [], cfg_prefix = [], cfg_secret = []\<rparr>
     (Some ''x'') demo_world"

lemma demo_boot_succeeds:
  "map_sum (\<lambda>e. ()) (\<lambda>r. (boot_full_key r, boot_prefix r)) (fst demo_boot)
     = Inr (''dp_test_demo_78'', ''dp_test_demo'')"
  by code_simp

theorem demo_key_works_witness:
  "\<exists>b kid. fst (auth_middleware demo_env ''Bearer dp_test_demo_78'' (run_events demo_env day (snd demo_boot)))
     = Inr (b, kid)"
proof -
  obtain res where r: "fst demo_boot = Inr res" "boot_full_key res = ''dp_test_demo_78''"
    using demo_boot_succeeds by (cases "fst demo_boot") auto
  then have run: "bootstrap_demo_data demo_env \<lparr>cfg_business = [], cfg_prefix = [], cfg_secret = []\<rparr>
      (Some ''x'') demo_world = (Inr res, snd demo_boot)"
    by (simp add: demo_boot_def prod_eq_iff)
  from demo_key_works [OF run, of day] r(2) demo_db_ok show ?thesis by auto
qed

text \<open>A configured secret with an underscore: the bootstrap succeeds and prints the key.\<close>

definition odd_setup :: demo_config where
  "odd_setup = \<lparr>cfg_business = [], cfg_prefix = ''dp'', cfg_secret = ''a_b''\<rparr>"

definition odd_boot :: "(bootstrap_error + bootstrap_result) \<times> world" where
  "odd_boot = bootstrap_demo_data demo_env odd_setup None demo_world"

lemma odd_boot_succeeds:
  "map_sum (\<lambda>e. ()) (\<lambda>r. (boot_full_key r, boot_prefix r)) (fst odd_boot) = Inr (''dp_a_b'', ''dp'')"
  by code_simp

theorem underscore_secret_refused_witness:
  "(\<exists>res. fst odd_boot = Inr res \<and> boot_full_key res = ''dp_a_b'')
   \<and> (\<exists>msg. fst (auth_middleware demo_env ''Bearer dp_a_b'' (run_events demo_env day (snd odd_boot))) = Inl msg)"
proof -
  obtain res where r: "fst odd_boot = Inr res" "boot_full_key res = ''dp_a_b''"
    using odd_boot_succeeds by (cases "fst odd_boot") auto
  then have run: "bootstrap_demo_data demo_env odd_setup None demo_world = (Inr res, snd odd_boot)"
    by (simp add: odd_boot_def prod_eq_iff)
  have "trim_space ''dp_a_b'' = ''dp_a_b''" by code_simp
  with underscore_secret_refused [OF run, of day] r demo_db_ok show ?thesis
    by (simp add: odd_setup_def)
qed

section \<open>Deliveries\<close>





definition done_row :: webhook_delivery where
  "done_row = due_row\<lparr>whd_id := 19, whd_status := DlvDELIVERED, whd_attempts := 1\<rparr>"

definition mixed_world :: world where
  "mixed_world = demo_world\<lparr>w_db := due_db\<lparr>webhook_deliveries := [due_row, done_row]\<rparr>\<rparr>"

lemma mixed_ok: "db_ok (w_db mixed_world)"
  by code_simp

theorem ended_stays_witness:
  "done_row \<in> set (webhook_deliveries
     (w_db (start demo_env ten_at_a_time [(20, 20), (40000000, 40000000)] mixed_world)))"
  by (rule ended_stays [OF mixed_ok])
    (simp_all add: mixed_world_def demo_world_def ended_def done_row_def)

theorem at_most_six_attempts_witness:
  "outbox_at_rest (w_db (run_events demo_env day live_world))
   \<and> length (filter (\<lambda>(j, h). j = 9) (w_hooks (run_events demo_env day live_world))) \<le> 6"
proof -
  have "outbox_at_rest live_db"
    by (simp add: live_db_def due_db_def outbox_at_rest_def at_rest_def due_row_def)
  then show ?thesis
    using at_most_six_attempts [of demo_env live_world day] live_db_ok
    by (simp add: live_world_def demo_world_def)
qed

section \<open>A seventh attempt\<close>

text \<open>The connection is lost exactly when the sixth failure is to be recorded.\<close>

definition flaky_env :: env where
  "flaky_env = demo_env\<lparr>env_outcome := (\<lambda>k. if k = 1 then Dropped else Answered),
     env_hook := (\<lambda>k r. HookStatus 500)\<rparr>"

definition sixth_world :: world where
  "sixth_world = demo_world\<lparr>w_db := due_db\<lparr>webhook_deliveries := [due_row\<lparr>whd_attempts := 5\<rparr>]\<rparr>\<rparr>"

definition two_ticks :: world where
  "two_ticks = start flaky_env ten_at_a_time [(20, 20), (40000000, 40000000)] sixth_world"

lemma two_ticks_rows:
  "length (w_hooks two_ticks) = 2 \<and> map whd_attempts (webhook_deliveries (w_db two_ticks)) = [7]"
  by code_simp


end
